(* ===== verification/Prelude.thy ===== *)
theory Prelude
  imports Complex_Main "HOL-Library.Word"
begin

text \<open>
  Shared vocabulary of the development: the ways a run of the program can stop, results as
  sums with their sequencing operation, loops over a list of items, C integer conversions
  and the list facts behind the circular buffers.
\<close>

section \<open>Faults and results\<close>

text \<open>
  The C code stops abnormally in few ways. A failed \<open>assert\<close> and the \<open>NYI\<close> macro of
  \<open>yar.h\<close> abort the process; the function that contains the check is recorded, as the
  macro's own message does. Memory misuse and reading a variable never assigned have no defined meaning in C, so each is a
  result of its own and never a value. \<open>OutOfFuel\<close> is not a behaviour of the program: it marks
  the recursion bound of the few loops that carry one, with a lemma that the bound suffices.
\<close>

datatype fault =
    Assert string
  | NYI string
  | NullDeref
  | UseAfterFree
  | OutOfBounds
  | DoubleFree
  | UninitRead
  | OutOfFuel

type_synonym 'a res = "fault + 'a"

text \<open>Sequencing: the first fault ends the run.\<close>

definition bind_res :: "'e + 'a \<Rightarrow> ('a \<Rightarrow> 'e + 'b) \<Rightarrow> 'e + 'b" where
  "bind_res m f = (case m of Inl e \<Rightarrow> Inl e | Inr x \<Rightarrow> f x)"

definition assert_res :: "bool \<Rightarrow> string \<Rightarrow> (unit \<Rightarrow> 'a res) \<Rightarrow> 'a res" where
  "assert_res b site cont = (if b then cont () else Inl (Assert site))"

named_theorems res_simps \<open>facts that evaluate sequenced results\<close>

lemma bind_res_Inl [simp, res_simps]: "bind_res (Inl e) f = Inl e"
  by (simp add: bind_res_def)

lemma bind_res_Inr [simp, res_simps]: "bind_res (Inr x) f = f x"
  by (simp add: bind_res_def)

lemma assert_res_True [simp, res_simps]: "assert_res True site cont = cont ()"
  by (simp add: assert_res_def)

lemma assert_res_False [simp, res_simps]: "assert_res False site cont = Inl (Assert site)"
  by (simp add: assert_res_def)

lemma bind_res_eq_Inr: "bind_res m f = Inr y \<longleftrightarrow> (\<exists>x. m = Inr x \<and> f x = Inr y)"
  by (cases m) auto

lemma bind_res_eq_Inl: "bind_res m f = Inl e \<longleftrightarrow> m = Inl e \<or> (\<exists>x. m = Inr x \<and> f x = Inl e)"
  by (cases m) auto

lemma assert_res_eq_Inr: "assert_res b site cont = Inr y \<longleftrightarrow> b \<and> cont () = Inr y"
  by (simp add: assert_res_def)

lemma bind_res_assoc: "bind_res (bind_res m f) g = bind_res m (\<lambda>x. bind_res (f x) g)"
  by (cases m) auto

lemma bind_res_cong [fundef_cong]:
  "m = m' \<Longrightarrow> (\<And>x. m' = Inr x \<Longrightarrow> f x = g x) \<Longrightarrow> bind_res m f = bind_res m' g"
  by (cases m') auto

lemma bind_res_split:
  "P (bind_res m f) \<longleftrightarrow> (\<forall>e. m = Inl e \<longrightarrow> P (Inl e)) \<and> (\<forall>x. m = Inr x \<longrightarrow> P (f x))"
  by (cases m) auto

lemmas res_dest = bind_res_eq_Inr assert_res_eq_Inr

section \<open>Loops over a list of items\<close>

text \<open>A C loop over the items of a container, each pass threading the state.\<close>

fun fold_res :: "('i \<Rightarrow> 's \<Rightarrow> 'e + 's) \<Rightarrow> 'i list \<Rightarrow> 's \<Rightarrow> 'e + 's" where
  "fold_res f [] s = Inr s"
| "fold_res f (x # xs) s = bind_res (f x s) (fold_res f xs)"

lemma fold_res_append:
  "fold_res f (xs @ ys) s = bind_res (fold_res f xs s) (fold_res f ys)"
  by (induction xs arbitrary: s) (auto simp: bind_res_def split: sum.splits)

lemma fold_res_invariant:
  assumes "fold_res f xs s = Inr s'" "P s"
    and "\<And>x t t'. x \<in> set xs \<Longrightarrow> P t \<Longrightarrow> f x t = Inr t' \<Longrightarrow> P t'"
  shows "P s'"
  using assms
proof (induction xs arbitrary: s)
  case Nil
  then show ?case by simp
next
  case (Cons x xs)
  from Cons.prems(1) obtain t where t: "f x s = Inr t" "fold_res f xs t = Inr s'"
    by (auto simp: bind_res_eq_Inr)
  have "P t" using Cons.prems(2) Cons.prems(3)[of x s t] t(1) by simp
  show ?case
  proof (rule Cons.IH[OF t(2) \<open>P t\<close>])
    fix y u u' assume "y \<in> set xs" "P u" "f y u = Inr u'"
    then show "P u'" using Cons.prems(3)[of y u u'] by simp
  qed
qed

fun map_res :: "('a \<Rightarrow> 'e + 'b) \<Rightarrow> 'a list \<Rightarrow> 'e + 'b list" where
  "map_res f [] = Inr []"
| "map_res f (x # xs) = bind_res (f x) (\<lambda>y. bind_res (map_res f xs) (\<lambda>ys. Inr (y # ys)))"

lemma map_res_eq_Inr:
  "map_res f xs = Inr ys \<longleftrightarrow> list_all2 (\<lambda>x y. f x = Inr y) xs ys"
  by (induction xs arbitrary: ys) (auto simp: bind_res_eq_Inr list_all2_Cons1)

lemma map_res_Inr: "(\<And>x. x \<in> set xs \<Longrightarrow> f x = Inr (g x)) \<Longrightarrow> map_res f xs = Inr (map g xs)"
  by (induction xs) auto

section \<open>C integers\<close>

text \<open>\<open>int\<close> and \<open>uint64_t\<close> of the target: 32 and 64 bits, two's complement.\<close>

definition to_int32 :: "64 word \<Rightarrow> int" where
  "to_int32 w = sint (ucast w :: 32 word)"

abbreviation SIZE_MAX :: nat where
  "SIZE_MAX \<equiv> 2 ^ 64 - 1"

lemma to_int32_small:
  assumes "uint w < 2 ^ 31"
  shows "to_int32 w = uint w"
proof -
  have "uint (ucast w :: 32 word) = uint w"
    using assms by (simp add: uint_up_ucast unsigned_ucast_eq take_bit_int_eq_self)
  moreover have "uint (ucast w :: 32 word) < 2 ^ (LENGTH(32) - 1)"
    using assms calculation by simp
  ultimately show ?thesis
    using assms
    by (auto simp: to_int32_def sint_uint signed_take_bit_int_eq_self_iff
             intro: order_trans[of _ 0])
qed

section \<open>List facts\<close>

text \<open>The last \<open>n\<close> elements of a list.\<close>

definition lastn :: "nat \<Rightarrow> 'a list \<Rightarrow> 'a list" where
  "lastn n xs = drop (length xs - n) xs"

lemma lastn_short [simp]: "length xs \<le> n \<Longrightarrow> lastn n xs = xs"
  by (simp add: lastn_def)

lemma length_lastn [simp]: "length (lastn n xs) = min n (length xs)"
  by (simp add: lastn_def)

lemma mod_eq_close:
  fixes i n :: nat
  assumes "i mod m = n mod m" "i \<le> n" "n < i + m"
  shows "i = n"
proof -
  have "m dvd (n - i)"
    using assms(1,2) by (metis mod_eq_dvd_iff_nat)
  moreover have "n - i < m" using assms(2,3) by arith
  ultimately have "n - i = 0" by (metis dvd_imp_le not_less neq0_conv)
  then show ?thesis using assms(2) by simp
qed

end
