(* ===== verification/HashTable.thy ===== *)
theory HashTable
  imports Prelude
begin

text \<open>
  The interface of the \<open>uthash\<close> macros the program uses (\<open>HASH_FIND\<close>, \<open>HASH_ADD\<close>,
  \<open>HASH_DEL\<close>, \<open>HASH_COUNT\<close>, \<open>HASH_ITER\<close>). The library is fetched by the build and is not
  part of the repository, so its operations are a parameter of every definition that uses
  a table, and what the program relies on is the locale \<open>uthash\<close>: the table denotes the
  list of its items in insertion order, the order in which \<open>HASH_ITER\<close> visits them. Keys
  are byte strings and items are pointers, as in the macros.
\<close>

type_synonym ptr = nat

record 'h hashops =
  hh_empty :: 'h
  hh_find  :: "'h \<Rightarrow> string \<Rightarrow> ptr option"
  hh_add   :: "'h \<Rightarrow> string \<Rightarrow> ptr \<Rightarrow> 'h"
  hh_del   :: "'h \<Rightarrow> ptr \<Rightarrow> 'h"
  hh_count :: "'h \<Rightarrow> nat"
  hh_iter  :: "'h \<Rightarrow> ptr list"

text \<open>Items are unique by key and by address.\<close>

definition items_ok :: "(string \<times> ptr) list \<Rightarrow> bool" where
  "items_ok xs \<longleftrightarrow> distinct (map fst xs) \<and> distinct (map snd xs)"

lemma items_ok_Nil [simp]: "items_ok []"
  by (simp add: items_ok_def)

lemma items_ok_snoc:
  "items_ok xs \<Longrightarrow> k \<notin> fst ` set xs \<Longrightarrow> p \<notin> snd ` set xs \<Longrightarrow> items_ok (xs @ [(k, p)])"
  by (auto simp: items_ok_def)

lemma items_ok_filter: "items_ok xs \<Longrightarrow> items_ok (filter Q xs)"
  by (simp add: items_ok_def distinct_map_filter)

locale uthash =
  fixes H :: "'h hashops"
    and items :: "'h \<Rightarrow> (string \<times> ptr) list"
  assumes items_empty: "items (hh_empty H) = []"
    and find_map_of: "items_ok (items t) \<Longrightarrow> hh_find H t k = map_of (items t) k"
    and items_add: "k \<notin> fst ` set (items t) \<Longrightarrow> items (hh_add H t k p) = items t @ [(k, p)]"
    and items_del: "p \<in> snd ` set (items t) \<Longrightarrow>
      items (hh_del H t p) = filter (\<lambda>(_, q). q \<noteq> p) (items t)"
    and count_items: "hh_count H t = length (items t)"
    and iter_items: "hh_iter H t = map snd (items t)"
begin

lemma find_None_iff: "items_ok (items t) \<Longrightarrow> hh_find H t k = None \<longleftrightarrow> k \<notin> fst ` set (items t)"
  by (simp add: find_map_of map_of_eq_None_iff)

lemma find_Some_iff:
  "items_ok (items t) \<Longrightarrow> hh_find H t k = Some p \<longleftrightarrow> (k, p) \<in> set (items t)"
  by (simp add: find_map_of items_ok_def)

lemma ok_empty: "items_ok (items (hh_empty H))"
  by (simp add: items_empty)

lemma ok_add:
  assumes "items_ok (items t)" "hh_find H t k = None" "p \<notin> set (hh_iter H t)"
  shows "items_ok (items (hh_add H t k p))"
    and "items (hh_add H t k p) = items t @ [(k, p)]"
proof -
  have k: "k \<notin> fst ` set (items t)" using assms(1,2) find_None_iff by simp
  then show eq: "items (hh_add H t k p) = items t @ [(k, p)]" by (rule items_add)
  show "items_ok (items (hh_add H t k p))"
    unfolding eq using assms(1,3) k by (auto intro!: items_ok_snoc simp: iter_items)
qed

lemma find_add_same:
  assumes "items_ok (items t)" "hh_find H t k = None" "p \<notin> set (hh_iter H t)"
  shows "hh_find H (hh_add H t k p) k = Some p"
  using ok_add[OF assms] by (simp add: find_Some_iff)

lemma find_add_other:
  assumes "items_ok (items t)" "hh_find H t k = None" "p \<notin> set (hh_iter H t)" "k' \<noteq> k"
  shows "hh_find H (hh_add H t k p) k' = hh_find H t k'"
  using ok_add[OF assms(1-3)] assms(1,4) by (simp add: find_map_of map_add_def split: option.splits)

lemma count_add:
  assumes "hh_find H t k = None" "items_ok (items t)"
  shows "hh_count H (hh_add H t k p) = Suc (hh_count H t)"
  using assms by (simp add: count_items items_add find_None_iff)

lemma ok_del:
  assumes "items_ok (items t)" "p \<in> set (hh_iter H t)"
  shows "items_ok (items (hh_del H t p))"
  using assms by (auto simp: iter_items items_del image_iff intro!: items_ok_filter)

lemma iter_del:
  assumes "p \<in> set (hh_iter H t)"
  shows "hh_iter H (hh_del H t p) = filter (\<lambda>q. q \<noteq> p) (hh_iter H t)"
  using assms by (simp add: iter_items items_del filter_map comp_def split_def)

lemma find_del:
  assumes "items_ok (items t)" "hh_find H t k = Some p"
  shows "hh_find H (hh_del H t p) k = None"
proof -
  have mem: "(k, p) \<in> set (items t)" using assms find_Some_iff by simp
  then have p: "p \<in> set (hh_iter H t)" by (force simp: iter_items)
  have "items (hh_del H t p) = filter (\<lambda>(_, q). q \<noteq> p) (items t)"
    using p by (auto simp: iter_items intro!: items_del)
  moreover have "q = p" if "(k, q) \<in> set (items t)" for q
    using that mem assms(1) unfolding items_ok_def by (meson eq_key_imp_eq_value)
  ultimately show ?thesis
    using ok_del[OF assms(1) p] by (auto simp: find_None_iff)
qed

lemma count_del:
  assumes "items_ok (items t)" "p \<in> set (hh_iter H t)"
  shows "Suc (hh_count H (hh_del H t p)) = hh_count H t"
proof -
  have d: "distinct (hh_iter H t)" using assms(1) by (simp add: items_ok_def iter_items)
  have "length (filter (\<lambda>q. q \<noteq> p) (hh_iter H t)) = length (remove1 p (hh_iter H t))"
    using d by (simp add: distinct_remove1_removeAll removeAll_filter_not_eq neq_commute)
  then have "Suc (length (hh_iter H (hh_del H t p))) = length (hh_iter H t)"
    using assms(2) length_pos_if_in_set[OF assms(2)] by (simp add: iter_del length_remove1)
  then show ?thesis by (simp add: count_items iter_items)
qed

end

text \<open>
  The list of items with the operations the locale describes satisfies its laws; theorems
  about tables are applied to it where a concrete table is needed.
\<close>

definition alist_ops :: "(string \<times> ptr) list hashops" where
  "alist_ops =
     \<lparr>hh_empty = [], hh_find = map_of, hh_add = (\<lambda>t k p. t @ [(k, p)]),
      hh_del = (\<lambda>t p. filter (\<lambda>(_, q). q \<noteq> p) t), hh_count = length, hh_iter = map snd\<rparr>"

lemma alist_ops_simps [simp]:
  "hh_empty alist_ops = []"
  "hh_find alist_ops = map_of"
  "hh_add alist_ops t k p = t @ [(k, p)]"
  "hh_del alist_ops t p = filter (\<lambda>(_, q). q \<noteq> p) t"
  "hh_count alist_ops = length"
  "hh_iter alist_ops t = map snd t"
  by (simp_all add: alist_ops_def)

interpretation alist: uthash alist_ops "\<lambda>t. t"
  by unfold_locales auto

end
