(* ===== verification/Event.thy ===== *)
theory Event
  imports HashTable
begin

text \<open>
  Event descriptors (\<open>event.h\<close>) and the masks of \<open>epoll\<close> and \<open>inotify\<close>. A C event
  descriptor is a function pointer and an object pointer; here the handlers of the program
  and the objects they are registered with are enumerated, so that an event loop can
  dispatch on them.
\<close>

datatype evnthdlrrc_t = EVNT_HDLR_SUCCESS | EVNT_HDLR_FAILED | EVNT_HDLR_EXIT_LOOP

text \<open>Where a \<open>tty_t\<close> lives: the two in \<open>GBLS\<close> and the two of every command object.\<close>

datatype ttyref = T_bcst | T_mon | T_cmdtty ptr | T_clttty ptr

datatype objref = O_tty ttyref | O_cmd ptr | O_mon | O_sigproc | O_fs

datatype evnthdlr_t =
    H_ttyNotifyEvent
  | H_cmdPidEvent | H_cmdCmdttyEvent | H_cmdCltttyEvent | H_cmdCltttyNotify
  | H_bcstttyEvent | H_bcstttyNotify
  | H_monEvent | H_monNotify
  | H_sigEvent | H_fsEvent

record evntdesc_t =
  hdlr :: "evnthdlr_t option"
  obj  :: "objref option"

definition evnt_null :: evntdesc_t where
  "evnt_null = \<lparr>hdlr = None, obj = None\<rparr>"

text \<open>The address an \<open>epoll_event\<close> carries in \<open>data.ptr\<close>: an event descriptor field.\<close>

datatype edloc = Ed_dfded ttyref | Ed_ifded ttyref | Ed_pidfded ptr | Ed_sigproc | Ed_fs

definition EPOLLIN    :: "32 word" where "EPOLLIN = 0x1"
definition EPOLLERR   :: "32 word" where "EPOLLERR = 0x8"
definition EPOLLHUP   :: "32 word" where "EPOLLHUP = 0x10"
definition EPOLLRDHUP :: "32 word" where "EPOLLRDHUP = 0x2000"

definition IN_CLOSE_WRITE   :: "32 word" where "IN_CLOSE_WRITE = 0x8"
definition IN_CLOSE_NOWRITE :: "32 word" where "IN_CLOSE_NOWRITE = 0x10"
definition IN_OPEN          :: "32 word" where "IN_OPEN = 0x20"

lemmas mask_defs =
  EPOLLIN_def EPOLLERR_def EPOLLHUP_def EPOLLRDHUP_def
  IN_CLOSE_WRITE_def IN_CLOSE_NOWRITE_def IN_OPEN_def

end
