(* ===== verification/Posix.thy ===== *)
theory Posix
  imports Event
begin

text \<open>
  The operating system calls the program makes, on an explicit kernel state \<open>kern\<close>. What a
  call may answer in several ways (a short write, a full buffer, the clock, a new file
  descriptor, the time a child takes to die) is read from answer functions of the state,
  indexed by the number of calls made so far: they are not restricted, so a theorem about
  every \<open>kern\<close> holds for every behaviour of the system. What the program leaves behind
  (bytes written, files, open descriptors, registrations, processes, signals) is recorded.
\<close>

type_synonym fd = int

record timespec =
  tv_sec  :: int
  tv_nsec :: int

datatype errno = E_OK | E_AGAIN | E_OTHER

text \<open>Answers of \<open>write\<close>: everything, only a prefix, would block, another error.\<close>

datatype wans = WAll | WShort nat | WAgain | WErr

text \<open>Answers of \<open>read\<close> on an empty queue.\<close>

datatype rans = RAgain | RErr | REof

datatype poll_ans = P_ready | P_timeout | P_intr | P_err

text \<open>A child process: the tty it opens, the delay before it starts, shell and command line.\<close>

record spawn =
  sp_pid     :: int
  sp_tty     :: string
  sp_raw     :: bool
  sp_delay   :: rat
  sp_shell   :: string
  sp_cmdline :: string

record kern =
  k_tick   :: nat
  k_exists :: "string \<Rightarrow> bool"
  k_open   :: "fd \<Rightarrow> bool"
  k_out    :: "fd \<Rightarrow> string"
  k_inq    :: "fd \<Rightarrow> string"
  k_inev   :: "fd \<Rightarrow> (int \<times> 32 word) list"
  k_sigq   :: "int list"
  k_epoll  :: "fd \<Rightarrow> edloc option"
  k_procs  :: "spawn list"
  k_kills  :: "(int \<times> int) list"
  k_sleeps :: "rat list"
  k_poll   :: "poll_ans list"
  k_env_shell :: "string option"
  k_wans   :: "nat \<Rightarrow> wans"
  k_rans   :: "nat \<Rightarrow> rans"
  k_clock  :: "nat \<Rightarrow> timespec option"
  k_pty    :: "nat \<Rightarrow> (fd \<times> string) option"
  k_newfd  :: "nat \<Rightarrow> fd option"
  k_lnk    :: "nat \<Rightarrow> bool"
  k_epfull :: "nat \<Rightarrow> bool"
  k_fork   :: "nat \<Rightarrow> int option"
  k_kill   :: "nat \<Rightarrow> bool"
  k_wait   :: "nat \<Rightarrow> int option"

definition tick :: "kern \<Rightarrow> kern" where
  "tick k = k\<lparr>k_tick := Suc (k_tick k)\<rparr>"

definition sys_access :: "string \<Rightarrow> kern \<Rightarrow> bool" where
  "sys_access path k = k_exists k path"

text \<open>\<open>write\<close>: the result and the kernel after it; a short write hands over a prefix.\<close>

definition sys_write :: "fd \<Rightarrow> string \<Rightarrow> kern \<Rightarrow> int \<times> errno \<times> kern" where
  "sys_write f bs k =
     (case k_wans k (k_tick k) of
        WAll \<Rightarrow> (int (length bs), E_OK, (tick k)\<lparr>k_out := (k_out k)(f := k_out k f @ bs)\<rparr>)
      | WShort m \<Rightarrow> (int (min m (length bs)), E_OK,
           (tick k)\<lparr>k_out := (k_out k)(f := k_out k f @ take m bs)\<rparr>)
      | WAgain \<Rightarrow> (-1, E_AGAIN, tick k)
      | WErr \<Rightarrow> (-1, E_OTHER, tick k))"

text \<open>\<open>read\<close> of one byte: \<open>None\<close> leaves the caller's buffer as it was.\<close>

definition sys_read1 :: "fd \<Rightarrow> kern \<Rightarrow> int \<times> errno \<times> char option \<times> kern" where
  "sys_read1 f k =
     (case k_inq k f of
        c # cs \<Rightarrow> (1, E_OK, Some c, (tick k)\<lparr>k_inq := (k_inq k)(f := cs)\<rparr>)
      | [] \<Rightarrow> (case k_rans k (k_tick k) of
                 RAgain \<Rightarrow> (-1, E_AGAIN, None, tick k)
               | RErr \<Rightarrow> (-1, E_OTHER, None, tick k)
               | REof \<Rightarrow> (0, E_OK, None, tick k)))"

text \<open>\<open>read\<close> of one \<open>inotify_event\<close>; \<open>None\<close> when there is none.\<close>

definition sys_read_inotify :: "fd \<Rightarrow> kern \<Rightarrow> (int \<times> 32 word) option \<times> kern" where
  "sys_read_inotify f k =
     (case k_inev k f of
        e # es \<Rightarrow> (Some e, (tick k)\<lparr>k_inev := (k_inev k)(f := es)\<rparr>)
      | [] \<Rightarrow> (None, tick k))"

definition sys_clock :: "kern \<Rightarrow> timespec option \<times> kern" where
  "sys_clock k = (k_clock k (k_tick k), tick k)"

definition sys_ioctl_inq :: "fd \<Rightarrow> kern \<Rightarrow> nat" where
  "sys_ioctl_inq f k = length (k_inq k f)"

definition sys_tcflush :: "fd \<Rightarrow> kern \<Rightarrow> kern" where
  "sys_tcflush f k = k\<lparr>k_inq := (k_inq k)(f := [])\<rparr>"

text \<open>\<open>ptyMasterOpen\<close> (libtlpi), \<open>open\<close>, \<open>inotify_init1\<close> and \<open>pidfd_open\<close> answer a descriptor.\<close>

definition sys_ptyMasterOpen :: "kern \<Rightarrow> (fd \<times> string) option \<times> kern" where
  "sys_ptyMasterOpen k =
     (case k_pty k (k_tick k) of
        None \<Rightarrow> (None, tick k)
      | Some (f, p) \<Rightarrow> (Some (f, p), (tick k)\<lparr>k_open := (k_open k)(f := True)\<rparr>))"

definition sys_newfd :: "kern \<Rightarrow> fd option \<times> kern" where
  "sys_newfd k =
     (case k_newfd k (k_tick k) of
        None \<Rightarrow> (None, tick k)
      | Some f \<Rightarrow> (Some f, (tick k)\<lparr>k_open := (k_open k)(f := True)\<rparr>))"

definition sys_inotify_add_watch :: "kern \<Rightarrow> int option \<times> kern" where
  "sys_inotify_add_watch k = (k_newfd k (k_tick k), tick k)"

definition sys_symlink :: "string \<Rightarrow> kern \<Rightarrow> bool \<times> kern" where
  "sys_symlink path k =
     (if k_exists k path \<or> \<not> k_lnk k (k_tick k) then (False, tick k)
      else (True, (tick k)\<lparr>k_exists := (k_exists k)(path := True)\<rparr>))"

definition sys_unlink :: "string \<Rightarrow> kern \<Rightarrow> kern" where
  "sys_unlink path k = k\<lparr>k_exists := (k_exists k)(path := False)\<rparr>"

text \<open>Closing a descriptor also takes it out of the \<open>epoll\<close> interest list.\<close>

definition sys_close :: "fd \<Rightarrow> kern \<Rightarrow> kern" where
  "sys_close f k = k\<lparr>k_open := (k_open k)(f := False), k_epoll := (k_epoll k)(f := None)\<rparr>"

definition sys_epoll_add :: "fd \<Rightarrow> edloc \<Rightarrow> kern \<Rightarrow> bool \<times> kern" where
  "sys_epoll_add f ed k =
     (if \<not> k_open k f \<or> k_epoll k f \<noteq> None \<or> k_epfull k (k_tick k) then (False, tick k)
      else (True, (tick k)\<lparr>k_epoll := (k_epoll k)(f \<mapsto> ed)\<rparr>))"

definition sys_epoll_del :: "fd \<Rightarrow> kern \<Rightarrow> bool \<times> kern" where
  "sys_epoll_del f k =
     (if k_epoll k f = None then (False, k)
      else (True, k\<lparr>k_epoll := (k_epoll k)(f := None)\<rparr>))"

text \<open>\<open>read\<close> of one \<open>signalfd_siginfo\<close>: the number of the next pending signal.\<close>

definition sys_read_signal :: "kern \<Rightarrow> int option \<times> kern" where
  "sys_read_signal k =
     (case k_sigq k of
        sg # sgs \<Rightarrow> (Some sg, (tick k)\<lparr>k_sigq := sgs\<rparr>)
      | [] \<Rightarrow> (None, tick k))"

definition sys_fork :: "kern \<Rightarrow> int option \<times> kern" where
  "sys_fork k = (k_fork k (k_tick k), tick k)"

definition sys_waitid :: "kern \<Rightarrow> int option \<times> kern" where
  "sys_waitid k = (k_wait k (k_tick k), tick k)"

definition sys_kill :: "int \<Rightarrow> int \<Rightarrow> kern \<Rightarrow> bool \<times> kern" where
  "sys_kill p sig k =
     (if k_kill k (k_tick k) then (True, (tick k)\<lparr>k_kills := k_kills k @ [(p, sig)]\<rparr>)
      else (False, tick k))"

text \<open>Descriptors that count as distinct channels, and a kernel that accepts every write.\<close>

definition writes_accepted :: "kern \<Rightarrow> bool" where
  "writes_accepted k \<longleftrightarrow> k_wans k = (\<lambda>_. WAll)"

named_theorems kern_simps \<open>how each call changes the kernel state\<close>

lemma tick_simps [simp]:
  "k_exists (tick k) = k_exists k" "k_open (tick k) = k_open k" "k_out (tick k) = k_out k"
  "k_inq (tick k) = k_inq k" "k_inev (tick k) = k_inev k" "k_sigq (tick k) = k_sigq k"
  "k_epoll (tick k) = k_epoll k" "k_procs (tick k) = k_procs k" "k_kills (tick k) = k_kills k"
  "k_sleeps (tick k) = k_sleeps k" "k_poll (tick k) = k_poll k"
  "k_env_shell (tick k) = k_env_shell k"
  "k_wans (tick k) = k_wans k" "k_rans (tick k) = k_rans k" "k_clock (tick k) = k_clock k"
  "k_pty (tick k) = k_pty k" "k_newfd (tick k) = k_newfd k" "k_lnk (tick k) = k_lnk k"
  "k_epfull (tick k) = k_epfull k" "k_fork (tick k) = k_fork k" "k_kill (tick k) = k_kill k"
  "k_wait (tick k) = k_wait k" "k_tick (tick k) = Suc (k_tick k)"
  by (simp_all add: tick_def)

lemma sys_write_accepted [kern_simps]:
  "writes_accepted k \<Longrightarrow> sys_write f bs k =
     (int (length bs), E_OK, (tick k)\<lparr>k_out := (k_out k)(f := k_out k f @ bs)\<rparr>)"
  by (simp add: sys_write_def writes_accepted_def)

lemma writes_accepted_simps [simp]:
  "writes_accepted (tick k) = writes_accepted k"
  "writes_accepted (k\<lparr>k_out := x\<rparr>) = writes_accepted k"
  "writes_accepted (k\<lparr>k_inq := y\<rparr>) = writes_accepted k"
  by (simp_all add: writes_accepted_def)

lemma sys_read1_Cons [kern_simps]:
  "k_inq k f = c # cs \<Longrightarrow> sys_read1 f k = (1, E_OK, Some c, (tick k)\<lparr>k_inq := (k_inq k)(f := cs)\<rparr>)"
  by (simp add: sys_read1_def)

end
