(* ===== verification/Sink.thy ===== *)
theory Sink
  imports Prelude
begin

text \<open>
  What the code that emits data relies on from a tty: bytes handed over in several writes
  arrive in order and in full, for as long as the other side takes them. The interface is a
  locale over the write operation, the log of what was taken, how much more will be taken,
  and what a write leaves alone. Its clients write a list of segments, each write checked
  against the length of its segment, as the relay code does.
\<close>

text \<open>\<open>written = write(seg); assert(written == len); n += written;\<close> for each segment.\<close>

fun put_seq :: "string \<Rightarrow> (string \<Rightarrow> 's \<Rightarrow> (int \<times> 's) res) \<Rightarrow> string list \<Rightarrow> 's \<Rightarrow> (int \<times> 's) res" where
  "put_seq site put [] s = Inr (0, s)"
| "put_seq site put (seg # segs) s =
     bind_res (put seg s) (\<lambda>(written, s).
     assert_res (written = int (length seg)) site (\<lambda>_.
     bind_res (put_seq site put segs s) (\<lambda>(n, s). Inr (written + n, s))))"

locale byte_sink =
  fixes put :: "string \<Rightarrow> 's \<Rightarrow> (int \<times> 's) res"
    and log :: "'s \<Rightarrow> 'l"
    and app :: "'l \<Rightarrow> string \<Rightarrow> 'l"
    and takes :: "'s \<Rightarrow> nat \<Rightarrow> bool"
    and frame :: "'s \<Rightarrow> 'f"
  assumes app_nil: "app l [] = l"
    and app_app: "app (app l xs) ys = app l (xs @ ys)"
    and takes_less: "takes s m \<Longrightarrow> n \<le> m \<Longrightarrow> takes s n"
    and put_takes: "takes s (length bs + n) \<Longrightarrow>
      \<exists>s'. put bs s = Inr (int (length bs), s') \<and> log s' = app (log s) bs \<and> takes s' n
           \<and> frame s' = frame s"
begin

text \<open>All segments arrive, in order, and the count returned is their total length.\<close>

lemma put_seq_takes:
  assumes "takes s (length (concat segs) + n)"
  shows "\<exists>s'. put_seq site put segs s = Inr (int (length (concat segs)), s')
    \<and> log s' = app (log s) (concat segs) \<and> takes s' n \<and> frame s' = frame s"
  using assms
proof (induction segs arbitrary: s)
  case Nil
  then show ?case by (auto simp: app_nil dest: takes_less)
next
  case (Cons seg segs)
  have "takes s (length seg + (length (concat segs) + n))"
    using Cons.prems by (simp add: add.assoc)
  from put_takes[OF this] obtain t where t:
    "put seg s = Inr (int (length seg), t)" "log t = app (log s) seg"
    "takes t (length (concat segs) + n)" "frame t = frame s" by auto
  from Cons.IH[OF t(3)] obtain s' where s':
    "put_seq site put segs t = Inr (int (length (concat segs)), s')"
    "log s' = app (log t) (concat segs)" "takes s' n" "frame s' = frame t" by auto
  show ?case
    by (rule exI[of _ s']) (simp add: t s' app_app assert_res_def)
qed

text \<open>How the data is cut into segments does not matter to the receiver.\<close>

lemma put_seq_segmentation:
  assumes "takes s (length (concat segs))" "concat segs = concat segs'"
  shows "\<exists>s1 s2. put_seq site put segs s = Inr (int (length (concat segs)), s1)
    \<and> put_seq site put segs' s = Inr (int (length (concat segs)), s2) \<and> log s1 = log s2"
  using put_seq_takes[of s segs 0 site] put_seq_takes[of s segs' 0 site] assms by auto

end

end
