(* ===== verification/Tty.thy ===== *)
theory Tty
  imports Posix Sink
begin

text \<open>
  The tty object of \<open>tty.h\<close> and \<open>tty.c\<close>: a pty pair whose dom side the program reads and
  writes, with the count of clients that have the sub side open. Byte counters are
  \<open>uint64_t\<close> and kept at that width, because \<open>ttyWriteBuf\<close> narrows one of them to \<open>int\<close>.
  The diagnostics printed at higher verbosity are not modelled.
\<close>

section \<open>State\<close>

record link_t =
  l_src :: "string option"
  l_dst :: "string option"

record tty_t =
  tty_path       :: string
  tty_discards   :: string
  tty_link       :: "string option"
  tty_extralink1 :: link_t
  tty_extralink2 :: link_t
  tty_rbytes     :: "64 word"
  tty_wbytes     :: "64 word"
  tty_wdbytes    :: "64 word"
  tty_delaycnt   :: "64 word"
  tty_dfd        :: int
  tty_sfd        :: int
  tty_ifd        :: int
  tty_iwd        :: int
  tty_opens      :: int
  tty_dfded      :: evntdesc_t
  tty_ifded      :: evntdesc_t
  tty_ned        :: evntdesc_t

definition DISCARDS_SIZE :: nat where "DISCARDS_SIZE = 1024"

definition nul :: char where "nul = char_of (0 :: nat)"

text \<open>A \<open>tty_t\<close> after \<open>bzero\<close>.\<close>

definition tty_zero :: tty_t where
  "tty_zero =
     \<lparr>tty_path = [], tty_discards = replicate DISCARDS_SIZE nul, tty_link = None,
      tty_extralink1 = \<lparr>l_src = None, l_dst = None\<rparr>,
      tty_extralink2 = \<lparr>l_src = None, l_dst = None\<rparr>,
      tty_rbytes = 0, tty_wbytes = 0, tty_wdbytes = 0, tty_delaycnt = 0,
      tty_dfd = 0, tty_sfd = 0, tty_ifd = 0, tty_iwd = 0, tty_opens = 0,
      tty_dfded = evnt_null, tty_ifded = evnt_null, tty_ned = evnt_null\<rparr>"

definition ttyIsClttty :: "tty_t \<Rightarrow> bool" where
  "ttyIsClttty t \<longleftrightarrow> tty_link t \<noteq> None"

definition ttyIsCmdtty :: "tty_t \<Rightarrow> bool" where
  "ttyIsCmdtty t \<longleftrightarrow> \<not> ttyIsClttty t"

definition ttyDomInQCnt :: "tty_t \<Rightarrow> kern \<Rightarrow> nat" where
  "ttyDomInQCnt t k = (if tty_dfd t = -1 then 0 else sys_ioctl_inq (tty_dfd t) k)"

definition ttySubInQCnt :: "tty_t \<Rightarrow> kern \<Rightarrow> nat" where
  "ttySubInQCnt t k = (if tty_sfd t = -1 then 0 else sys_ioctl_inq (tty_sfd t) k)"

definition ttySubFlush :: "tty_t \<Rightarrow> kern \<Rightarrow> kern" where
  "ttySubFlush t k = (if tty_sfd t = -1 then k else sys_tcflush (tty_sfd t) k)"

definition ttyDomFlush :: "tty_t \<Rightarrow> kern \<Rightarrow> kern" where
  "ttyDomFlush t k = (if tty_dfd t = -1 then k else sys_tcflush (tty_dfd t) k)"

definition ttyIdle :: "tty_t \<Rightarrow> kern \<Rightarrow> bool res" where
  "ttyIdle t k = assert_res (ttyIsClttty t) ''ttyIdle''
     (\<lambda>_. Inr (tty_opens t = 0 \<and> ttyDomInQCnt t k = 0))"

section \<open>Creation and removal\<close>

definition ttyInit ::
  "tty_t \<Rightarrow> string option \<Rightarrow> string option \<Rightarrow> string option \<Rightarrow> string option \<Rightarrow> string option \<Rightarrow> bool
   \<Rightarrow> (bool \<times> tty_t) res" where
  "ttyInit t ttylink extra1src extra1dest extra2src extra2dest iszeroed =
     (let t = (if \<not> iszeroed then tty_zero else t)
      in assert_res (tty_link t = None) ''ttyInit''
        (\<lambda>_. Inr (True,
           t\<lparr>tty_link := ttylink,
             tty_extralink1 := \<lparr>l_src = extra1src, l_dst = extra1dest\<rparr>,
             tty_extralink2 := \<lparr>l_src = extra2src, l_dst = extra2dest\<rparr>,
             tty_dfd := -1, tty_sfd := -1, tty_ifd := -1, tty_iwd := -1\<rparr>)))"

definition close_if_open :: "int \<Rightarrow> kern \<Rightarrow> kern" where
  "close_if_open f k = (if f \<noteq> -1 then sys_close f k else k)"

definition unlink_if_named :: "string option \<Rightarrow> kern \<Rightarrow> kern" where
  "unlink_if_named p k = (case p of None \<Rightarrow> k | Some s \<Rightarrow> if s \<noteq> [] then sys_unlink s k else k)"

text \<open>Errors of \<open>close\<close> and \<open>unlink\<close> are only reported, so \<open>ttyCleanup\<close> cannot fail.\<close>

definition ttyCleanup :: "tty_t \<Rightarrow> kern \<Rightarrow> bool \<times> tty_t \<times> kern" where
  "ttyCleanup t k =
     (let k = close_if_open (tty_ifd t) k;
          k = close_if_open (tty_dfd t) k;
          k = close_if_open (tty_sfd t) k;
          k = unlink_if_named (tty_link t) k;
          k = unlink_if_named (l_src (tty_extralink1 t)) k;
          k = unlink_if_named (l_src (tty_extralink2 t)) k
      in (True, tty_zero\<lparr>tty_dfd := -1, tty_sfd := -1, tty_iwd := -1, tty_ifd := -1\<rparr>, k))"

definition fdSetnonblocking :: "fd \<Rightarrow> kern \<Rightarrow> unit res" where
  "fdSetnonblocking f k = assert_res (k_open k f) ''fdSetnonblocking'' (\<lambda>_. Inr ())"

definition path_taken :: "string option \<Rightarrow> kern \<Rightarrow> bool" where
  "path_taken p k = (case p of None \<Rightarrow> False | Some s \<Rightarrow> sys_access s k)"

text \<open>\<open>goto cleanup\<close>: everything undone so far is what \<open>ttyCleanup\<close> finds in the object.\<close>

definition ttyCreate_fail :: "tty_t \<Rightarrow> kern \<Rightarrow> (bool \<times> tty_t \<times> kern) res" where
  "ttyCreate_fail t k = (case ttyCleanup t k of (_, t', k') \<Rightarrow> Inr (False, t', k'))"

text \<open>The links of a tty: its own, then the two extra ones, each with its own error exit.\<close>

definition make_link ::
  "string option \<Rightarrow> string option \<Rightarrow> bool \<Rightarrow> kern \<Rightarrow> (bool \<times> kern) res" where
  "make_link src dst ok k =
     (case src of
        None \<Rightarrow> Inr (True, k)
      | Some s \<Rightarrow> assert_res ok ''ttyCreate''
          (\<lambda>_. case dst of None \<Rightarrow> Inr (False, k) | Some _ \<Rightarrow> Inr (sys_symlink s k)))"

definition ttyCreate_links :: "tty_t \<Rightarrow> kern \<Rightarrow> (bool \<times> kern) res" where
  "ttyCreate_links t k =
     bind_res (make_link (tty_link t) (Some (tty_path t)) True k) (\<lambda>(ok, k).
       if \<not> ok then Inr (False, k)
       else bind_res (make_link (l_src (tty_extralink1 t)) (l_dst (tty_extralink1 t))
                        (l_dst (tty_extralink2 t) \<noteq> None) k) (\<lambda>(ok, k).
         if \<not> ok then Inr (False, k)
         else make_link (l_src (tty_extralink2 t)) (l_dst (tty_extralink2 t))
                (l_dst (tty_extralink2 t) \<noteq> None) k))"

definition ttyCreate ::
  "ttyref \<Rightarrow> tty_t \<Rightarrow> evntdesc_t \<Rightarrow> evntdesc_t \<Rightarrow> bool \<Rightarrow> kern \<Rightarrow> (bool \<times> tty_t \<times> kern) res" where
  "ttyCreate this t ed ned raw k =
     assert_res (tty_dfd t = -1) ''ttyCreate'' (\<lambda>_.
     if path_taken (tty_link t) k \<or> path_taken (l_src (tty_extralink1 t)) k
        \<or> path_taken (l_src (tty_extralink2 t)) k
     then ttyCreate_fail t k
     else case sys_ptyMasterOpen k of
       (None, k) \<Rightarrow> ttyCreate_fail t k
     | (Some (f, path), k) \<Rightarrow>
         (let t = t\<lparr>tty_dfd := f, tty_path := path\<rparr>
          in bind_res (fdSetnonblocking f k) (\<lambda>_.
             case sys_newfd k of
               (None, k) \<Rightarrow> ttyCreate_fail t k
             | (Some sfd, k) \<Rightarrow>
                 bind_res (fdSetnonblocking sfd k) (\<lambda>_.
                 bind_res (ttyCreate_links t k) (\<lambda>(ok, k).
                   if \<not> ok then ttyCreate_fail t k
                   else case sys_newfd k of
                     (None, k) \<Rightarrow> ttyCreate_fail t k
                   | (Some ifd, k) \<Rightarrow>
                       (let t = t\<lparr>tty_ifd := ifd\<rparr>
                        in case sys_inotify_add_watch k of
                             (None, k) \<Rightarrow> ttyCreate_fail t k
                           | (Some iwd, k) \<Rightarrow>
                               Inr (True,
                                 t\<lparr>tty_iwd := iwd, tty_sfd := sfd, tty_rbytes := 0, tty_wbytes := 0,
                                   tty_opens := 0, tty_dfded := ed,
                                   tty_ifded := \<lparr>hdlr = Some H_ttyNotifyEvent, obj = Some (O_tty this)\<rparr>,
                                   tty_ned := ned\<rparr>, k)))))))"

definition ttyRegisterEvents :: "ttyref \<Rightarrow> tty_t \<Rightarrow> kern \<Rightarrow> (bool \<times> kern) res" where
  "ttyRegisterEvents this t k =
     assert_res (tty_dfd t \<noteq> -1) ''ttyRegisterEvents'' (\<lambda>_.
     case sys_epoll_add (tty_dfd t) (Ed_dfded this) k of
       (False, k) \<Rightarrow> Inr (False, k)
     | (True, k) \<Rightarrow>
         assert_res (tty_ifd t \<noteq> -1 \<and> tty_iwd t \<noteq> -1) ''ttyRegisterEvents'' (\<lambda>_.
         Inr (sys_epoll_add (tty_ifd t) (Ed_ifded this) k)))"

section \<open>Opens and closes of the sub side\<close>

text \<open>
  The first half of \<open>ttyNotifyEvent\<close>: one inotify event is read and the count of opens
  updated; the mask goes on to the external notify handler.
\<close>

definition ttyNotifyCount :: "tty_t \<Rightarrow> kern \<Rightarrow> (32 word \<times> tty_t \<times> kern) res" where
  "ttyNotifyCount t k =
     (case sys_read_inotify (tty_ifd t) k of
        (None, k) \<Rightarrow> Inl (NYI ''ttyNotifyEvent'')
      | (Some (wd, ievents), k) \<Rightarrow>
          assert_res (wd = tty_iwd t) ''ttyNotifyEvent'' (\<lambda>_.
          if ievents = IN_OPEN then Inr (ievents, t\<lparr>tty_opens := tty_opens t + 1\<rparr>, k)
          else if ievents = IN_CLOSE_WRITE \<or> ievents = IN_CLOSE_NOWRITE then
            (let t = (if tty_opens t > 0 then t\<lparr>tty_opens := tty_opens t - 1\<rparr> else t)
             in assert_res (tty_opens t \<ge> 0) ''ttyNotifyEvent'' (\<lambda>_. Inr (ievents, t, k)))
          else Inl (NYI ''ttyNotifyEvent'')))"

section \<open>Writing and reading\<close>

text \<open>
  Nobody has the sub side open: the bytes are counted, and the first ones kept.
  \<open>used\<close> and \<open>free\<close> are \<open>int\<close>s computed from a \<open>uint64_t\<close> and a \<open>size_t\<close>.
\<close>

definition ttyDiscard :: "tty_t \<Rightarrow> string \<Rightarrow> tty_t res" where
  "ttyDiscard t buf =
     (let len = int (length buf);
          used = to_int32 (tty_wdbytes t);
          free0 = to_int32 (of_nat DISCARDS_SIZE - of_int used);
          free = (if free0 < 0 then 0 else free0);
          nb = (if len \<le> free then len else free)
      in if nb > 0 \<and> (used < 0 \<or> used + nb > int DISCARDS_SIZE) then Inl OutOfBounds
         else Inr (t\<lparr>tty_discards :=
                      (if nb > 0 then take (nat used) (tty_discards t) @ take (nat nb) buf
                                       @ drop (nat (used + nb)) (tty_discards t)
                       else tty_discards t),
                     tty_wdbytes := tty_wdbytes t + of_nat (length buf)\<rparr>))"

definition ttyWriteBuf ::
  "tty_t \<Rightarrow> string \<Rightarrow> timespec option \<Rightarrow> kern \<Rightarrow> (int \<times> tty_t \<times> timespec option \<times> kern) res" where
  "ttyWriteBuf t buf ts k =
     (if tty_opens t \<noteq> 0 then
        (case sys_write (tty_dfd t) buf k of (n, errno, k) \<Rightarrow>
           if n = -1 then
             (if errno = E_AGAIN then Inr (-1, t, ts, k) else Inl (NYI ''ttyWriteBuf''))
           else if n = int (length buf) then
             (let t' = t\<lparr>tty_wbytes := tty_wbytes t + of_int n\<rparr>
              in case ts of
                   None \<Rightarrow> Inr (n, t', None, k)
                 | Some _ \<Rightarrow>
                     (case sys_clock k of
                        (None, k) \<Rightarrow> Inl (NYI ''ttyWriteBuf'')
                      | (Some now, k) \<Rightarrow> Inr (n, t', Some now, k)))
           else Inl (NYI ''ttyWriteBuf''))
      else bind_res (ttyDiscard t buf) (\<lambda>t. Inr (int (length buf), t, ts, k)))"

definition ttyWriteChar ::
  "tty_t \<Rightarrow> char \<Rightarrow> timespec option \<Rightarrow> kern \<Rightarrow> (int \<times> tty_t \<times> timespec option \<times> kern) res" where
  "ttyWriteChar t c ts k = ttyWriteBuf t [c] ts k"

definition NSEC_IN_SECOND :: nat where "NSEC_IN_SECOND = 1000000000"

definition timespec_diff :: "timespec \<Rightarrow> timespec \<Rightarrow> rat" where
  "timespec_diff now ts =
     of_int (tv_sec now - tv_sec ts) + of_int (tv_nsec now - tv_nsec ts) / of_nat NSEC_IN_SECOND"

text \<open>
  One byte from the dom side, unless the last write is less than \<open>delay\<close> seconds old. The
  character is \<open>None\<close> where the caller's variable is not assigned.
\<close>

definition ttyReadChar ::
  "tty_t \<Rightarrow> timespec option \<Rightarrow> rat \<Rightarrow> kern \<Rightarrow> (int \<times> errno \<times> char option \<times> tty_t \<times> kern) res" where
  "ttyReadChar t ts delay k =
     (case sys_clock k of
        (None, k) \<Rightarrow> Inl (NYI ''ttyReadChar'')
      | (Some now, k) \<Rightarrow>
          if (case ts of None \<Rightarrow> False | Some lw \<Rightarrow> delay > 0 \<and> timespec_diff now lw < delay)
          then Inr (0, E_OK, None, t\<lparr>tty_delaycnt := tty_delaycnt t + 1\<rparr>, k)
          else (case sys_read1 (tty_dfd t) k of (n, errno, c, k) \<Rightarrow>
            Inr (n, errno, c, (if n = 1 then t\<lparr>tty_rbytes := tty_rbytes t + 1\<rparr> else t), k)))"


section \<open>Facts about the operations\<close>

subsection \<open>Removal\<close>

lemma close_if_open_simps [simp]:
  "k_open (close_if_open f k) g = (k_open k g \<and> (f = -1 \<or> g \<noteq> f))"
  "k_epoll (close_if_open f k) g = (if f \<noteq> -1 \<and> g = f then None else k_epoll k g)"
  "k_exists (close_if_open f k) = k_exists k"
  by (auto simp: close_if_open_def sys_close_def)

lemma unlink_if_named_simps [simp]:
  "k_open (unlink_if_named p k) = k_open k"
  "k_epoll (unlink_if_named p k) = k_epoll k"
  "k_exists (unlink_if_named p k) q = (k_exists k q \<and> (q = [] \<or> p \<noteq> Some q))"
  by (auto simp: unlink_if_named_def sys_unlink_def split: option.splits)

definition tty_fds :: "tty_t \<Rightarrow> fd set" where
  "tty_fds t = {tty_ifd t, tty_dfd t, tty_sfd t} - {-1}"

definition tty_links :: "tty_t \<Rightarrow> string set" where
  "tty_links t = {s. s \<noteq> [] \<and> (tty_link t = Some s \<or> l_src (tty_extralink1 t) = Some s
     \<or> l_src (tty_extralink2 t) = Some s)}"

definition tty_clean :: tty_t where
  "tty_clean = tty_zero\<lparr>tty_dfd := -1, tty_sfd := -1, tty_iwd := -1, tty_ifd := -1\<rparr>"

lemma ttyCleanup_kern:
  assumes "ttyCleanup t k = (b, t', k')"
  shows "b" "t' = tty_clean"
    "k_open k' f = (k_open k f \<and> f \<notin> tty_fds t)"
    "k_epoll k' f = (if f \<in> tty_fds t then None else k_epoll k f)"
    "k_exists k' p = (k_exists k p \<and> p \<notin> tty_links t)"
  using assms
  by (auto simp: ttyCleanup_def Let_def tty_clean_def tty_fds_def tty_links_def)

lemma ttyCleanup_clean: "ttyCleanup tty_clean k = (True, tty_clean, k)"
  by (simp add: ttyCleanup_def Let_def tty_clean_def tty_zero_def close_if_open_def unlink_if_named_def)


subsection \<open>Creation\<close>

text \<open>A kernel to evaluate on: every call succeeds, descriptors count up from 3.\<close>

definition kern0 :: kern where
  "kern0 =
     \<lparr>k_tick = 0, k_exists = (\<lambda>_. False), k_open = (\<lambda>f. f \<in> {0, 1, 2}), k_out = (\<lambda>_. []),
      k_inq = (\<lambda>_. []), k_inev = (\<lambda>_. []), k_sigq = [], k_epoll = (\<lambda>_. None), k_procs = [],
      k_kills = [], k_sleeps = [], k_poll = [], k_env_shell = None,
      k_wans = (\<lambda>_. WAll), k_rans = (\<lambda>_. RAgain),
      k_clock = (\<lambda>n. Some \<lparr>tv_sec = int n, tv_nsec = 0\<rparr>),
      k_pty = (\<lambda>n. Some (3 + int n, ''/dev/pts/0'')), k_newfd = (\<lambda>n. Some (3 + int n)),
      k_lnk = (\<lambda>_. True), k_epfull = (\<lambda>_. False), k_fork = (\<lambda>n. Some (100 + int n)),
      k_kill = (\<lambda>_. True), k_wait = (\<lambda>_. Some 0)\<rparr>"

lemmas tty_eval =
  kern0_def tick_def tty_zero_def tty_clean_def DISCARDS_SIZE_def evnt_null_def
  sys_access_def sys_write_def sys_read1_def sys_read_inotify_def sys_clock_def
  sys_ioctl_inq_def sys_tcflush_def sys_ptyMasterOpen_def sys_newfd_def
  sys_inotify_add_watch_def sys_symlink_def sys_unlink_def sys_close_def
  sys_epoll_add_def sys_epoll_del_def




text \<open>The links made on the way: afterwards each of them exists.\<close>

lemma make_link_ok:
  "make_link src dst a k = Inr (True, k') \<Longrightarrow>
     k_open k' = k_open k \<and> k_epoll k' = k_epoll k \<and> k_exists k' = (\<lambda>p. k_exists k p \<or> src = Some p)"
  by (auto simp: make_link_def sys_symlink_def assert_res_def split: option.splits if_splits)

lemma ttyCreate_links_ok:
  assumes "ttyCreate_links t k = Inr (True, k')"
  shows "k_open k' = k_open k \<and> k_epoll k' = k_epoll k \<and>
    k_exists k' = (\<lambda>p. k_exists k p \<or> tty_link t = Some p \<or> l_src (tty_extralink1 t) = Some p
       \<or> l_src (tty_extralink2 t) = Some p)"
proof -
  from assms obtain k1 k2 where
    "make_link (tty_link t) (Some (tty_path t)) True k = Inr (True, k1)"
    "make_link (l_src (tty_extralink1 t)) (l_dst (tty_extralink1 t))
       (l_dst (tty_extralink2 t) \<noteq> None) k1 = Inr (True, k2)"
    "make_link (l_src (tty_extralink2 t)) (l_dst (tty_extralink2 t))
       (l_dst (tty_extralink2 t) \<noteq> None) k2 = Inr (True, k')"
    by (auto simp: ttyCreate_links_def bind_res_eq_Inr split: if_splits)
  from this[THEN make_link_ok] show ?thesis by auto
qed

lemma ttyCreate_fail_False: "ttyCreate_fail t k \<noteq> Inr (True, t', k')"
  by (simp add: ttyCreate_fail_def ttyCleanup_def Let_def)

lemma ttyCreate_cases:
  assumes "ttyCreate this t ed ned raw k = Inr (True, t', k')"
  obtains f path k1 sfd k2 k3 ifd k4 iwd where
    "\<not> path_taken (tty_link t) k" "\<not> path_taken (l_src (tty_extralink1 t)) k"
    "\<not> path_taken (l_src (tty_extralink2 t)) k"
    "sys_ptyMasterOpen k = (Some (f, path), k1)" "sys_newfd k1 = (Some sfd, k2)"
    "ttyCreate_links (t\<lparr>tty_dfd := f, tty_path := path\<rparr>) k2 = Inr (True, k3)"
    "sys_newfd k3 = (Some ifd, k4)" "sys_inotify_add_watch k4 = (Some iwd, k')"
    "t' = t\<lparr>tty_dfd := f, tty_path := path, tty_ifd := ifd,
            tty_iwd := iwd, tty_sfd := sfd, tty_rbytes := 0, tty_wbytes := 0, tty_opens := 0,
            tty_dfded := ed, tty_ifded := \<lparr>hdlr = Some H_ttyNotifyEvent, obj = Some (O_tty this)\<rparr>,
            tty_ned := ned\<rparr>"
  using assms
  unfolding ttyCreate_def Let_def
  by (auto simp: res_dest ttyCreate_fail_False fdSetnonblocking_def
      split: if_splits option.splits prod.splits)

text \<open>C24: a successful \<open>ttyCreate\<close> leaves the dom side, the sub side and the inotify
  descriptor open, all three links in place, no opens counted and both event descriptors
  set, the notify one to \<open>ttyNotifyEvent\<close> on this tty.\<close>

theorem ttyCreate_success:
  assumes "ttyCreate this t ed ned raw k = Inr (True, t', k')"
  shows "k_open k' (tty_dfd t') \<and> k_open k' (tty_sfd t') \<and> k_open k' (tty_ifd t')
    \<and> (\<forall>p \<in> tty_links t. k_exists k' p \<and> \<not> k_exists k p)
    \<and> tty_links t' = tty_links t \<and> tty_opens t' = 0
    \<and> tty_dfded t' = ed \<and> tty_ned t' = ned
    \<and> tty_ifded t' = \<lparr>hdlr = Some H_ttyNotifyEvent, obj = Some (O_tty this)\<rparr>"
proof (rule ttyCreate_cases[OF assms], goal_cases)
  case (1 f path k1 sfd k2 k3 ifd k4 iwd)
  have k4: "k_open k4 = (k_open k3)(ifd := True)" "k_exists k4 = k_exists k3"
    and k2: "k_open k2 = (k_open k)(f := True, sfd := True)" "k_exists k2 = k_exists k"
    using "1"(4,5,7)
    by (auto simp: sys_newfd_def sys_ptyMasterOpen_def split: option.splits)
  have k': "k_open k' = k_open k4" "k_exists k' = k_exists k4"
    using "1"(8) by (auto simp: sys_inotify_add_watch_def)
  note links = ttyCreate_links_ok[OF "1"(6)]
  show ?case
    unfolding "1"(9) k' k4 tty_links_def
    using links "1"(1-3) k2 by (auto simp: path_taken_def sys_access_def)
qed

theorem ttyCreate_success_witness:
  "\<exists>t' k'. ttyCreate (T_clttty 1) (tty_clean\<lparr>tty_link := Some ''c''\<rparr>) evnt_null evnt_null True kern0
      = Inr (True, t', k') \<and> k_open k' (tty_dfd t') \<and> k_exists k' ''c''"
proof -
  let ?t = "tty_clean\<lparr>tty_link := Some ''c''\<rparr>"
  obtain t' k' where c: "ttyCreate (T_clttty 1) ?t evnt_null evnt_null True kern0 = Inr (True, t', k')"
    by (simp add: ttyCreate_def tty_eval path_taken_def ttyCreate_links_def make_link_def
        fdSetnonblocking_def Let_def)
  have "''c'' \<in> tty_links ?t" by (simp add: tty_links_def)
  with ttyCreate_success[OF c] c show ?thesis by blast
qed

subsection \<open>Discarding\<close>

lemma unat_word_of_nat64: "n < 2 ^ 64 \<Longrightarrow> unat (of_nat n :: 64 word) = n"
  by (simp add: unsigned_of_nat take_bit_nat_eq_self)

lemma unat_wdbytes_add:
  assumes "unat (w :: 64 word) + n < 2 ^ 31"
  shows "unat (w + of_nat n) = unat w + n"
proof -
  have n: "unat (of_nat n :: 64 word) = n"
  proof (rule unat_word_of_nat64)
    have "n < 2 ^ 31" using assms by (rule le_less_trans[OF le_add2])
    then show "n < 2 ^ 64" by simp
  qed
  then have "unat w + unat (of_nat n :: 64 word) < 2 ^ LENGTH(64)"
    using assms by (simp only: n) simp
  then show ?thesis using n by (simp only: unat_add_lem[THEN iffD1])
qed

lemma to_int32_unat:
  assumes "unat (w :: 64 word) < 2 ^ 31"
  shows "to_int32 w = int (unat w)"
proof -
  have "uint w < 2 ^ 31" unfolding uint_nat using assms by (metis of_nat_less_iff of_nat_numeral of_nat_power)
  then show ?thesis by (simp add: to_int32_small)
qed

lemma to_int32_of_int:
  assumes "- (2 ^ 31) \<le> i" "i < 2 ^ 31"
  shows "to_int32 (of_int i) = i"
proof -
  have "(ucast (of_int i :: 64 word) :: 32 word) = of_int i"
    by (simp add: unsigned_of_int word_of_int_eq_iff)
  moreover have "sint (of_int i :: 32 word) = i"
    using assms by (simp add: signed_of_int signed_take_bit_int_eq_self_iff)
  ultimately show ?thesis by (simp add: to_int32_def)
qed

lemma discard_free:
  assumes "u < 2 ^ 31"
  shows "to_int32 (of_nat DISCARDS_SIZE - of_int (int u)) = int DISCARDS_SIZE - int u"
  using to_int32_of_int[of "int DISCARDS_SIZE - int u"] assms by (simp add: DISCARDS_SIZE_def)

lemma ttyDiscard_ok:
  assumes "unat (tty_wdbytes t) = u" "u + length buf < 2 ^ 31"
  shows "ttyDiscard t buf = Inr (t\<lparr>
     tty_discards := (let nb = min (length buf) (DISCARDS_SIZE - u)
        in if nb = 0 then tty_discards t
           else take u (tty_discards t) @ take nb buf @ drop (u + nb) (tty_discards t)),
     tty_wdbytes := tty_wdbytes t + of_nat (length buf)\<rparr>)"
proof -
  have used: "to_int32 (tty_wdbytes t) = int u" using assms by (simp add: to_int32_unat)
  have free: "to_int32 (of_nat DISCARDS_SIZE - of_int (int u)) = int DISCARDS_SIZE - int u"
    using assms(2) by (intro discard_free) simp
  let ?D = "DISCARDS_SIZE"
  have nb: "(if int (length buf) \<le> (if int ?D - int u < 0 then 0 else int ?D - int u) then int (length buf)
      else (if int ?D - int u < 0 then 0 else int ?D - int u)) = int (min (length buf) (?D - u))"
    by auto
  have ok: "\<not> (int u + int (min (length buf) (?D - u)) > int ?D \<and> int (min (length buf) (?D - u)) > 0)"
    by auto
  show ?thesis
    unfolding ttyDiscard_def Let_def used free nb using ok by (auto simp: nat_add_distrib)
qed

text \<open>The first bytes discarded since the counter was zero, and how many there were.\<close>

definition discards_hold :: "tty_t \<Rightarrow> string \<Rightarrow> bool" where
  "discards_hold t xs \<longleftrightarrow> unat (tty_wdbytes t) = length xs \<and> length (tty_discards t) = DISCARDS_SIZE
     \<and> take (length xs) (tty_discards t) = take DISCARDS_SIZE xs"

lemma discards_hold_zero: "discards_hold tty_zero []"
  by (simp add: discards_hold_def tty_zero_def)

lemma ttyDiscard_step:
  assumes "discards_hold t xs" "length xs + length buf < 2 ^ 31"
  shows "\<exists>t'. ttyDiscard t buf = Inr t' \<and> discards_hold t' (xs @ buf)
    \<and> tty_opens t' = tty_opens t \<and> tty_wbytes t' = tty_wbytes t"
proof -
  let ?D = DISCARDS_SIZE let ?u = "length xs" let ?d = "tty_discards t"
  let ?nb = "min (length buf) (?D - ?u)"
  note h = assms(1)[unfolded discards_hold_def]
  have w: "unat (tty_wdbytes t + of_nat (length buf)) = ?u + length buf"
    using unat_wdbytes_add[of "tty_wdbytes t" "length buf"] h assms(2) by simp
  have d: "take ?u ?d @ take ?nb buf @ drop (?u + ?nb) ?d = take ?D (xs @ buf) @ drop (?u + ?nb) ?d"
    if "?u < ?D"
  proof -
    have "take ?u ?d = xs" using h that by simp
    moreover have "take ?nb buf = take (?D - ?u) buf" by (simp add: min_def)
    ultimately show ?thesis using that by simp
  qed
  show ?thesis
  proof (cases "?nb = 0")
    case True
    then have "take (?u + length buf) ?d = take ?D (xs @ buf)"
    proof (cases "buf = []")
      case True
      then show ?thesis using h by simp
    next
      case False
      then have "?D \<le> ?u" using \<open>?nb = 0\<close> by (simp add: min_def split: if_splits)
      with h have "take ?u ?d = ?d" by (intro take_all) linarith
      with h have d: "?d = take ?D xs" by metis
      have "take (?u + length buf) ?d = ?d" using h \<open>?D \<le> ?u\<close> by (intro take_all) linarith
      then show ?thesis using d \<open>?D \<le> ?u\<close> by simp
    qed
    with True show ?thesis
      using ttyDiscard_ok[of t ?u buf] h w assms(2) by (simp add: discards_hold_def)
  next
    case False
    then have lt: "?u < ?D" by simp
    have "length (take ?D (xs @ buf)) = ?u + ?nb" using lt by simp
    then have "take (?u + length buf) (take ?D (xs @ buf) @ drop (?u + ?nb) ?d) = take ?D (xs @ buf)"
      using h lt by (cases "length buf \<le> ?D - ?u") (simp_all add: min_def)
    moreover have "length (take ?D (xs @ buf) @ drop (?u + ?nb) ?d) = ?D"
      using h lt by (auto simp: min_def)
    ultimately show ?thesis
      using ttyDiscard_ok[of t ?u buf] h w assms(2) False
      by (auto simp: discards_hold_def Let_def d[OF lt] min_def split: if_splits)
  qed
qed

lemma ttyDiscard_seq:
  "discards_hold t xs \<Longrightarrow> length xs + length (concat bufs) < 2 ^ 31 \<Longrightarrow>
   \<exists>t'. fold_res (\<lambda>buf t. ttyDiscard t buf) bufs t = Inr t' \<and> discards_hold t' (xs @ concat bufs)"
proof (induction bufs arbitrary: t xs)
  case Nil
  then show ?case by simp
next
  case (Cons buf bufs)
  from ttyDiscard_step[OF Cons.prems(1), of buf] Cons.prems(2) obtain t1 where
    t1: "ttyDiscard t buf = Inr t1" "discards_hold t1 (xs @ buf)" by auto
  from Cons.IH[OF t1(2)] Cons.prems(2) show ?case by (simp add: t1(1))
qed

text \<open>C40: while nobody has the tty open, writes are counted and exactly the first 1024 bytes
  are kept, however the data is cut into writes, for up to 2 GiB of discarded data.\<close>

theorem ttyDiscard_keeps_first:
  assumes "length (concat bufs) < 2 ^ 31"
  shows "\<exists>t'. fold_res (\<lambda>buf t. ttyDiscard t buf) bufs tty_zero = Inr t'
    \<and> unat (tty_wdbytes t') = length (concat bufs)
    \<and> take (length (concat bufs)) (tty_discards t') = take DISCARDS_SIZE (concat bufs)"
  using ttyDiscard_seq[OF discards_hold_zero, of bufs] assms by (auto simp: discards_hold_def)

theorem ttyDiscard_keeps_first_witness:
  "\<exists>t'. fold_res (\<lambda>buf t. ttyDiscard t buf) [''ab'', ''c''] tty_zero = Inr t'
    \<and> unat (tty_wdbytes t') = 3 \<and> take 3 (tty_discards t') = ''abc''"
  using ttyDiscard_keeps_first[of "[''ab'', ''c'']"] by (simp add: DISCARDS_SIZE_def numeral_3_eq_3)

text \<open>C37: past 2 GiB of discarded bytes the count no longer fits the \<open>int\<close> it is copied
  to: with a count between 2^31 + 1025 and 2^32 - 1 the next discarded byte is stored
  before the start of the array.\<close>

theorem ttyDiscard_overflow:
  assumes "2 ^ 31 + 1025 \<le> uint (tty_wdbytes t)" "uint (tty_wdbytes t) < 2 ^ 32" "buf \<noteq> []"
  shows "ttyDiscard t buf = Inl OutOfBounds"
proof -
  let ?w = "uint (tty_wdbytes t)"
  have "to_int32 (tty_wdbytes t) = take_bit 32 (?w + 2 ^ 31) - 2 ^ 31"
    by (simp add: to_int32_def signed_ucast_eq signed_take_bit_eq_take_bit_shift)
  also have "take_bit 32 (?w + 2 ^ 31) = ?w + 2 ^ 31 - 2 ^ 32"
    using assms minus_mod_self2[of "?w + 2 ^ 31" "2 ^ 32"] unfolding take_bit_eq_mod
    by (simp add: mod_pos_pos_trivial)
  finally have used: "to_int32 (tty_wdbytes t) = ?w - 2 ^ 32" by simp
  have "to_int32 (of_nat DISCARDS_SIZE - of_int (?w - 2 ^ 32)) = 1024 - (?w - 2 ^ 32)"
    using to_int32_of_int[of "1024 - (?w - 2 ^ 32)"] assms by (simp add: DISCARDS_SIZE_def)
  then show ?thesis
    using assms by (auto simp: ttyDiscard_def Let_def used)
qed

theorem ttyDiscard_overflow_witness:
  "ttyDiscard (tty_zero\<lparr>tty_wdbytes := 0xFFFFFFFF\<rparr>) ''x'' = Inl OutOfBounds"
  by (rule ttyDiscard_overflow) simp_all

subsection \<open>Writing\<close>

text \<open>C10: \<open>ttyWriteBuf\<close> hands over the whole buffer or nothing. With clients present it
  either returns the length, having appended exactly the buffer to the dom side and counted
  it, or returns -1 (buffer full) with tty and output as they were; with no clients it
  returns the length and never calls \<open>write\<close>. A short write is never reported as success.\<close>

theorem ttyWriteBuf_all_or_nothing:
  assumes "ttyWriteBuf t buf ts k = Inr (n, t', ts', k')"
  shows "(tty_opens t \<noteq> 0 \<and> n = int (length buf)
       \<and> k_out k' = (k_out k)(tty_dfd t := k_out k (tty_dfd t) @ buf)
       \<and> t' = t\<lparr>tty_wbytes := tty_wbytes t + of_int n\<rparr> \<and> (ts = None \<longrightarrow> ts' = None))
    \<or> (tty_opens t \<noteq> 0 \<and> n = -1 \<and> k_out k' = k_out k \<and> t' = t \<and> ts' = ts)
    \<or> (tty_opens t = 0 \<and> n = int (length buf) \<and> k' = k \<and> ts' = ts
       \<and> tty_wdbytes t' = tty_wdbytes t + of_nat (length buf) \<and> tty_wbytes t' = tty_wbytes t)"
  using assms
  by (auto simp: ttyWriteBuf_def sys_write_def sys_clock_def ttyDiscard_def Let_def bind_res_eq_Inr
      split: if_splits wans.splits option.splits)

theorem ttyWriteBuf_all_or_nothing_witness:
  "\<exists>n t' ts' k'. ttyWriteBuf (tty_zero\<lparr>tty_dfd := 5, tty_opens := 1\<rparr>) ''hi'' None kern0
      = Inr (n, t', ts', k') \<and> k_out k' 5 = ''hi''"
proof -
  let ?t = "tty_zero\<lparr>tty_dfd := 5, tty_opens := 1\<rparr>"
  obtain n t' ts' k' where w: "ttyWriteBuf ?t ''hi'' None kern0 = Inr (n, t', ts', k')" "n = 2"
    by (simp add: ttyWriteBuf_def tty_eval)
  from ttyWriteBuf_all_or_nothing[OF w(1)] w show ?thesis by (auto simp: kern0_def)
qed

text \<open>The write operation as its clients see it: a tty and the kernel, no time stamp.\<close>

definition tty_put :: "string \<Rightarrow> tty_t \<times> kern \<Rightarrow> (int \<times> tty_t \<times> kern) res" where
  "tty_put bs = (\<lambda>(t, k). bind_res (ttyWriteBuf t bs None k) (\<lambda>(n, t, ts, k). Inr (n, t, k)))"

text \<open>What a write to a tty leaves alone: everything but counters, kept bytes and its output.\<close>

definition tty_frame :: "tty_t \<times> kern \<Rightarrow> tty_t \<times> kern" where
  "tty_frame = (\<lambda>(t, k). (t\<lparr>tty_wbytes := 0, tty_wdbytes := 0, tty_discards := []\<rparr>,
     k\<lparr>k_tick := 0, k_out := (k_out k)(tty_dfd t := [])\<rparr>))"

definition tty_listening :: "tty_t \<times> kern \<Rightarrow> nat \<Rightarrow> bool" where
  "tty_listening = (\<lambda>(t, k) _. tty_opens t \<noteq> 0 \<and> writes_accepted k)"

definition tty_unheard :: "tty_t \<times> kern \<Rightarrow> nat \<Rightarrow> bool" where
  "tty_unheard = (\<lambda>(t, k) n. tty_opens t = 0 \<and> length (tty_discards t) = DISCARDS_SIZE
     \<and> unat (tty_wdbytes t) + n < 2 ^ 31)"

lemma tty_frame_eqD:
  assumes "tty_frame (t', k') = tty_frame (t, k)"
  shows "tty_dfd t' = tty_dfd t" "tty_opens t' = tty_opens t" "k_inq k' = k_inq k" "k_inev k' = k_inev k"
    "k_wans k' = k_wans k" "k_rans k' = k_rans k" "k_clock k' = k_clock k"
    "f \<noteq> tty_dfd t \<Longrightarrow> k_out k' f = k_out k f"
proof -
  from assms have e: "t'\<lparr>tty_wbytes := 0, tty_wdbytes := 0, tty_discards := []\<rparr> =
      t\<lparr>tty_wbytes := 0, tty_wdbytes := 0, tty_discards := []\<rparr>"
    "k'\<lparr>k_tick := 0, k_out := (k_out k')(tty_dfd t' := [])\<rparr> =
      k\<lparr>k_tick := 0, k_out := (k_out k)(tty_dfd t := [])\<rparr>"
    by (simp_all add: tty_frame_def)
  show d: "tty_dfd t' = tty_dfd t" and "tty_opens t' = tty_opens t"
    using arg_cong[OF e(1), of tty_dfd] arg_cong[OF e(1), of tty_opens] by simp_all
  show "k_inq k' = k_inq k" "k_inev k' = k_inev k" "k_wans k' = k_wans k" "k_rans k' = k_rans k"
    "k_clock k' = k_clock k"
    using arg_cong[OF e(2), of k_inq] arg_cong[OF e(2), of k_inev] arg_cong[OF e(2), of k_wans]
      arg_cong[OF e(2), of k_rans] arg_cong[OF e(2), of k_clock] by simp_all
  show "k_out k' f = k_out k f" if "f \<noteq> tty_dfd t"
    using fun_cong[OF arg_cong[OF e(2), of k_out], of f] that d by simp
qed

lemma tty_put_listening:
  "tty_opens t \<noteq> 0 \<Longrightarrow> writes_accepted k \<Longrightarrow> tty_put bs (t, k) =
     Inr (int (length bs), t\<lparr>tty_wbytes := tty_wbytes t + of_nat (length bs)\<rparr>,
          (tick k)\<lparr>k_out := (k_out k)(tty_dfd t := k_out k (tty_dfd t) @ bs)\<rparr>)"
  by (simp add: tty_put_def ttyWriteBuf_def kern_simps)

lemma tty_put_unheard:
  assumes "tty_unheard (t, k) (length bs + n)"
  shows "\<exists>t'. tty_put bs (t, k) = Inr (int (length bs), t', k)
    \<and> unat (tty_wdbytes t') = unat (tty_wdbytes t) + length bs
    \<and> length (tty_discards t') = DISCARDS_SIZE \<and> tty_opens t' = 0
    \<and> tty_frame (t', k) = tty_frame (t, k)"
proof -
  let ?u = "unat (tty_wdbytes t)"
  have b: "?u + length bs < 2 ^ 31" and o: "tty_opens t = 0"
    and l: "length (tty_discards t) = DISCARDS_SIZE"
    using assms by (simp_all add: tty_unheard_def)
  show ?thesis
    using b unat_wdbytes_add[OF b] l
    by (auto simp: tty_put_def ttyWriteBuf_def o ttyDiscard_ok[OF refl b] tty_frame_def Let_def min_def)
qed

text \<open>A tty with clients logs the bytes; one without clients logs their number.\<close>

interpretation open_tty: byte_sink tty_put "\<lambda>(t, k). k_out k (tty_dfd t)" "(@)" tty_listening tty_frame
proof (unfold_locales, goal_cases)
  case (4 s bs n)
  then show ?case
    by (cases s) (auto simp: tty_listening_def tty_put_listening tty_frame_def)
qed (auto simp: tty_listening_def)

interpretation closed_tty: byte_sink tty_put "\<lambda>(t, k). unat (tty_wdbytes t)"
  "\<lambda>l bs. l + length bs" tty_unheard tty_frame
proof (unfold_locales, goal_cases)
  case (4 s bs n)
  obtain t k where s: "s = (t, k)" by (cases s)
  from tty_put_unheard[of t k bs n] 4 show ?case
    by (auto simp: s tty_unheard_def)
qed (auto simp: tty_unheard_def)

subsection \<open>Reading\<close>

text \<open>C26: reading is paced. Within \<open>delay\<close> seconds of the last write nothing is read: the
  result is 0, the input queue is untouched and only the delay count moves. Once the delay
  has passed (or there is none) the first pending byte is returned and removed, and counted.\<close>

theorem ttyReadChar_paced:
  assumes "sys_clock k = (Some now, k1)"
  shows "(0 < delay \<and> timespec_diff now lw < delay \<longrightarrow>
      ttyReadChar t (Some lw) delay k = Inr (0, E_OK, None, t\<lparr>tty_delaycnt := tty_delaycnt t + 1\<rparr>, k1)
      \<and> k_inq k1 = k_inq k)
    \<and> ((delay \<le> 0 \<or> delay \<le> timespec_diff now lw) \<and> k_inq k (tty_dfd t) = c # cs \<longrightarrow>
      ttyReadChar t (Some lw) delay k = Inr (1, E_OK, Some c, t\<lparr>tty_rbytes := tty_rbytes t + 1\<rparr>,
        (tick k1)\<lparr>k_inq := (k_inq k)(tty_dfd t := cs)\<rparr>))"
  using assms by (auto simp: ttyReadChar_def sys_clock_def sys_read1_def)

theorem ttyReadChar_paced_witness:
  "ttyReadChar (tty_zero\<lparr>tty_dfd := 5\<rparr>) (Some \<lparr>tv_sec = 0, tv_nsec = 0\<rparr>) 2
     (kern0\<lparr>k_tick := 1, k_inq := (\<lambda>_. ''z'')\<rparr>) =
   Inr (0, E_OK, None, tty_zero\<lparr>tty_dfd := 5, tty_delaycnt := 1\<rparr>,
        kern0\<lparr>k_tick := 2, k_inq := (\<lambda>_. ''z'')\<rparr>)"
proof -
  let ?k = "kern0\<lparr>k_tick := 1, k_inq := (\<lambda>_. ''z'')\<rparr>"
  have c: "sys_clock ?k = (Some \<lparr>tv_sec = 1, tv_nsec = 0\<rparr>, tick ?k)"
    by (simp add: sys_clock_def kern0_def)
  show ?thesis
    using ttyReadChar_paced[OF c, of 2 "\<lparr>tv_sec = 0, tv_nsec = 0\<rparr>" "tty_zero\<lparr>tty_dfd := 5\<rparr>"]
    by (simp add: timespec_diff_def tick_def tty_zero_def)
qed

subsection \<open>Counting opens\<close>

text \<open>What the counter should do, on the masks alone: a close at zero is ignored.\<close>

definition count_mask :: "32 word \<Rightarrow> int \<Rightarrow> int" where
  "count_mask m n = (if m = IN_OPEN then n + 1 else if n > 0 then n - 1 else n)"

text \<open>C27: an open adds one to the count of clients, a close takes one away unless the count
  is zero already, so it never becomes negative; the event is consumed and the rest of the
  tty is unchanged. Any other mask is not handled.\<close>

theorem ttyNotifyCount_counts:
  assumes "k_inev k (tty_ifd t) = (tty_iwd t, m) # evs" "0 \<le> tty_opens t"
  shows "(m \<in> {IN_OPEN, IN_CLOSE_WRITE, IN_CLOSE_NOWRITE} \<longrightarrow>
      ttyNotifyCount t k = Inr (m, t\<lparr>tty_opens := count_mask m (tty_opens t)\<rparr>,
        (tick k)\<lparr>k_inev := (k_inev k)(tty_ifd t := evs)\<rparr>)
      \<and> 0 \<le> count_mask m (tty_opens t))
    \<and> (m \<notin> {IN_OPEN, IN_CLOSE_WRITE, IN_CLOSE_NOWRITE} \<longrightarrow>
      ttyNotifyCount t k = Inl (NYI ''ttyNotifyEvent''))"
proof -
  have ne: "IN_CLOSE_WRITE \<noteq> IN_OPEN" "IN_CLOSE_NOWRITE \<noteq> IN_OPEN"
    by (simp_all add: mask_defs)
  show ?thesis
    using assms ne
    by (auto simp: ttyNotifyCount_def sys_read_inotify_def count_mask_def Let_def)
qed

theorem ttyNotifyCount_counts_witness:
  "ttyNotifyCount (tty_zero\<lparr>tty_ifd := 6, tty_iwd := 1\<rparr>)
     (kern0\<lparr>k_inev := (\<lambda>_. [(1, IN_CLOSE_WRITE)])\<rparr>) =
   Inr (IN_CLOSE_WRITE, tty_zero\<lparr>tty_ifd := 6, tty_iwd := 1\<rparr>,
        (tick kern0)\<lparr>k_inev := (\<lambda>_. [(1, IN_CLOSE_WRITE)])(6 := [])\<rparr>)"
proof -
  let ?t = "tty_zero\<lparr>tty_ifd := 6, tty_iwd := 1\<rparr>"
  let ?k = "kern0\<lparr>k_inev := (\<lambda>_. [(1, IN_CLOSE_WRITE)])\<rparr>"
  have "k_inev ?k (tty_ifd ?t) = (tty_iwd ?t, IN_CLOSE_WRITE) # []" "0 \<le> tty_opens ?t"
    by (simp_all add: tty_zero_def)
  from ttyNotifyCount_counts[OF this] show ?thesis
    by (simp add: count_mask_def mask_defs tty_zero_def tick_def)
qed

end
