(* ===== verification/Fs.thy ===== *)
theory Fs
  imports Event
begin

unbundle bit_operations_syntax

text \<open>
  The synthetic file system of \<open>fs.h\<close> and \<open>fs.c\<close>: the inode table with its free list, files
  and directories with their two hash tables, removal with purging of empty directories, and
  the callbacks that answer requests of the fuse library. File objects live in a store
  indexed by address, because a directory, an inode and a handler may all point to one; an
  address is never reused, so a pointer to a freed object is recognised as such. What libfuse
  does (directory entries, session set-up) is a parameter.
\<close>

section \<open>State\<close>

definition INVALID_INO :: nat where "INVALID_INO = 0"
definition ROOT_INO :: nat where "ROOT_INO = 1"

datatype fs_filetype_t = NONE | REGULAR | SYMLINK | DIRECTORY

text \<open>The operation tables of \<open>fs.c\<close> and \<open>yarfs.c\<close>, one per kind of file.\<close>

datatype fs_ops = Fs_dir_ops | Fs_pid_ops | Fs_cmds_ops | Fs_lcmds_ops | Fs_ttys_ops | Fs_bcst_ops

record 'h fs_dir_t =
  ino_files :: 'h
  nm_files  :: 'h

text \<open>\<open>data\<close>: null, the tables of a directory, or the target of a symbolic link.\<close>

datatype 'h fs_data = D_null | D_dir "'h fs_dir_t" | D_link string

record 'h fs_file_t =
  f_ops      :: "fs_ops option"
  f_data     :: "'h fs_data"
  f_name     :: string
  f_ino      :: nat
  f_dir      :: nat
  f_type     :: fs_filetype_t
  f_malloced :: bool

record fs_inodesc_t =
  id_file :: "ptr option"
  id_next :: "nat option"

record 'h fs_t =
  fs_ino_table    :: "fs_inodesc_t list"
  fs_ino_freelist :: "nat option"
  fs_ino_num      :: nat
  fs_ino_numfree  :: int
  fs_files        :: "'h fs_file_t option list"
  fs_mntpt        :: "string option"
  fs_fuse_fd      :: int
  fs_fuse_se      :: bool
  fs_mkdir        :: bool
  fs_ed           :: evntdesc_t

text \<open>The bytes of an inode number, the key of the hash table by inode.\<close>

definition ino_key :: "nat \<Rightarrow> string" where
  "ino_key i = map (\<lambda>b. char_of (i div 256 ^ b)) [0..<8]"

definition file_at :: "'h fs_t \<Rightarrow> ptr \<Rightarrow> 'h fs_file_t res" where
  "file_at fs p = (if p < length (fs_files fs)
     then (case fs_files fs ! p of None \<Rightarrow> Inl UseAfterFree | Some f \<Rightarrow> Inr f)
     else Inl UseAfterFree)"

definition put_file :: "ptr \<Rightarrow> 'h fs_file_t option \<Rightarrow> 'h fs_t \<Rightarrow> 'h fs_t" where
  "put_file p f fs = fs\<lparr>fs_files := (fs_files fs)[p := f]\<rparr>"

definition malloc_file :: "'h fs_file_t \<Rightarrow> 'h fs_t \<Rightarrow> ptr \<times> 'h fs_t" where
  "malloc_file f fs = (length (fs_files fs), fs\<lparr>fs_files := fs_files fs @ [Some f]\<rparr>)"

definition deref :: "ptr option \<Rightarrow> ptr res" where
  "deref p = (case p of None \<Rightarrow> Inl NullDeref | Some a \<Rightarrow> Inr a)"

section \<open>Inodes\<close>

definition file_init ::
  "nat \<Rightarrow> nat \<Rightarrow> 'h fs_data \<Rightarrow> string \<Rightarrow> fs_filetype_t \<Rightarrow> bool \<Rightarrow> fs_ops \<Rightarrow> 'h fs_file_t" where
  "file_init ino dir data name type malloced ops =
     \<lparr>f_ops = Some ops, f_data = data, f_name = name, f_ino = ino, f_dir = dir, f_type = type,
      f_malloced = malloced\<rparr>"

definition inodesc2ino :: "'h fs_t \<Rightarrow> nat \<Rightarrow> nat res" where
  "inodesc2ino fs i = assert_res (fs_ino_num fs \<noteq> 0 \<and> i \<le> fs_ino_num fs - 1) ''inodesc2ino'' (\<lambda>_. Inr i)"

definition ino2inodesc :: "'h fs_t \<Rightarrow> nat \<Rightarrow> fs_inodesc_t res" where
  "ino2inodesc fs ino = assert_res (ino < fs_ino_num fs) ''ino2inodesc''
     (\<lambda>_. if ino < length (fs_ino_table fs) then Inr (fs_ino_table fs ! ino) else Inl OutOfBounds)"

definition put_inodesc :: "nat \<Rightarrow> fs_inodesc_t \<Rightarrow> 'h fs_t \<Rightarrow> 'h fs_t" where
  "put_inodesc i d fs = fs\<lparr>fs_ino_table := (fs_ino_table fs)[i := d]\<rparr>"

text \<open>A 4096-byte table of 16-byte entries.\<close>

definition INO_NUM :: nat where "INO_NUM = 256"

definition init_inotable :: "'h fs_t \<Rightarrow> 'h fs_t res" where
  "init_inotable fs = assert_res (fs_ino_table fs = [] \<and> fs_ino_num fs = 0) ''init_inotable'' (\<lambda>_.
     Inr (fs\<lparr>fs_ino_table := map (\<lambda>i. \<lparr>id_file = None, id_next = Some (Suc i)\<rparr>) [0..<INO_NUM - 1]
                              @ [\<lparr>id_file = None, id_next = None\<rparr>],
             fs_ino_num := INO_NUM, fs_ino_freelist := Some 0, fs_ino_numfree := int INO_NUM\<rparr>))"

definition inoalloc :: "'h fs_t \<Rightarrow> (nat \<times> 'h fs_t) res" where
  "inoalloc fs =
     bind_res (if fs_ino_table fs = [] then init_inotable fs else Inr fs) (\<lambda>fs.
     case fs_ino_freelist fs of
       None \<Rightarrow> assert_res (fs_ino_numfree fs = 0) ''inoalloc'' (\<lambda>_. Inl (NYI ''grow_inotable''))
     | Some i \<Rightarrow>
         bind_res (ino2inodesc fs i) (\<lambda>d.
         let fs = put_inodesc i (d\<lparr>id_next := None\<rparr>) (fs\<lparr>fs_ino_freelist := id_next d\<rparr>);
             fs = fs\<lparr>fs_ino_numfree := fs_ino_numfree fs - 1\<rparr>
         in assert_res (0 \<le> fs_ino_numfree fs \<and> id_file d = None) ''inoalloc'' (\<lambda>_.
            bind_res (inodesc2ino fs i) (\<lambda>ino. Inr (ino, fs)))))"

definition inofree :: "nat \<Rightarrow> 'h fs_t \<Rightarrow> (bool \<times> 'h fs_t) res" where
  "inofree ino fs =
     bind_res (ino2inodesc fs ino) (\<lambda>d.
     assert_res (id_next d = None) ''inofree'' (\<lambda>_.
     let fs = put_inodesc ino (d\<lparr>id_next := fs_ino_freelist fs\<rparr>) fs
     in Inr (True, fs\<lparr>fs_ino_freelist := Some ino, fs_ino_numfree := fs_ino_numfree fs + 1\<rparr>)))"

section \<open>Directories and files\<close>

definition dir_data :: "'h fs_file_t \<Rightarrow> 'h fs_dir_t res" where
  "dir_data f = (case f_data f of D_dir d \<Rightarrow> Inr d | _ \<Rightarrow> Inl NullDeref)"

text \<open>An item is entered under its inode and its name, unless either is taken.\<close>

definition dir_add :: "'h hashops \<Rightarrow> ptr \<Rightarrow> ptr \<Rightarrow> 'h fs_t \<Rightarrow> (bool \<times> 'h fs_t) res" where
  "dir_add H dirp itemp fs =
     bind_res (file_at fs dirp) (\<lambda>dir.
     bind_res (file_at fs itemp) (\<lambda>item.
     assert_res (f_type dir = DIRECTORY \<and> f_data dir \<noteq> D_null) ''dir_add'' (\<lambda>_.
     bind_res (dir_data dir) (\<lambda>dd.
       if hh_find H (ino_files dd) (ino_key (f_ino item)) \<noteq> None then Inr (False, fs)
       else if hh_find H (nm_files dd) (f_name item) \<noteq> None then Inr (False, fs)
       else
         (let dd = \<lparr>ino_files = hh_add H (ino_files dd) (ino_key (f_ino item)) itemp,
                    nm_files = hh_add H (nm_files dd) (f_name item) itemp\<rparr>
          in Inr (True, put_file dirp (Some (dir\<lparr>f_data := D_dir dd\<rparr>)) fs))))))"

text \<open>The directory an inode number stands for, as the creation functions check it.\<close>

definition parent_dir :: "string \<Rightarrow> nat \<Rightarrow> 'h fs_t \<Rightarrow> ptr res" where
  "parent_dir site ino fs =
     bind_res (ino2inodesc fs ino) (\<lambda>d.
     assert_res (id_next d = None) site (\<lambda>_.
     bind_res (deref (id_file d)) (\<lambda>p.
     bind_res (file_at fs p) (\<lambda>f.
     assert_res (f_type f = DIRECTORY) site (\<lambda>_. Inr p)))))"

definition new_inode :: "string \<Rightarrow> 'h fs_t \<Rightarrow> (nat \<times> 'h fs_t) res" where
  "new_inode site fs =
     bind_res (inoalloc fs) (\<lambda>(ino, fs).
     bind_res (ino2inodesc fs ino) (\<lambda>d.
     assert_res (id_file d = None \<and> id_next d = None) site (\<lambda>_. Inr (ino, fs))))"

definition set_inode_file :: "nat \<Rightarrow> ptr \<Rightarrow> 'h fs_t \<Rightarrow> 'h fs_t" where
  "set_inode_file ino p fs = put_inodesc ino ((fs_ino_table fs ! ino)\<lparr>id_file := Some p\<rparr>) fs"

definition fsCreatedir :: "'h hashops \<Rightarrow> nat \<Rightarrow> string \<Rightarrow> fs_ops \<Rightarrow> 'h fs_t \<Rightarrow> (ptr \<times> 'h fs_t) res" where
  "fsCreatedir H parentino name ops fs =
     bind_res (new_inode ''fsCreatedir'' fs) (\<lambda>(ino, fs).
     bind_res (if parentino \<noteq> INVALID_INO
               then bind_res (parent_dir ''fsCreatedir'' parentino fs) (\<lambda>p. Inr (Some p))
               else Inr None) (\<lambda>parent.
     let dirdata = D_dir \<lparr>ino_files = hh_empty H, nm_files = hh_empty H\<rparr>;
         (dirp, fs) = malloc_file (file_init ino parentino dirdata name DIRECTORY True ops) fs
     in bind_res (case parent of None \<Rightarrow> Inr fs
                  | Some p \<Rightarrow> bind_res (dir_add H p dirp fs) (\<lambda>(_, fs). Inr fs)) (\<lambda>fs.
        Inr (dirp, set_inode_file ino dirp fs))))"

definition fsCreatefile ::
  "'h hashops \<Rightarrow> nat \<Rightarrow> string \<Rightarrow> string option \<Rightarrow> fs_ops \<Rightarrow> 'h fs_t \<Rightarrow> (ptr \<times> 'h fs_t) res" where
  "fsCreatefile H dirino name symlink ops fs =
     bind_res (new_inode ''fsCreatefile'' fs) (\<lambda>(ino, fs).
     assert_res (dirino \<noteq> INVALID_INO) ''fsCreatefile'' (\<lambda>_.
     bind_res (parent_dir ''fsCreatefile'' dirino fs) (\<lambda>dirp.
     let (filedata, type) = (case symlink of None \<Rightarrow> (D_null, REGULAR) | Some s \<Rightarrow> (D_link s, SYMLINK));
         (filep, fs) = malloc_file (file_init ino dirino filedata name type True ops) fs
     in bind_res (dir_add H dirp filep fs) (\<lambda>(_, fs).
        Inr (filep, set_inode_file ino filep fs)))))"

section \<open>Removal\<close>

text \<open>The directory that holds an item, found through its inode (with the code's checks).\<close>

definition containing_dir :: "nat \<Rightarrow> 'h fs_t \<Rightarrow> ptr res" where
  "containing_dir ino fs =
     bind_res (ino2inodesc fs ino) (\<lambda>d.
     case id_file d of
       None \<Rightarrow> Inl (Assert ''fsRemoveitem'')
     | Some p \<Rightarrow> assert_res (id_next d = None) ''fsRemoveitem'' (\<lambda>_.
         bind_res (file_at fs p) (\<lambda>f.
         assert_res (f_type f = DIRECTORY) ''fsRemoveitem'' (\<lambda>_. Inr p))))"

text \<open>The item is taken out of both tables of its directory; tells whether that is empty now.\<close>

definition dir_remove :: "'h hashops \<Rightarrow> ptr \<Rightarrow> ptr \<Rightarrow> 'h fs_t \<Rightarrow> (bool \<times> 'h fs_t) res" where
  "dir_remove H dirp itemp fs =
     bind_res (file_at fs dirp) (\<lambda>dir.
     bind_res (file_at fs itemp) (\<lambda>item.
     bind_res (dir_data dir) (\<lambda>dd.
     assert_res (hh_count H (ino_files dd) = hh_count H (nm_files dd) \<and> hh_count H (ino_files dd) > 0)
       ''fsRemoveitem'' (\<lambda>_.
     assert_res (hh_find H (ino_files dd) (ino_key (f_ino item)) = Some itemp
               \<and> hh_find H (nm_files dd) (f_name item) = Some itemp) ''fsRemoveitem'' (\<lambda>_.
     let dd = \<lparr>ino_files = hh_del H (ino_files dd) itemp, nm_files = hh_del H (nm_files dd) itemp\<rparr>
     in assert_res (hh_count H (ino_files dd) = hh_count H (nm_files dd)) ''fsRemoveitem'' (\<lambda>_.
        Inr (hh_count H (ino_files dd) = 0, put_file dirp (Some (dir\<lparr>f_data := D_dir dd\<rparr>)) fs)))))))"

text \<open>The fields of a removed object that is not on the heap.\<close>

definition file_cleared :: "'h fs_file_t \<Rightarrow> 'h fs_file_t" where
  "file_cleared f = f\<lparr>f_ops := None, f_ino := INVALID_INO, f_dir := INVALID_INO, f_type := NONE,
     f_data := D_null, f_name := []\<rparr>"

text \<open>
  Which directory holds the item: \<open>Inr None\<close> for an item that cannot be removed (a directory
  with entries), \<open>Inr (Some None)\<close> for the root.
\<close>

definition removal_dir :: "'h hashops \<Rightarrow> 'h fs_file_t \<Rightarrow> 'h fs_t \<Rightarrow> ptr option option res" where
  "removal_dir H item fs =
     (if f_type item = DIRECTORY then
        bind_res (dir_data item) (\<lambda>dd.
        assert_res (hh_count H (ino_files dd) = hh_count H (nm_files dd)) ''fsRemoveitem'' (\<lambda>_.
          if hh_count H (ino_files dd) \<noteq> 0 then Inr None
          else if f_ino item \<noteq> ROOT_INO then
            bind_res (containing_dir (f_dir item) fs) (\<lambda>p. Inr (Some (Some p)))
          else assert_res (f_dir item = INVALID_INO) ''fsRemoveitem'' (\<lambda>_. Inr (Some None))))
      else assert_res (f_ino item \<noteq> ROOT_INO \<and> f_dir item \<noteq> INVALID_INO) ''fsRemoveitem'' (\<lambda>_.
        bind_res (containing_dir (f_dir item) fs) (\<lambda>p. Inr (Some (Some p)))))"

text \<open>The fuel bounds the climb from a removed item through directories it leaves empty.\<close>

fun fsRemoveitem_fuel ::
  "nat \<Rightarrow> 'h hashops \<Rightarrow> ptr \<Rightarrow> bool \<Rightarrow> 'h fs_t \<Rightarrow> (bool \<times> 'h fs_t) res" where
  "fsRemoveitem_fuel 0 H itemp purge fs = Inl OutOfFuel"
| "fsRemoveitem_fuel (Suc n) H itemp purge fs =
     bind_res (file_at fs itemp) (\<lambda>item.
     bind_res (removal_dir H item fs) (\<lambda>where_to.
     case where_to of
       None \<Rightarrow> Inr (False, fs)
     | Some containing \<Rightarrow>
         bind_res (case containing of None \<Rightarrow> Inr (False, fs)
                   | Some dirp \<Rightarrow> dir_remove H dirp itemp fs) (\<lambda>(empty, fs).
         bind_res (inofree (f_ino item) fs) (\<lambda>(_, fs).
         let fs = put_file itemp (if f_malloced item then None else Some (file_cleared item)) fs
         in case containing of
              Some dirp \<Rightarrow>
                if empty \<and> purge
                then bind_res (fsRemoveitem_fuel n H dirp purge fs) (\<lambda>(_, fs). Inr (True, fs))
                else Inr (True, fs)
            | None \<Rightarrow> Inr (True, fs)))))"

definition fsRemoveitem :: "'h hashops \<Rightarrow> ptr \<Rightarrow> bool \<Rightarrow> 'h fs_t \<Rightarrow> (bool \<times> 'h fs_t) res" where
  "fsRemoveitem H itemp purge fs = fsRemoveitem_fuel (Suc (length (fs_files fs))) H itemp purge fs"

section \<open>Requests\<close>

record stat =
  st_ino   :: nat
  st_mode  :: nat
  st_nlink :: nat
  st_size  :: nat

definition stat_zero :: stat where
  "stat_zero = \<lparr>st_ino = 0, st_mode = 0, st_nlink = 0, st_size = 0\<rparr>"

datatype fuse_errno = E_SUCCESS | ENOENT | EISDIR | EACCES | ENOTSUP

datatype fuse_reply =
    Reply_err fuse_errno
  | Reply_entry nat stat
  | Reply_attr stat
  | Reply_open
  | Reply_buf string

text \<open>
  A window of a buffer. \<open>off < bufsize\<close> compares a signed with an unsigned 64-bit number, so
  a negative offset counts as a large one.
\<close>

definition fsFuseReplyBufLimited :: "string \<Rightarrow> int \<Rightarrow> nat \<Rightarrow> fuse_reply" where
  "fsFuseReplyBufLimited buf off maxsize =
     (if off mod 2 ^ 64 < int (length buf)
      then Reply_buf (take (min (length buf - nat off) maxsize) (drop (nat off) buf))
      else Reply_buf [])"

text \<open>libfuse's directory entry encoding: the size of an entry and its bytes.\<close>

record fuse_lib =
  fl_entsize :: "string \<Rightarrow> nat"
  fl_entry   :: "string \<Rightarrow> nat \<Rightarrow> nat \<Rightarrow> string"

definition dirbuf_add :: "fuse_lib \<Rightarrow> string \<Rightarrow> string \<Rightarrow> nat \<Rightarrow> string" where
  "dirbuf_add L b name ino =
     (let sz = length b + fl_entsize L name
      in b @ take (fl_entsize L name) (fl_entry L name ino sz @ replicate (fl_entsize L name) (char_of (0::nat))))"

definition fs_dir_stat :: "'h fs_file_t \<Rightarrow> stat \<Rightarrow> stat" where
  "fs_dir_stat dir st = st\<lparr>st_mode := 16384 + 493, st_nlink := 2\<rparr>"

fun dirbuf_items :: "fuse_lib \<Rightarrow> 'h fs_t \<Rightarrow> ptr list \<Rightarrow> string \<Rightarrow> string res" where
  "dirbuf_items L fs [] b = Inr b"
| "dirbuf_items L fs (p # ps) b =
     bind_res (file_at fs p) (\<lambda>item. dirbuf_items L fs ps (dirbuf_add L b (f_name item) (f_ino item)))"

definition fs_dir_readdir ::
  "'h hashops \<Rightarrow> fuse_lib \<Rightarrow> 'h fs_file_t \<Rightarrow> 'h fs_t \<Rightarrow> nat \<Rightarrow> int \<Rightarrow> fuse_reply res" where
  "fs_dir_readdir H L dir fs sz off =
     (let b = dirbuf_add L [] ''.'' (f_ino dir);
          b = dirbuf_add L b ''..'' (f_dir dir)
      in bind_res (dir_data dir) (\<lambda>dd.
         bind_res (dirbuf_items L fs (hh_iter H (ino_files dd)) b) (\<lambda>b.
         Inr (fsFuseReplyBufLimited b off sz))))"

text \<open>
  The operations of the files, as the callbacks reach them through \<open>file->ops\<close>: \<open>stat\<close> is
  always set, \<open>read\<close> and \<open>readdir\<close> may be null; no file of the program sets \<open>open\<close>.
\<close>

record 'h optable =
  op_stat    :: "fs_ops \<Rightarrow> 'h fs_file_t \<Rightarrow> stat \<Rightarrow> stat res"
  op_read    :: "fs_ops \<Rightarrow> (nat \<Rightarrow> int \<Rightarrow> fuse_reply res) option"
  op_readdir :: "fs_ops \<Rightarrow> ('h fs_file_t \<Rightarrow> 'h fs_t \<Rightarrow> nat \<Rightarrow> int \<Rightarrow> fuse_reply res) option"

definition file_stat :: "'h optable \<Rightarrow> 'h fs_file_t \<Rightarrow> stat res" where
  "file_stat T f = (case f_ops f of None \<Rightarrow> Inl NullDeref | Some t \<Rightarrow> op_stat T t f stat_zero)"

definition fs_fuse_lookup ::
  "'h hashops \<Rightarrow> 'h optable \<Rightarrow> nat \<Rightarrow> string \<Rightarrow> 'h fs_t \<Rightarrow> fuse_reply res" where
  "fs_fuse_lookup H T dirino name fs =
     bind_res (ino2inodesc fs dirino) (\<lambda>did.
     if id_next did \<noteq> None then Inr (Reply_err ENOENT)
     else bind_res (deref (id_file did)) (\<lambda>p.
       bind_res (file_at fs p) (\<lambda>dir.
       if f_type dir \<noteq> DIRECTORY then Inr (Reply_err ENOENT)
       else bind_res (dir_data dir) (\<lambda>dd.
         case hh_find H (nm_files dd) name of
           None \<Rightarrow> Inr (Reply_err ENOENT)
         | Some q \<Rightarrow> bind_res (file_at fs q) (\<lambda>file.
             bind_res (file_stat T file) (\<lambda>st. Inr (Reply_entry (f_ino file) st)))))))"

definition fs_fuse_getattr :: "'h optable \<Rightarrow> nat \<Rightarrow> 'h fs_t \<Rightarrow> fuse_reply res" where
  "fs_fuse_getattr T ino fs =
     bind_res (ino2inodesc fs ino) (\<lambda>id.
     if id_next id \<noteq> None then Inr (Reply_err ENOENT)
     else case id_file id of
       None \<Rightarrow> Inl (Assert ''fs_fuse_getattr'')
     | Some p \<Rightarrow> bind_res (file_at fs p) (\<lambda>file.
         bind_res (file_stat T file) (\<lambda>st. Inr (Reply_attr st))))"

definition live_file :: "string \<Rightarrow> nat \<Rightarrow> 'h fs_t \<Rightarrow> 'h fs_file_t res" where
  "live_file site ino fs =
     bind_res (ino2inodesc fs ino) (\<lambda>id.
     case id_file id of
       None \<Rightarrow> Inl (Assert site)
     | Some p \<Rightarrow> assert_res (id_next id = None) site (\<lambda>_. file_at fs p))"

definition fs_fuse_readlink :: "nat \<Rightarrow> fuse_reply res" where
  "fs_fuse_readlink ino = Inl (NYI ''fs_fuse_readlink'')"

definition fs_fuse_open :: "nat \<Rightarrow> 32 word \<Rightarrow> 'h fs_t \<Rightarrow> fuse_reply res" where
  "fs_fuse_open ino flags fs =
     bind_res (live_file ''fs_fuse_open'' ino fs) (\<lambda>file.
     if f_ops file = None then Inl NullDeref
     else if f_type file = DIRECTORY then Inr (Reply_err EISDIR)
     else if flags AND 3 \<noteq> 0 then Inr (Reply_err EACCES)
     else Inr Reply_open)"

definition fs_fuse_read :: "'h optable \<Rightarrow> nat \<Rightarrow> nat \<Rightarrow> int \<Rightarrow> 'h fs_t \<Rightarrow> fuse_reply res" where
  "fs_fuse_read T ino sz off fs =
     bind_res (live_file ''fs_fuse_read'' ino fs) (\<lambda>file.
     case f_ops file of
       None \<Rightarrow> Inl NullDeref
     | Some t \<Rightarrow> (case op_read T t of
         None \<Rightarrow> Inl (Assert ''fs_fuse_read'')
       | Some rd \<Rightarrow> rd sz off))"

definition fs_fuse_write :: "nat \<Rightarrow> fuse_reply res" where
  "fs_fuse_write ino = Inl (NYI ''fs_fuse_write'')"

definition fs_fuse_readdir :: "'h optable \<Rightarrow> nat \<Rightarrow> nat \<Rightarrow> int \<Rightarrow> 'h fs_t \<Rightarrow> fuse_reply res" where
  "fs_fuse_readdir T dirino sz off fs =
     bind_res (ino2inodesc fs dirino) (\<lambda>did.
     if id_next did \<noteq> None then Inr (Reply_err ENOENT)
     else bind_res (deref (id_file did)) (\<lambda>p.
       bind_res (file_at fs p) (\<lambda>dir.
       if f_type dir \<noteq> DIRECTORY then Inr (Reply_err ENOENT)
       else case f_ops dir of
         None \<Rightarrow> Inl NullDeref
       | Some t \<Rightarrow> (case op_readdir T t of
           None \<Rightarrow> Inl (Assert ''fs_fuse_readdir'')
         | Some rd \<Rightarrow> rd dir fs sz off))))"

definition fs_fuse_setxattr :: "nat \<Rightarrow> string \<Rightarrow> string \<Rightarrow> 'h fs_t \<Rightarrow> fuse_reply res" where
  "fs_fuse_setxattr ino name val fs =
     bind_res (live_file ''fs_fuse_setxattr'' ino fs) (\<lambda>_.
     if name = ''fs_ll_setxattr_name'' \<and> val = ''fs_ll_setxattr_value''
     then Inr (Reply_err E_SUCCESS) else Inr (Reply_err ENOTSUP))"

definition fs_fuse_getxattr :: "nat \<Rightarrow> string \<Rightarrow> 'h fs_t \<Rightarrow> fuse_reply res" where
  "fs_fuse_getxattr ino name fs =
     bind_res (live_file ''fs_fuse_getxattr'' ino fs) (\<lambda>_.
     if name = ''fs_ll_getxattr_name'' then Inr (Reply_buf ''fs_ll_getxattr_value'')
     else Inr (Reply_err ENOTSUP))"

definition fs_fuse_removexattr :: "nat \<Rightarrow> string \<Rightarrow> 'h fs_t \<Rightarrow> fuse_reply res" where
  "fs_fuse_removexattr ino name fs =
     bind_res (live_file ''fs_fuse_removexattr'' ino fs) (\<lambda>_.
     if name = ''fs_ll_removexattr_name'' then Inr (Reply_err E_SUCCESS)
     else Inr (Reply_err ENOTSUP))"

text \<open>
  What libfuse does with a request it has received: it calls the callback registered for it
  in \<open>fs_fuse_ops\<close>.
\<close>

datatype fuse_request =
    Rq_lookup nat string
  | Rq_getattr nat
  | Rq_readlink nat
  | Rq_open nat "32 word"
  | Rq_read nat nat int
  | Rq_write nat
  | Rq_readdir nat nat int
  | Rq_setxattr nat string string
  | Rq_getxattr nat string
  | Rq_removexattr nat string

fun fs_fuse_ops ::
  "'h hashops \<Rightarrow> 'h optable \<Rightarrow> 'h fs_t \<Rightarrow> fuse_request \<Rightarrow> fuse_reply res" where
  "fs_fuse_ops H T fs (Rq_lookup dir name) = fs_fuse_lookup H T dir name fs"
| "fs_fuse_ops H T fs (Rq_getattr ino) = fs_fuse_getattr T ino fs"
| "fs_fuse_ops H T fs (Rq_readlink ino) = fs_fuse_readlink ino"
| "fs_fuse_ops H T fs (Rq_open ino flags) = fs_fuse_open ino flags fs"
| "fs_fuse_ops H T fs (Rq_read ino sz off) = fs_fuse_read T ino sz off fs"
| "fs_fuse_ops H T fs (Rq_write ino) = fs_fuse_write ino"
| "fs_fuse_ops H T fs (Rq_readdir dir sz off) = fs_fuse_readdir T dir sz off fs"
| "fs_fuse_ops H T fs (Rq_setxattr ino name val) = fs_fuse_setxattr ino name val fs"
| "fs_fuse_ops H T fs (Rq_getxattr ino name) = fs_fuse_getxattr ino name fs"
| "fs_fuse_ops H T fs (Rq_removexattr ino name) = fs_fuse_removexattr ino name fs"

section \<open>Set-up and tear-down\<close>

text \<open>\<open>fsInit\<close> with the mount point \<open>fsMountPoint\<close> has put together, if there is to be one.\<close>

definition fsInit :: "'h fs_t \<Rightarrow> string option \<Rightarrow> 'h fs_t" where
  "fsInit fs mntpt = fs\<lparr>fs_ino_table := [], fs_ino_freelist := None, fs_ino_num := 0, fs_ino_numfree := 0,
     fs_files := [], fs_mntpt := mntpt, fs_fuse_fd := -1, fs_fuse_se := False, fs_mkdir := False,
     fs_ed := \<lparr>hdlr = Some H_fsEvent, obj = Some O_fs\<rparr>\<rparr>"

definition fs_zero :: "'h fs_t" where
  "fs_zero = \<lparr>fs_ino_table = [], fs_ino_freelist = None, fs_ino_num = 0, fs_ino_numfree = 0,
     fs_files = [], fs_mntpt = None, fs_fuse_fd = -1, fs_fuse_se = False, fs_mkdir = False,
     fs_ed = evnt_null\<rparr>"

text \<open>\<open>fsCreate\<close>; what \<open>mkdir\<close> and the fuse library answer is given.\<close>

definition fsCreate ::
  "'h hashops \<Rightarrow> bool \<Rightarrow> bool \<Rightarrow> bool \<Rightarrow> int \<Rightarrow> ('h fs_t \<Rightarrow> nat \<Rightarrow> 'h fs_t res) \<Rightarrow> 'h fs_t
   \<Rightarrow> (bool \<times> 'h fs_t) res" where
  "fsCreate H mkdir_ok session_ok mount_ok fuse_fd createfsfunc fs =
     (if \<not> mkdir_ok then Inr (False, fs)
      else
        (let fs = fs\<lparr>fs_mkdir := True\<rparr>
         in bind_res (inoalloc fs) (\<lambda>(ino, fs).
            assert_res (ino = INVALID_INO) ''fsCreate'' (\<lambda>_.
            bind_res (fsCreatedir H INVALID_INO ''.'' Fs_dir_ops fs) (\<lambda>(rootp, fs).
            bind_res (file_at fs rootp) (\<lambda>root.
            assert_res (f_ino root = ROOT_INO) ''fsCreate'' (\<lambda>_.
            bind_res (createfsfunc fs (f_ino root)) (\<lambda>fs.
            assert_res session_ok ''fsCreate'' (\<lambda>_.
            let fs = fs\<lparr>fs_fuse_se := True\<rparr>
            in if \<not> mount_ok then Inr (False, fs)
               else assert_res (fuse_fd \<noteq> -1) ''fsCreate'' (\<lambda>_.
                    let fs = fs\<lparr>fs_fuse_fd := fuse_fd\<rparr>
                    in assert_res (fs_ed fs = \<lparr>hdlr = Some H_fsEvent, obj = Some O_fs\<rparr>) ''fsCreate''
                         (\<lambda>_. Inr (True, fs))))))))))))"

text \<open>The scan of \<open>fsCleanup\<close> over the inode table, counting the removals it asks for.\<close>

fun cleanup_scan :: "'h hashops \<Rightarrow> nat list \<Rightarrow> nat \<times> 'h fs_t \<Rightarrow> (nat \<times> 'h fs_t) res" where
  "cleanup_scan H [] s = Inr s"
| "cleanup_scan H (i # is) (removed, fs) =
     bind_res (ino2inodesc fs i) (\<lambda>id.
     case id_file id of
       None \<Rightarrow> cleanup_scan H is (removed, fs)
     | Some p \<Rightarrow> assert_res (id_next id = None) ''fsCleanup'' (\<lambda>_.
         bind_res (fsRemoveitem H p True fs) (\<lambda>(_, fs). cleanup_scan H is (Suc removed, fs))))"

definition fsCleanup_inodes :: "'h hashops \<Rightarrow> 'h fs_t \<Rightarrow> 'h fs_t res" where
  "fsCleanup_inodes H fs =
     (if fs_ino_table fs = [] then Inr fs
      else
        (let allocated = int (fs_ino_num fs) - fs_ino_numfree fs
         in assert_res (fs_ino_num fs \<noteq> 0) ''fsCleanup'' (\<lambda>_.
            bind_res (cleanup_scan H [0..<fs_ino_num fs] (0, fs)) (\<lambda>(removed, fs).
            bind_res (inofree INVALID_INO fs) (\<lambda>(_, fs).
            assert_res (int (Suc removed) = allocated) ''fsCleanup'' (\<lambda>_.
            assert_res (int (fs_ino_num fs) = fs_ino_numfree fs) ''fsCleanup'' (\<lambda>_.
            Inr (fs\<lparr>fs_ino_table := [], fs_ino_num := 0, fs_ino_freelist := None,
                    fs_ino_numfree := 0\<rparr>))))))))"

definition fsCleanup :: "'h hashops \<Rightarrow> 'h fs_t \<Rightarrow> (bool \<times> 'h fs_t) res" where
  "fsCleanup H fs =
     (if fs_mntpt fs \<noteq> None \<and> fs_mkdir fs
      then bind_res (fsCleanup_inodes H (fs\<lparr>fs_fuse_se := False, fs_mntpt := None\<rparr>))
             (\<lambda>fs. Inr (True, fs))
      else Inr (True, fs))"

end
