(* ===== verification/Ascii.thy ===== *)
theory Ascii
  imports Prelude
begin

text \<open>
  The character helpers of \<open>yar.h\<close> with the table of \<open>main.c\<close>, and the memory dump of
  \<open>hexdump.c\<close>: what it prints, as a string.
\<close>

section \<open>Characters\<close>

definition ascii_isvalid :: "int \<Rightarrow> bool" where
  "ascii_isvalid c \<longleftrightarrow> 0 \<le> c \<and> c \<le> 127"

definition ascii_isprintable :: "int \<Rightarrow> bool" where
  "ascii_isprintable c \<longleftrightarrow> (32 \<le> c \<and> c \<le> 126) \<or> c = 10 \<or> c = 13 \<or> c = 9"

definition backslash :: char where
  "backslash = char_of (92 :: nat)"

definition ascii_nonprintable :: "string list" where
  "ascii_nonprintable =
     [''NUL'', ''SOH'', ''STX'', ''ETX'', ''EOT'', ''ENQ'', ''ACK'', [backslash, CHR ''a''],
      [backslash, CHR ''b''], [backslash, CHR ''t''], [backslash, CHR ''n''],
      [backslash, CHR ''v''], [backslash, CHR ''f''], [backslash, CHR ''r''], ''SO'', ''SI'',
      ''DLE'', ''DC1'', ''DC2'', ''DC3'', ''DC4'', ''NAK'', ''SYN'', ''ETB'', ''CAN'', ''EM'',
      ''SUB'', ''ESC'', ''FS'', ''GS'', ''RS'', ''US'']"

text \<open>
  The four bytes of \<open>asciistr_t\<close> are given up to the terminating null. The assertion is the
  code's own: it admits one index more than the table has.
\<close>

definition ascii_char2str :: "int \<Rightarrow> (bool \<times> string) res" where
  "ascii_char2str c =
     (if \<not> ascii_isvalid c then Inr (False, [])
      else if 32 \<le> c \<and> c \<le> 126 then Inr (True, [char_of (nat c)])
      else if c = 127 then Inr (True, ''DEL'')
      else assert_res (0 \<le> c \<and> c \<le> int (length ascii_nonprintable)) ''ascii_char2str''
        (\<lambda>_. if nat c < length ascii_nonprintable
              then Inr (True, ascii_nonprintable ! nat c) else Inl OutOfBounds))"

lemma length_ascii_nonprintable [simp]: "length ascii_nonprintable = 32"
  by (simp add: ascii_nonprintable_def)

lemma ascii_nonprintable_width: "\<forall>s \<in> set ascii_nonprintable. s \<noteq> [] \<and> length s \<le> 3"
  by (simp add: ascii_nonprintable_def)

section \<open>Number formatting\<close>

definition hex_digit :: "nat \<Rightarrow> char" where
  "hex_digit n = (if n < 10 then char_of (48 + n) else char_of (87 + n))"

fun hex_digits :: "nat \<Rightarrow> string" where
  "hex_digits n = (if n < 16 then [hex_digit n] else hex_digits (n div 16) @ [hex_digit (n mod 16)])"

declare hex_digits.simps [simp del]

definition zero_pad :: "nat \<Rightarrow> string \<Rightarrow> string" where
  "zero_pad w s = replicate (w - length s) CHR ''0'' @ s"

text \<open>\<open>%08llx\<close> and \<open>%02x\<close>.\<close>

definition fmt_addr :: "nat \<Rightarrow> string" where
  "fmt_addr a = zero_pad 8 (hex_digits a)"

definition fmt_02x :: "char \<Rightarrow> string" where
  "fmt_02x c = zero_pad 2 (hex_digits (of_char c))"

text \<open>\<open>%d\<close>.\<close>

fun dec_digits :: "nat \<Rightarrow> string" where
  "dec_digits n = (if n < 10 then [char_of (48 + n)] else dec_digits (n div 10) @ [char_of (48 + n mod 10)])"

declare dec_digits.simps [simp del]

definition dec_int :: "int \<Rightarrow> string" where
  "dec_int i = (if i < 0 then CHR ''-'' # dec_digits (nat (- i)) else dec_digits (nat i))"

text \<open>The value of a hexadecimal digit, to read a dump back.\<close>

definition hex_value :: "char \<Rightarrow> nat" where
  "hex_value d = (let n = of_char d in if n < 58 then n - 48 else n - 87)"

lemma hex_value_digit: "n < 16 \<Longrightarrow> hex_value (hex_digit n) = n"
  by (simp add: hex_value_def hex_digit_def Let_def)

lemma hex_digits_small: "n < 16 \<Longrightarrow> hex_digits n = [hex_digit n]"
  by (simp add: hex_digits.simps)

lemma of_char_lt [simp]: "(of_char c :: nat) < 256"
  by (rule nat_of_char_less_256)

lemma fmt_02x_eq: "fmt_02x c = [hex_digit (of_char c div 16), hex_digit (of_char c mod 16)]"
proof -
  let ?n = "of_char c :: nat"
  have z: "hex_digit 0 = CHR ''0''" by code_simp
  show ?thesis
  proof (cases "?n < 16")
    case True
    then show ?thesis by (simp add: fmt_02x_def zero_pad_def hex_digits_small z numeral_2_eq_2)
  next
    case False
    have "?n div 16 < 16" using of_char_lt[of c] by arith
    with False show ?thesis
      by (simp add: fmt_02x_def zero_pad_def hex_digits_small hex_digits.simps[of ?n])
  qed
qed

section \<open>The memory dump\<close>

definition dump_char :: "char \<Rightarrow> char" where
  "dump_char c = (if 32 \<le> (of_char c :: nat) \<and> (of_char c :: nat) \<le> 126 then c else CHR ''.'')"

text \<open>A read of \<open>mem[i]\<close>, out of bounds where the object ends.\<close>

definition mem_slice :: "string \<Rightarrow> nat \<Rightarrow> nat \<Rightarrow> string res" where
  "mem_slice mem off n = (if off + n \<le> length mem then Inr (take n (drop off mem)) else Inl OutOfBounds)"

definition newline :: char where
  "newline = CHR 0x0A"

text \<open>One full line of sixteen bytes (the first loop).\<close>

definition hexdump_line :: "nat \<Rightarrow> string \<Rightarrow> nat \<Rightarrow> string res" where
  "hexdump_line addr mem offset =
     bind_res (mem_slice mem offset 16) (\<lambda>bs.
       Inr (fmt_addr (addr + offset) @ '':  '' @ concat (map (\<lambda>c. fmt_02x c @ ''  '') bs) @ ''|''
            @ map dump_char bs @ ''|'' @ [newline]))"

text \<open>
  The left-over bytes (the \<open>if (remaining)\<close> block). \<open>remaining\<close> is an \<open>int\<close>: where it is
  negative the byte loops do not run and the padding loop runs \<open>16 - remaining\<close> times.
\<close>

definition hexdump_rest :: "nat \<Rightarrow> string \<Rightarrow> nat \<Rightarrow> int \<Rightarrow> string res" where
  "hexdump_rest addr mem offset remaining =
     (if remaining = 0 then Inr []
      else bind_res (mem_slice mem offset (nat remaining)) (\<lambda>bs.
        Inr (fmt_addr (addr + offset) @ '':  '' @ concat (map (\<lambda>c. fmt_02x c @ ''  '') bs)
             @ concat (replicate (nat (16 - remaining)) ''    '') @ ''|''
             @ map dump_char bs @ ''|'' @ [newline])))"

fun hexdump_lines :: "nat \<Rightarrow> string \<Rightarrow> nat \<Rightarrow> nat \<Rightarrow> string res" where
  "hexdump_lines addr mem j 0 = Inr []"
| "hexdump_lines addr mem j (Suc n) =
     bind_res (hexdump_line addr mem (j * 16)) (\<lambda>l.
     bind_res (hexdump_lines addr mem (Suc j) n) (\<lambda>ls. Inr (l @ ls)))"

definition hexdump :: "nat \<Rightarrow> string \<Rightarrow> nat \<Rightarrow> (string \<times> nat) res" where
  "hexdump addr mem bytes =
     (let lines = to_int32 (of_nat (bytes div 16));
          j = nat lines;
          offset = j * 16;
          remaining = to_int32 (of_nat bytes - of_nat offset)
      in bind_res (hexdump_lines addr mem 0 j) (\<lambda>out.
         bind_res (hexdump_rest addr mem offset remaining) (\<lambda>rest.
           Inr (out @ rest, bytes))))"

subsection \<open>Reference form and reading back\<close>

text \<open>The lines of a dump by chunks of sixteen bytes.\<close>

definition dump_line :: "nat \<Rightarrow> string \<Rightarrow> string" where
  "dump_line addr l =
     fmt_addr addr @ '':  '' @ concat (map (\<lambda>c. fmt_02x c @ ''  '') l)
     @ concat (replicate (16 - length l) ''    '') @ ''|'' @ map dump_char l @ ''|'' @ [newline]"

fun dump_ref :: "nat \<Rightarrow> string \<Rightarrow> string" where
  "dump_ref addr bs =
     (if bs = [] then [] else dump_line addr (take 16 bs) @ dump_ref (addr + 16) (drop 16 bs))"

declare dump_ref.simps [simp del]

lemma to_int32_of_nat: "n < 2 ^ 31 \<Longrightarrow> to_int32 (of_nat n) = int n"
proof -
  assume a: "n < 2 ^ 31"
  then have "uint (of_nat n :: 64 word) = int n"
    by (simp add: uint_nat unat_of_nat take_bit_nat_eq_self)
  with a show ?thesis by (simp add: to_int32_small)
qed

lemma dump_ref_Nil [simp]: "dump_ref addr [] = []"
  by (simp add: dump_ref.simps)

lemma dump_ref_step:
  "bs \<noteq> [] \<Longrightarrow> dump_ref addr bs = dump_line addr (take 16 bs) @ dump_ref (addr + 16) (drop 16 bs)"
  by (simp add: dump_ref.simps[of addr bs])

lemma dump_ref_append:
  "length xs = 16 * n \<Longrightarrow> dump_ref addr (xs @ ys) = dump_ref addr xs @ dump_ref (addr + 16 * n) ys"
proof (induction n arbitrary: addr xs)
  case 0
  then show ?case by simp
next
  case (Suc n)
  then have ne: "xs \<noteq> []" by auto
  have l: "length (drop 16 xs) = 16 * n" using Suc.prems by simp
  have t: "take 16 (xs @ ys) = take 16 xs" "drop 16 (xs @ ys) = drop 16 xs @ ys"
    using Suc.prems by simp_all
  have "dump_ref addr (xs @ ys) = dump_line addr (take 16 xs) @ dump_ref (addr + 16) (drop 16 xs @ ys)"
    using dump_ref_step[of "xs @ ys" addr] ne unfolding t by simp
  also have "\<dots> = dump_ref addr xs @ dump_ref (addr + 16 * Suc n) ys"
    using Suc.IH[OF l, of "addr + 16"] dump_ref_step[OF ne, of addr] by (simp add: add.assoc)
  finally show ?case .
qed

lemma hexdump_lines_ref:
  assumes "16 * (j + n) \<le> length mem"
  shows "hexdump_lines addr mem j n =
    Inr (dump_ref (addr + 16 * j) (take (16 * n) (drop (16 * j) mem)))"
  using assms
proof (induction n arbitrary: j)
  case 0
  then show ?case by simp
next
  case (Suc n)
  let ?b = "take 16 (drop (16 * j) mem)"
  have len: "length ?b = 16" using Suc.prems by simp
  then have ne: "?b \<noteq> []" by (metis list.size(3) zero_neq_numeral)
  have line: "hexdump_line addr mem (j * 16) = Inr (dump_ref (addr + 16 * j) ?b)"
    using Suc.prems len dump_ref_step[OF ne, of "addr + 16 * j"]
    by (simp add: hexdump_line_def mem_slice_def dump_line_def mult.commute)
  have split: "take (16 * Suc n) (drop (16 * j) mem) =
      ?b @ take (16 * n) (drop (16 * Suc j) mem)"
    by (simp add: take_add add.commute)
  have "16 * (Suc j + n) \<le> length mem" using Suc.prems by simp
  from Suc.IH[OF this] show ?case
    unfolding split
    using dump_ref_append[of ?b 1 "addr + 16 * j" "take (16 * n) (drop (16 * Suc j) mem)"] len
    by (simp add: line algebra_simps)
qed

lemma dump_ref_rest:
  assumes "0 < r" "r < 16" "off + r \<le> length mem"
  shows "hexdump_rest addr mem off (int r) = Inr (dump_ref (addr + off) (take r (drop off mem)))"
proof -
  let ?b = "take r (drop off mem)"
  have ne: "?b \<noteq> []" using assms by auto
  have "dump_ref (addr + off) ?b = dump_line (addr + off) ?b"
    using dump_ref_step[OF ne, of "addr + off"] assms by simp
  moreover have "nat (16 - int r) = 16 - r" by simp
  ultimately show ?thesis
    using assms by (simp add: hexdump_rest_def mem_slice_def dump_line_def)
qed

lemma hexdump_small:
  assumes "bytes < 2 ^ 31"
  shows "hexdump addr mem bytes =
    bind_res (hexdump_lines addr mem 0 (bytes div 16)) (\<lambda>out.
    bind_res (hexdump_rest addr mem (16 * (bytes div 16)) (int (bytes mod 16))) (\<lambda>rest. Inr (out @ rest, bytes)))"
proof -
  define j where "j = bytes div 16"
  have l: "to_int32 (of_nat (bytes div 16)) = int j"
    using assms by (simp add: j_def to_int32_of_nat)
  have "(of_nat bytes - of_nat (j * 16) :: 64 word) = of_nat (bytes - j * 16)"
    by (simp add: j_def mult.commute)
  then have r: "to_int32 (of_nat bytes - of_nat (j * 16)) = int (bytes mod 16)"
    using assms by (simp add: to_int32_of_nat j_def minus_div_mult_eq_mod)
  show ?thesis unfolding hexdump_def Let_def l nat_int r by (simp add: j_def mult.commute)
qed

lemma hexdump_ref:
  assumes "bytes \<le> length mem" "bytes < 2 ^ 31"
  shows "hexdump addr mem bytes = Inr (dump_ref addr (take bytes mem), bytes)"
proof -
  define j where "j = bytes div 16"
  have jb: "16 * j \<le> bytes" by (simp add: j_def)
  have "16 * (0 + j) \<le> length mem" using jb assms(1) by simp
  from hexdump_lines_ref[OF this, of addr]
  have out: "hexdump_lines addr mem 0 j = Inr (dump_ref addr (take (16 * j) mem))" by simp
  have "take bytes mem = take (16 * j) mem @ take (bytes - 16 * j) (drop (16 * j) mem)"
    using jb by (metis le_add_diff_inverse take_add)
  moreover have "length (take (16 * j) mem) = 16 * j" using jb assms(1) by simp
  ultimately have whole: "dump_ref addr (take bytes mem) = dump_ref addr (take (16 * j) mem)
      @ dump_ref (addr + 16 * j) (take (bytes - 16 * j) (drop (16 * j) mem))"
    by (simp add: dump_ref_append)
  have m: "bytes - 16 * j = bytes mod 16" by (simp add: j_def minus_mult_div_eq_mod)
  have rest: "hexdump_rest addr mem (16 * j) (int (bytes mod 16)) =
      Inr (dump_ref (addr + 16 * j) (take (bytes mod 16) (drop (16 * j) mem)))"
  proof (cases "bytes mod 16 = 0")
    case True
    then show ?thesis by (simp add: hexdump_rest_def)
  next
    case False
    have "16 * j + bytes mod 16 \<le> length mem" using m jb assms(1) by simp
    with False show ?thesis
      using dump_ref_rest[of "bytes mod 16" "16 * j" mem addr] by simp
  qed
  show ?thesis
    using assms(2) out rest whole m by (simp add: hexdump_small flip: j_def)
qed

text \<open>Outside the memory it is given it fails, and in no other way.\<close>

lemma mem_slice_err: "mem_slice mem off n = Inl e \<Longrightarrow> e = OutOfBounds"
  by (simp add: mem_slice_def split: if_splits)

lemma hexdump_err: "hexdump addr mem n = Inl e \<Longrightarrow> e = OutOfBounds"
proof -
  have "hexdump_lines addr mem j n = Inl e \<Longrightarrow> e = OutOfBounds" for j n
    by (induction n arbitrary: j) (auto simp: hexdump_line_def bind_res_eq_Inl dest: mem_slice_err)
  then show "hexdump addr mem n = Inl e \<Longrightarrow> e = OutOfBounds"
    by (auto simp: hexdump_def hexdump_rest_def bind_res_eq_Inl Let_def dest: mem_slice_err split: if_splits)
qed

lemma hexdump_lines_within:
  "hexdump_lines addr mem j n = Inr out \<Longrightarrow> n = 0 \<or> 16 * (j + n) \<le> length mem"
  by (induction n arbitrary: j out) (fastforce simp: hexdump_line_def res_dest mem_slice_def split: if_splits)+

lemma hexdump_overrun:
  assumes "bytes < 2 ^ 31" "length mem < bytes"
  shows "hexdump addr mem bytes = Inl OutOfBounds"
proof (cases "hexdump addr mem bytes")
  case (Inl e)
  then show ?thesis using hexdump_err by simp
next
  case (Inr r)
  let ?n = "bytes div 16"
  from Inr assms(1) obtain o1 o2 where "hexdump_lines addr mem 0 ?n = Inr o1"
    "hexdump_rest addr mem (16 * ?n) (int (bytes mod 16)) = Inr o2" by (auto simp: hexdump_small res_dest)
  then have "16 * ?n + bytes mod 16 \<le> length mem"
    using hexdump_lines_within[of addr mem 0 ?n o1]
    by (auto simp: hexdump_rest_def res_dest mem_slice_def split: if_splits)
  then show ?thesis using assms(2) by simp
qed

text \<open>C20: the dump is the reference dump. For every address, memory and number of bytes below
  2 GiB, \<open>hexdump\<close> prints what the recursive specification says (lines of sixteen bytes, each
  with its address, the bytes in hexadecimal, padding in the last line, and the printable
  characters between bars) and answers the number of bytes, when the memory has that many;
  when it has fewer, a byte outside it is read, whatever the contents.\<close>

theorem hexdump_prints:
  assumes "bytes < 2 ^ 31"
  shows "hexdump addr mem bytes =
    (if bytes \<le> length mem then Inr (dump_ref addr (take bytes mem), bytes) else Inl OutOfBounds)"
  using hexdump_ref[OF _ assms] hexdump_overrun[OF assms] by simp

theorem hexdump_prints_witness:
  "hexdump 64 ''ready'' 5 = Inr (dump_ref 64 ''ready'', 5) \<and> hexdump 64 ''ready'' 6 = Inl OutOfBounds"
  using hexdump_prints[of 5 64 "''ready''"] hexdump_prints[of 6 64 "''ready''"] by simp

end
