(* ===== verification/Globals.thy ===== *)
theory Globals
  imports Tty Fs Ascii
begin

text \<open>
  The state of a running \<open>yar\<close>: command and monitor objects (\<open>cmd.h\<close>, \<open>yar.h\<close>), the
  \<open>GBLS\<close> structure, and with them the memory of the command objects and the kernel. A command
  is reached by address from the table of commands, from \<open>slowestcmd\<close> and from the event
  descriptors, so commands live in a store: an address is an index, a freed object leaves
  \<open>None\<close> behind and its address is not used again. Delays (\<open>double\<close>) are exact rationals.
\<close>

definition CMD_BUFSIZE :: nat where "CMD_BUFSIZE = 4096"
definition MON_LINELEN :: nat where "MON_LINELEN = 4096"
definition PATH_MAX :: nat where "PATH_MAX = 4096"

record cmd_t =
  c_buf          :: string
  c_cmdtty       :: tty_t
  c_clttty       :: tty_t
  c_pidfded      :: evntdesc_t
  c_lastwrite    :: timespec
  c_cmdstr       :: "string option"
  c_name         :: "string option"
  c_bcstprefix   :: "string option"
  c_cmdline      :: "string option"
  c_log          :: "string option"
  c_stopstr      :: "string option"
  c_delay        :: rat
  c_pid          :: int
  c_bufn         :: nat
  c_bufstart     :: nat
  c_bufof        :: int
  c_bcstprefixlen :: int
  c_pidfd        :: int
  c_exitstatus   :: int
  c_readycnt     :: int
  c_restartcnt   :: int
  c_restart      :: bool
  c_deleteonexit :: bool

definition timespec_zero :: timespec where
  "timespec_zero = \<lparr>tv_sec = 0, tv_nsec = 0\<rparr>"

text \<open>A \<open>cmd_t\<close> after \<open>bzero\<close>.\<close>

definition cmd_zero :: cmd_t where
  "cmd_zero =
     \<lparr>c_buf = replicate CMD_BUFSIZE nul, c_cmdtty = tty_zero, c_clttty = tty_zero,
      c_pidfded = evnt_null, c_lastwrite = timespec_zero, c_cmdstr = None, c_name = None,
      c_bcstprefix = None, c_cmdline = None, c_log = None, c_stopstr = None, c_delay = 0,
      c_pid = 0, c_bufn = 0, c_bufstart = 0, c_bufof = 0, c_bcstprefixlen = 0, c_pidfd = 0,
      c_exitstatus = 0, c_readycnt = 0, c_restartcnt = 0, c_restart = False,
      c_deleteonexit = False\<rparr>"

text \<open>The monitor; \<open>fileptr\<close> is only compared with null and with \<open>stderr\<close>.\<close>

record mon_t =
  m_line    :: string
  m_tty     :: tty_t
  m_ed      :: evntdesc_t
  m_fileptr :: bool
  m_n       :: int
  m_silent  :: bool

record sigproc_t =
  sg_ed  :: evntdesc_t
  sg_sfd :: int

text \<open>
  \<open>g_logdir_freed\<close> records that the memory \<open>logdir\<close> points to has been freed while the
  pointer is still set.
\<close>

record 'h globals_t =
  g_bcsttty       :: tty_t
  g_mon           :: mon_t
  g_fs            :: "'h fs_t"
  g_sigproc       :: sigproc_t
  g_cmds          :: 'h
  g_slowestcmd    :: "ptr option"
  g_initialcmdspecs :: "string list"
  g_readystr      :: "string option"
  g_stopstr       :: "string option"
  g_cwd           :: "string option"
  g_bcstttylink   :: "string option"
  g_monttylinkdir :: "string option"
  g_fsmntptdir    :: "string option"
  g_logdir        :: "string option"
  g_logdir_freed  :: bool
  g_logpath       :: "string option"
  g_logfile       :: bool
  g_defaultcmddelay    :: rat
  g_restartcmddelay    :: rat
  g_errrestartcmddelay :: rat
  g_pid           :: int
  g_readystrlen   :: int
  g_cmdsreadycnt  :: int
  g_verbose       :: int
  g_linebufferbcst :: bool
  g_prefixbcst    :: bool
  g_bcstflg       :: bool
  g_restart       :: bool
  g_exitonidle    :: bool
  g_cmddelonexit  :: bool
  g_keeplog       :: bool
  g_uselog        :: bool
  g_daemonize     :: bool

text \<open>
  The state of the process: \<open>GBLS\<close>, the command objects, the kernel, what was printed to the
  monitor, and the requests waiting in the fuse session with the replies given.
\<close>

record 'h sys =
  s_gbls   :: "'h globals_t"
  s_heap   :: "cmd_t option list"
  s_kern   :: kern
  s_monout :: string
  s_fusein :: "fuse_request list"
  s_fuseout :: "fuse_reply list"

text \<open>\<open>GBLS\<close> after \<open>bzero\<close>, with an empty table of commands.\<close>

definition mon_zero :: mon_t where
  "mon_zero = \<lparr>m_line = replicate MON_LINELEN nul, m_tty = tty_zero, m_ed = evnt_null, m_fileptr = False,
     m_n = 0, m_silent = False\<rparr>"

definition gbls_zero :: "'h \<Rightarrow> 'h globals_t" where
  "gbls_zero t =
     \<lparr>g_bcsttty = tty_zero, g_mon = mon_zero, g_fs = fs_zero, g_sigproc = \<lparr>sg_ed = evnt_null, sg_sfd = 0\<rparr>,
      g_cmds = t, g_slowestcmd = None, g_initialcmdspecs = [], g_readystr = None, g_stopstr = None,
      g_cwd = None, g_bcstttylink = None, g_monttylinkdir = None, g_fsmntptdir = None, g_logdir = None,
      g_logdir_freed = False, g_logpath = None, g_logfile = False, g_defaultcmddelay = 0,
      g_restartcmddelay = 0, g_errrestartcmddelay = 0, g_pid = 0, g_readystrlen = 0, g_cmdsreadycnt = 0,
      g_verbose = 0, g_linebufferbcst = False, g_prefixbcst = False, g_bcstflg = False, g_restart = False,
      g_exitonidle = False, g_cmddelonexit = False, g_keeplog = False, g_uselog = False,
      g_daemonize = False\<rparr>"

section \<open>Access\<close>

definition cmd_at :: "'h sys \<Rightarrow> ptr \<Rightarrow> cmd_t res" where
  "cmd_at s p = (if p < length (s_heap s)
     then (case s_heap s ! p of None \<Rightarrow> Inl UseAfterFree | Some c \<Rightarrow> Inr c)
     else Inl UseAfterFree)"

definition put_cmd :: "ptr \<Rightarrow> cmd_t \<Rightarrow> 'h sys \<Rightarrow> 'h sys" where
  "put_cmd p c s = s\<lparr>s_heap := (s_heap s)[p := Some c]\<rparr>"

definition malloc_cmd :: "cmd_t \<Rightarrow> 'h sys \<Rightarrow> ptr \<times> 'h sys" where
  "malloc_cmd c s = (length (s_heap s), s\<lparr>s_heap := s_heap s @ [Some c]\<rparr>)"

definition free_cmd :: "ptr \<Rightarrow> 'h sys \<Rightarrow> 'h sys res" where
  "free_cmd p s = (if p < length (s_heap s) \<and> s_heap s ! p \<noteq> None
     then Inr (s\<lparr>s_heap := (s_heap s)[p := None]\<rparr>) else Inl DoubleFree)"

definition upd_gbls :: "('h globals_t \<Rightarrow> 'h globals_t) \<Rightarrow> 'h sys \<Rightarrow> 'h sys" where
  "upd_gbls f s = s\<lparr>s_gbls := f (s_gbls s)\<rparr>"

definition with_kern :: "kern \<Rightarrow> 'h sys \<Rightarrow> 'h sys" where
  "with_kern k s = s\<lparr>s_kern := k\<rparr>"

named_theorems sys_simps \<open>access and update of the state of the program\<close>

lemma cmd_at_put [simp, sys_simps]:
  "p < length (s_heap s) \<Longrightarrow> cmd_at (put_cmd p c s) q = (if q = p then Inr c else cmd_at s q)"
  by (auto simp: cmd_at_def put_cmd_def)

lemma cmd_at_other [simp, sys_simps]:
  "cmd_at (s\<lparr>s_gbls := g\<rparr>) p = cmd_at s p" "cmd_at (s\<lparr>s_monout := x\<rparr>) p = cmd_at s p"
  "cmd_at (s\<lparr>s_fusein := y\<rparr>) p = cmd_at s p" "cmd_at (s\<lparr>s_fuseout := z\<rparr>) p = cmd_at s p"
  by (auto simp: cmd_at_def split: option.splits)

lemma cmd_at_bound: "cmd_at s p = Inr c \<Longrightarrow> p < length (s_heap s)"
  by (simp add: cmd_at_def split: if_splits)

lemma put_cmd_simps [simp, sys_simps]:
  "s_gbls (put_cmd p c s) = s_gbls s" "s_kern (put_cmd p c s) = s_kern s"
  "s_monout (put_cmd p c s) = s_monout s" "length (s_heap (put_cmd p c s)) = length (s_heap s)"
  "put_cmd p c (put_cmd p d s) = put_cmd p c s"
  by (simp_all add: put_cmd_def)

lemma with_kern_simps [simp, sys_simps]:
  "s_gbls (with_kern k s) = s_gbls s" "s_kern (with_kern k s) = k" "s_heap (with_kern k s) = s_heap s"
  "s_monout (with_kern k s) = s_monout s" "cmd_at (with_kern k s) p = cmd_at s p"
  "with_kern k (with_kern k' s) = with_kern k s"
  "with_kern k (put_cmd p c s) = put_cmd p c (with_kern k s)"
  by (simp_all add: with_kern_def cmd_at_def put_cmd_def)

lemma upd_gbls_simps [simp, sys_simps]:
  "s_gbls (upd_gbls f s) = f (s_gbls s)" "s_kern (upd_gbls f s) = s_kern s"
  "s_heap (upd_gbls f s) = s_heap s" "s_monout (upd_gbls f s) = s_monout s"
  "cmd_at (upd_gbls f s) p = cmd_at s p"
  "upd_gbls f (put_cmd p c s) = put_cmd p c (upd_gbls f s)"
  "upd_gbls f (with_kern k s) = with_kern k (upd_gbls f s)"
  "upd_gbls f (upd_gbls g s) = upd_gbls (\<lambda>x. f (g x)) s"
  by (simp_all add: upd_gbls_def cmd_at_def put_cmd_def with_kern_def)

section \<open>The inline functions of \<open>yar.h\<close> and \<open>cmd.h\<close>\<close>

definition cmdIsReady :: "'h globals_t \<Rightarrow> cmd_t \<Rightarrow> bool" where
  "cmdIsReady g c \<longleftrightarrow> g_readystrlen g = 0 \<or> g_readystrlen g = c_readycnt c"

definition decCmdsReadyCnt :: "'h globals_t \<Rightarrow> 'h globals_t" where
  "decCmdsReadyCnt g = (if g_readystrlen g \<noteq> 0 then g\<lparr>g_cmdsreadycnt := g_cmdsreadycnt g - 1\<rparr> else g)"

definition cmdIsRunning :: "cmd_t \<Rightarrow> bool" where
  "cmdIsRunning c \<longleftrightarrow> c_pid c \<noteq> -1"

text \<open>One byte to the command, with the time of the write kept in \<open>lastwrite\<close>.\<close>

definition cmdWriteChar :: "ptr \<Rightarrow> char \<Rightarrow> 'h sys \<Rightarrow> (int \<times> 'h sys) res" where
  "cmdWriteChar p ch s =
     bind_res (cmd_at s p) (\<lambda>c.
     bind_res (ttyWriteChar (c_cmdtty c) ch (Some (c_lastwrite c)) (s_kern s)) (\<lambda>(n, t, ts, k).
     Inr (n, put_cmd p (c\<lparr>c_cmdtty := t, c_lastwrite := (case ts of None \<Rightarrow> c_lastwrite c | Some x \<Rightarrow> x)\<rparr>)
               (with_kern k s))))"

definition monprintf :: "string \<Rightarrow> 'h sys \<Rightarrow> 'h sys" where
  "monprintf str s = (if tty_opens (m_tty (g_mon (s_gbls s))) \<noteq> 0 \<and> \<not> m_silent (g_mon (s_gbls s))
     then s\<lparr>s_monout := s_monout s @ str\<rparr> else s)"

text \<open>The signals \<open>sigAddTermSignals\<close> blocks, by their numbers on Linux.\<close>

definition SIGHUP  :: int where "SIGHUP = 1"
definition SIGINT  :: int where "SIGINT = 2"
definition SIGQUIT :: int where "SIGQUIT = 3"
definition SIGKILL :: int where "SIGKILL = 9"
definition SIGUSR1 :: int where "SIGUSR1 = 10"
definition SIGUSR2 :: int where "SIGUSR2 = 12"
definition SIGPIPE :: int where "SIGPIPE = 13"
definition SIGALRM :: int where "SIGALRM = 14"
definition SIGTERM :: int where "SIGTERM = 15"
definition SIGVTALRM :: int where "SIGVTALRM = 26"
definition SIGIO :: int where "SIGIO = 29"

end
