(* ===== verification/Cmd.thy ===== *)
theory Cmd
  imports Globals
begin

text \<open>
  The command object of \<open>cmd.c\<close>: relaying its output to the client tty and the broadcast tty
  through the circular line buffer, starting and stopping its process, creation, event
  registration and cleanup. Diagnostic output is left out except for the memory accesses of
  \<open>cmdDump\<close>. \<open>H\<close> are the operations of the table of commands, needed for \<open>HASH_COUNT\<close>.
\<close>

section \<open>The circular buffer\<close>

definition cmdbufNtoI :: "nat \<Rightarrow> nat" where
  "cmdbufNtoI n = n mod CMD_BUFSIZE"

definition cmdbufWrapped :: "nat \<Rightarrow> bool" where
  "cmdbufWrapped n \<longleftrightarrow> n \<ge> CMD_BUFSIZE"

definition cmdbufDataStart :: "nat \<Rightarrow> nat" where
  "cmdbufDataStart n = (if cmdbufWrapped n then cmdbufNtoI n else 0)"

text \<open>The character goes into the buffer and is counted.\<close>

definition cmd_store :: "char \<Rightarrow> cmd_t \<Rightarrow> cmd_t res" where
  "cmd_store ch c =
     assert_res (c_bufn c < SIZE_MAX) ''cmdttyProcessOutput'' (\<lambda>_.
     Inr (c\<lparr>c_buf := (c_buf c)[cmdbufNtoI (c_bufn c) := ch], c_bufn := c_bufn c + 1\<rparr>))"

text \<open>
  What is written for a complete line that ends at index \<open>eol\<close>: one or two stretches of the
  buffer; the whole buffer from the oldest byte on when the line was longer.
\<close>

definition line_segs :: "cmd_t \<Rightarrow> nat \<Rightarrow> string list" where
  "line_segs c eol =
     (if c_bufof c = 0 then
        (let start = cmdbufNtoI (c_bufstart c)
         in if start \<le> eol then [take (eol - start + 1) (drop start (c_buf c))]
            else [drop start (c_buf c), take (eol + 1) (c_buf c)])
      else (if eol + 1 < CMD_BUFSIZE then [drop (eol + 1) (c_buf c)] else [])
           @ [take (eol + 1) (c_buf c)])"

definition prefix_segs :: "'h globals_t \<Rightarrow> cmd_t \<Rightarrow> string list" where
  "prefix_segs g c =
     (case c_bcstprefix c of
        Some pre \<Rightarrow> if g_prefixbcst g \<and> c_bcstprefixlen c > 0 then [take (nat (c_bcstprefixlen c)) pre] else []
      | None \<Rightarrow> [])"

section \<open>Relaying output\<close>

text \<open>The ready string is matched against the output one character at a time.\<close>

definition match_ready :: "'h hashops \<Rightarrow> char \<Rightarrow> cmd_t \<Rightarrow> 'h globals_t \<Rightarrow> (cmd_t \<times> 'h globals_t) res" where
  "match_ready H ch c g =
     (if g_readystrlen g \<noteq> 0 \<and> c_readycnt c < g_readystrlen g then
        (case g_readystr g of
           None \<Rightarrow> Inl NullDeref
         | Some str \<Rightarrow>
             if c_readycnt c < 0 \<or> nat (c_readycnt c) \<ge> length str then Inl OutOfBounds
             else if str ! nat (c_readycnt c) = ch then
               (let c = c\<lparr>c_readycnt := c_readycnt c + 1\<rparr>
                in assert_res (c_readycnt c \<le> g_readystrlen g) ''cmdttyProcessOutput'' (\<lambda>_.
                   if c_readycnt c = g_readystrlen g then
                     (let g = g\<lparr>g_cmdsreadycnt := g_cmdsreadycnt g + 1\<rparr>
                      in assert_res (g_cmdsreadycnt g mod 2 ^ 32 \<le> int (hh_count H (g_cmds g)))
                           ''cmdttyProcessOutput'' (\<lambda>_. Inr (c, g)))
                   else Inr (c, g)))
             else Inr (c\<lparr>c_readycnt := 0\<rparr>, g))
      else Inr (c, g))"

text \<open>
  One line buffered character for the broadcast tty; \<open>tk\<close> is that tty with the kernel, \<open>i\<close>
  where the character went. The prefix does not count as data written.
\<close>

definition bcst_line :: "'h globals_t \<Rightarrow> char \<Rightarrow> nat \<Rightarrow> cmd_t \<Rightarrow> tty_t \<times> kern \<Rightarrow> (int \<times> cmd_t \<times> tty_t \<times> kern) res" where
  "bcst_line g ch i c tk =
     (let c = (if cmdbufNtoI (c_bufn c) = cmdbufNtoI (c_bufstart c)
               then c\<lparr>c_bufof := c_bufof c + 1\<rparr> else c)
      in if ch = newline then
           bind_res (put_seq ''cmdttyProcessOutput'' tty_put (prefix_segs g c) tk) (\<lambda>(_, tk).
           bind_res (put_seq ''cmdttyProcessOutput'' tty_put (line_segs c i) tk) (\<lambda>(n, tk).
           Inr (n, c\<lparr>c_bufof := 0, c_bufstart := c_bufn c\<rparr>, tk)))
         else Inr (0, c, tk))"

text \<open>The broadcast half of the relay.\<close>

definition bcst_output :: "'h globals_t \<Rightarrow> char \<Rightarrow> nat \<Rightarrow> cmd_t \<Rightarrow> tty_t \<times> kern \<Rightarrow> (int \<times> cmd_t \<times> tty_t \<times> kern) res" where
  "bcst_output g ch i c tk =
     (if \<not> g_bcstflg g then Inr (0, c, tk)
      else if \<not> g_linebufferbcst g then
        bind_res (tty_put [ch] tk) (\<lambda>(written, tk).
        if written \<noteq> 1 then Inl (NYI ''cmdttyProcessOutput'') else Inr (written, c, tk))
      else bcst_line g ch i c tk)"

text \<open>A character the command has written: ready string, buffer, client tty, broadcast tty.\<close>

definition cmd_output :: "'h hashops \<Rightarrow> ptr \<Rightarrow> char \<Rightarrow> 'h sys \<Rightarrow> (int \<times> 'h sys) res" where
  "cmd_output H p ch s =
     bind_res (cmd_at s p) (\<lambda>c.
     bind_res (match_ready H ch c (s_gbls s)) (\<lambda>(c, g).
     let i = cmdbufNtoI (c_bufn c)
     in bind_res (cmd_store ch c) (\<lambda>c.
        bind_res (tty_put [ch] (c_clttty c, s_kern s)) (\<lambda>(n, t, k).
        if n \<noteq> 1 then Inl (NYI ''cmdttyProcessOutput'')
        else bind_res (bcst_output g ch i (c\<lparr>c_clttty := t\<rparr>) (g_bcsttty g, k)) (\<lambda>(m, c, t, k).
          Inr (n + m, put_cmd p c (with_kern k (s\<lparr>s_gbls := g\<lparr>g_bcsttty := t\<rparr>\<rparr>))))))))"

definition cmdttyProcessOutput :: "'h hashops \<Rightarrow> ptr \<Rightarrow> 'h sys \<Rightarrow> (int \<times> 'h sys) res" where
  "cmdttyProcessOutput H p s =
     bind_res (cmd_at s p) (\<lambda>c.
     bind_res (ttyReadChar (c_cmdtty c) None 0 (s_kern s)) (\<lambda>(n, errno, ch, t, k).
     let s = put_cmd p (c\<lparr>c_cmdtty := t\<rparr>) (with_kern k s)
     in if n = 0 then Inl (NYI ''cmdttyProcessOutput'')
        else case ch of
          Some ch \<Rightarrow> cmd_output H p ch s
        | None \<Rightarrow> if errno \<noteq> E_AGAIN then Inl (NYI ''cmdttyProcessOutput'') else Inr (n, s)))"

text \<open>
  Reading until nothing is left. Each pass takes a character off the input queue of the
  command tty, so one pass more than the queue is long suffices.
\<close>

fun cmdttyDrain_fuel :: "nat \<Rightarrow> 'h hashops \<Rightarrow> ptr \<Rightarrow> 'h sys \<Rightarrow> 'h sys res" where
  "cmdttyDrain_fuel 0 H p s = Inl OutOfFuel"
| "cmdttyDrain_fuel (Suc m) H p s =
     bind_res (cmdttyProcessOutput H p s) (\<lambda>(n, s).
     if n > 0 then cmdttyDrain_fuel m H p s else Inr s)"

definition cmdttyDrain :: "'h hashops \<Rightarrow> ptr \<Rightarrow> 'h sys \<Rightarrow> 'h sys res" where
  "cmdttyDrain H p s =
     bind_res (cmd_at s p) (\<lambda>c.
     cmdttyDrain_fuel (Suc (length (k_inq (s_kern s) (tty_dfd (c_cmdtty c))))) H p s)"

section \<open>The dump of a command\<close>

text \<open>
  What \<open>cmdDump\<close> prints of the buffer. \<open>char n = cmdbufSize - start\<close> keeps eight bits of
  the difference, and both lengths are then passed as \<open>size_t\<close>. \<open>addr\<close> is the address of the
  buffer.
\<close>

definition dump_len :: "nat \<Rightarrow> int" where
  "dump_len start = sint (word_of_int (int CMD_BUFSIZE - int start) :: 8 word)"

definition cmdDump :: "nat \<Rightarrow> cmd_t \<Rightarrow> string res" where
  "cmdDump addr c =
     (if c_bufn c = 0 then Inr []
      else if \<not> cmdbufWrapped (c_bufn c) then
        bind_res (hexdump addr (c_buf c) (c_bufn c)) (\<lambda>(out, _). Inr out)
      else
        (let start = cmdbufDataStart (c_bufn c); n = dump_len start
         in bind_res (hexdump (addr + start) (drop start (c_buf c)) (nat (n mod 2 ^ 64))) (\<lambda>(out, _).
            bind_res (hexdump addr (c_buf c) (nat ((int CMD_BUFSIZE - n) mod 2 ^ 64))) (\<lambda>(out', _).
            Inr (out @ out')))))"

section \<open>Starting and stopping\<close>

text \<open>\<open>delaysec\<close>: the time \<open>nanosleep\<close> is asked for; interrupted sleeps are resumed.\<close>

definition delay_timespec :: "rat \<Rightarrow> timespec" where
  "delay_timespec d =
     (let sec = (if d \<ge> 1 then \<lfloor>d\<rfloor> else 0); frac = d - of_int sec
      in \<lparr>tv_sec = sec,
          tv_nsec = (if frac \<ge> 0 then \<lfloor>frac * of_nat NSEC_IN_SECOND\<rfloor> else \<lceil>frac * of_nat NSEC_IN_SECOND\<rceil>)\<rparr>)"

definition delaysec :: "rat \<Rightarrow> kern \<Rightarrow> kern" where
  "delaysec d k = (let t = delay_timespec d
     in k\<lparr>k_sleeps := k_sleeps k @ [of_int (tv_sec t) + of_int (tv_nsec t) / of_nat NSEC_IN_SECOND]\<rparr>)"

definition cmdRegisterProcessEvents :: "ptr \<Rightarrow> int \<Rightarrow> 'h sys \<Rightarrow> (bool \<times> 'h sys) res" where
  "cmdRegisterProcessEvents p epollfd s =
     assert_res (epollfd \<noteq> -1) ''cmdRegisterProcessEvents'' (\<lambda>_.
     bind_res (cmd_at s p) (\<lambda>c.
     assert_res (c_pidfd c \<noteq> -1 \<and> c_pidfded c = \<lparr>hdlr = Some H_cmdPidEvent, obj = Some (O_cmd p)\<rparr>)
       ''cmdRegisterProcessEvents'' (\<lambda>_.
     case sys_epoll_add (c_pidfd c) (Ed_pidfded p) (s_kern s) of (ok, k) \<Rightarrow>
       Inr (ok, with_kern k s))))"

definition login_shell :: "kern \<Rightarrow> string" where
  "login_shell k = (case k_env_shell k of
     Some sh \<Rightarrow> if sh \<noteq> [] then sh else ''/bin/sh'' | None \<Rightarrow> ''/bin/sh'')"

text \<open>
  The child's half of \<open>cmdStart\<close> is the process description: the tty it opens as its
  controlling terminal, raw mode, the delay, and the shell with the command line.
\<close>

definition cmdStart :: "ptr \<Rightarrow> bool \<Rightarrow> int \<Rightarrow> rat \<Rightarrow> 'h sys \<Rightarrow> (bool \<times> 'h sys) res" where
  "cmdStart p raw epollfd startdelay s =
     bind_res (cmd_at s p) (\<lambda>c.
     assert_res (tty_dfd (c_cmdtty c) \<noteq> -1 \<and> tty_sfd (c_cmdtty c) \<noteq> -1) ''cmdStart'' (\<lambda>_.
     if cmdIsRunning c then Inr (False, s)
     else case sys_fork (s_kern s) of
       (None, k) \<Rightarrow> Inl (Assert ''cmdStart'')
     | (Some cpid, k) \<Rightarrow>
         (case c_cmdline c of
            None \<Rightarrow> Inl NullDeref
          | Some cmdline \<Rightarrow>
              (let k = k\<lparr>k_procs := k_procs k @ [\<lparr>sp_pid = cpid, sp_tty = tty_path (c_cmdtty c), sp_raw = raw,
                     sp_delay = (if startdelay > 0 then startdelay else 0), sp_shell = login_shell k,
                     sp_cmdline = cmdline\<rparr>]\<rparr>
               in case sys_newfd k of (f, k) \<Rightarrow>
                 (let c = c\<lparr>c_pidfd := (case f of None \<Rightarrow> -1 | Some f \<Rightarrow> f), c_pid := cpid,
                            c_pidfded := \<lparr>hdlr = Some H_cmdPidEvent, obj = Some (O_cmd p)\<rparr>,
                            c_readycnt := 0\<rparr>
                  in bind_res (cmdRegisterProcessEvents p epollfd (put_cmd p c (with_kern k s)))
                       (\<lambda>(_, s). Inr (True, s)))))))"

text \<open>A command may stop when neither its client tty nor the broadcast tty is in use.\<close>

definition cmd_idle :: "cmd_t \<Rightarrow> 'h sys \<Rightarrow> bool res" where
  "cmd_idle c s =
     bind_res (ttyIdle (c_clttty c) (s_kern s)) (\<lambda>idle.
     if \<not> idle then Inr False else ttyIdle (g_bcsttty (s_gbls s)) (s_kern s))"

fun send_chars :: "ptr \<Rightarrow> string \<Rightarrow> 'h sys \<Rightarrow> 'h sys res" where
  "send_chars p [] s = Inr s"
| "send_chars p (ch # chs) s =
     bind_res (cmdWriteChar p ch s) (\<lambda>(n, s).
     if n \<noteq> 1 then Inl (NYI ''cmdStop'')
     else bind_res (cmd_at s p) (\<lambda>c. send_chars p chs (with_kern (delaysec (c_delay c) (s_kern s)) s)))"

text \<open>The stop string, after a newline; the command's own takes precedence.\<close>

definition send_stopstr :: "ptr \<Rightarrow> 'h sys \<Rightarrow> 'h sys res" where
  "send_stopstr p s =
     bind_res (cmd_at s p) (\<lambda>c.
     case (case c_stopstr c of Some str \<Rightarrow> Some str | None \<Rightarrow> g_stopstr (s_gbls s)) of
       None \<Rightarrow> Inr s
     | Some str \<Rightarrow>
         bind_res (cmdWriteChar p newline s) (\<lambda>(n, s).
         if n \<noteq> 1 then Inl (NYI ''cmdStop'') else send_chars p str s))"

text \<open>A command that stops or died is not ready any more.\<close>

definition drop_ready :: "string \<Rightarrow> ptr \<Rightarrow> 'h sys \<Rightarrow> 'h sys res" where
  "drop_ready site p s =
     bind_res (cmd_at s p) (\<lambda>c.
     if cmdIsReady (s_gbls s) c then
       (let s = upd_gbls decCmdsReadyCnt (put_cmd p (c\<lparr>c_readycnt := 0\<rparr>) s)
        in assert_res (g_cmdsreadycnt (s_gbls s) \<ge> 0) site (\<lambda>_. Inr s))
     else Inr s)"

definition pidfd_unwatch :: "string \<Rightarrow> int \<Rightarrow> int \<Rightarrow> kern \<Rightarrow> kern res" where
  "pidfd_unwatch site epollfd f k =
     (if epollfd \<noteq> -1 then
        (case sys_epoll_del f k of (ok, k) \<Rightarrow> assert_res ok site (\<lambda>_. Inr k))
      else Inr k)"

text \<open>
  Waiting for the child after \<open>SIGTERM\<close>: an interrupted \<open>poll\<close> is repeated, a timeout (100
  milliseconds) sends \<open>SIGKILL\<close> and waits again.
\<close>

fun kill_wait :: "poll_ans list \<Rightarrow> cmd_t \<Rightarrow> kern \<Rightarrow> kern res" where
  "kill_wait [] c k = Inr (k\<lparr>k_poll := []\<rparr>)"
| "kill_wait (P_ready # as) c k = Inr (k\<lparr>k_poll := as\<rparr>)"
| "kill_wait (P_intr # as) c k = kill_wait as c k"
| "kill_wait (P_err # as) c k = Inl (Assert ''cmdStop'')"
| "kill_wait (P_timeout # as) c k =
     bind_res (cmdDump 0 c) (\<lambda>_.
     case sys_kill (c_pid c) SIGKILL k of (ok, k) \<Rightarrow>
       assert_res ok ''cmdStop'' (\<lambda>_. kill_wait as c k))"

definition kill_cmd :: "cmd_t \<Rightarrow> kern \<Rightarrow> (int \<times> kern) res" where
  "kill_cmd c k =
     (case sys_kill (c_pid c) SIGTERM k of (ok, k) \<Rightarrow>
      assert_res ok ''cmdStop'' (\<lambda>_.
      bind_res (kill_wait (k_poll k) c k) (\<lambda>k.
      case sys_waitid k of
        (None, k) \<Rightarrow> Inl (Assert ''cmdStop'')
      | (Some status, k) \<Rightarrow> Inr (status, sys_close (c_pidfd c) k))))"

definition cmdStop :: "ptr \<Rightarrow> int \<Rightarrow> bool \<Rightarrow> 'h sys \<Rightarrow> (bool \<times> 'h sys) res" where
  "cmdStop p epollfd force s =
     bind_res (cmd_at s p) (\<lambda>c.
     if \<not> cmdIsRunning c then Inr (False, s)
     else bind_res (if force then Inr True else cmd_idle c s) (\<lambda>go.
       if \<not> go then Inr (False, s)
       else bind_res (send_stopstr p s) (\<lambda>s.
         bind_res (drop_ready ''cmdStop'' p s) (\<lambda>s.
         bind_res (cmd_at s p) (\<lambda>c.
         bind_res (pidfd_unwatch ''cmdStop'' epollfd (c_pidfd c) (s_kern s)) (\<lambda>k.
         bind_res (kill_cmd c k) (\<lambda>(status, k).
         Inr (True, put_cmd p (c\<lparr>c_exitstatus := status, c_pidfd := -1, c_pid := -1\<rparr>) (with_kern k s)))))))))"

section \<open>Creation and cleanup\<close>

definition cwdPrefix :: "'h globals_t \<Rightarrow> string \<Rightarrow> string" where
  "cwdPrefix g path = take (PATH_MAX - 1) ((case g_cwd g of None \<Rightarrow> ''(null)'' | Some d \<Rightarrow> d) @ ''/'' @ path)"

definition cmdInit ::
  "cmd_t \<Rightarrow> string option \<Rightarrow> string option \<Rightarrow> string option \<Rightarrow> rat \<Rightarrow> string option \<Rightarrow> string option \<Rightarrow> bool
   \<Rightarrow> 'h globals_t \<Rightarrow> (bool \<times> cmd_t) res" where
  "cmdInit this cmdstr name cmdline delay ttylink logp iszeroed g =
     (if logp \<noteq> None then Inl (NYI ''cmdInit'')
      else case (cmdstr, name, cmdline) of
        (Some cs, Some nm, Some cl) \<Rightarrow>
          (let c = (if \<not> iszeroed then cmd_zero else this);
               c = c\<lparr>c_cmdstr := Some cs, c_name := Some nm, c_bcstprefixlen := int (length nm) + 2,
                     c_bcstprefix := Some (nm @ '': ''), c_cmdline := Some cl, c_delay := delay,
                     c_log := logp, c_bufn := 0, c_bufstart := 0, c_bufof := 0, c_pid := -1,
                     c_pidfd := -1, c_exitstatus := -1, c_restartcnt := 0, c_restart := True,
                     c_deleteonexit := g_cmddelonexit g, c_lastwrite := timespec_zero,
                     c_readycnt := 0, c_pidfded := evnt_null\<rparr>;
               link = (case ttylink of Some l \<Rightarrow> l | None \<Rightarrow> cwdPrefix g nm)
           in bind_res (ttyInit (c_cmdtty c) None None None None None True) (\<lambda>(_, cmdtty).
              bind_res (ttyInit (c_clttty c) (Some link)
                          (Some (take (PATH_MAX - 1) (link @ ''.mon''))) (tty_link (m_tty (g_mon g)))
                          (Some (take (PATH_MAX - 1) (link @ ''.fs''))) (fs_mntpt (g_fs g)) True) (\<lambda>(_, clttty).
              Inr (True, c\<lparr>c_cmdtty := cmdtty, c_clttty := clttty\<rparr>))))
      | _ \<Rightarrow> Inl (Assert ''cmdInit''))"

definition cmdCreate :: "ptr \<Rightarrow> 'h sys \<Rightarrow> (bool \<times> 'h sys) res" where
  "cmdCreate p s =
     bind_res (cmd_at s p) (\<lambda>c.
     assert_res (c_cmdline c \<noteq> None) ''cmdCreate'' (\<lambda>_.
     bind_res (ttyCreate (T_clttty p) (c_clttty c)
                 \<lparr>hdlr = Some H_cmdCltttyEvent, obj = Some (O_cmd p)\<rparr>
                 \<lparr>hdlr = Some H_cmdCltttyNotify, obj = Some (O_cmd p)\<rparr> True (s_kern s)) (\<lambda>(ok, t, k).
     let c = c\<lparr>c_clttty := t\<rparr>; s = put_cmd p c (with_kern k s)
     in if \<not> ok then Inr (False, s)
        else bind_res (ttyCreate (T_cmdtty p) (c_cmdtty c)
                 \<lparr>hdlr = Some H_cmdCmdttyEvent, obj = Some (O_cmd p)\<rparr> evnt_null True (s_kern s)) (\<lambda>(ok, t, k).
             Inr (ok, put_cmd p (c\<lparr>c_cmdtty := t\<rparr>) (with_kern k s))))))"

definition cmdRegisterttyEvents :: "ptr \<Rightarrow> 'h sys \<Rightarrow> (bool \<times> 'h sys) res" where
  "cmdRegisterttyEvents p s =
     bind_res (cmd_at s p) (\<lambda>c.
     bind_res (ttyRegisterEvents (T_clttty p) (c_clttty c) (s_kern s)) (\<lambda>(ok, k).
     assert_res ok ''cmdRegisterttyEvents'' (\<lambda>_.
     bind_res (ttyRegisterEvents (T_cmdtty p) (c_cmdtty c) k) (\<lambda>(ok, k).
     assert_res ok ''cmdRegisterttyEvents'' (\<lambda>_. Inr (True, with_kern k s))))))"

definition cmdCleanup :: "ptr \<Rightarrow> 'h sys \<Rightarrow> (bool \<times> 'h sys) res" where
  "cmdCleanup p s =
     bind_res (cmdStop p (-1) True s) (\<lambda>(_, s).
     bind_res (cmd_at s p) (\<lambda>c.
     let (_, cmdtty, k) = ttyCleanup (c_cmdtty c) (s_kern s);
         (_, clttty, k) = ttyCleanup (c_clttty c) k
     in Inr (True, put_cmd p (c\<lparr>c_cmdtty := cmdtty, c_clttty := clttty, c_pidfd := -1, c_pid := -1,
          c_exitstatus := -1, c_cmdstr := None, c_name := None, c_cmdline := None, c_log := None,
          c_bcstprefix := None, c_bcstprefixlen := 0, c_bufn := 0, c_bufof := 0, c_restartcnt := 0,
          c_restart := False, c_deleteonexit := False, c_delay := 0, c_lastwrite := timespec_zero,
          c_pidfded := evnt_null\<rparr>) (with_kern k s))))"

end
