(* ===== verification/Life.thy ===== *)
theory Life
  imports Cmd
begin

text \<open>
  The end of the program: \<open>cleanup\<close> of \<open>main.c\<close>, which \<open>main\<close> registers with \<open>atexit\<close>, and
  \<open>exit\<close>. Handlers that may exit answer with a \<open>stop\<close>: a fault, or the exit status with the
  state \<open>cleanup\<close> left.
\<close>

datatype 'h stop = Fault fault | Exited int "'h sys"

definition lift_res :: "'a res \<Rightarrow> 'h stop + 'a" where
  "lift_res r = (case r of Inl e \<Rightarrow> Inl (Fault e) | Inr x \<Rightarrow> Inr x)"

lemma lift_res_simps [simp, res_simps]:
  "lift_res (Inl e) = Inl (Fault e)" "lift_res (Inr x) = Inr x"
  by (simp_all add: lift_res_def)

lemma lift_res_eq_Inr: "lift_res r = Inr x \<longleftrightarrow> r = Inr x"
  by (cases r) auto

lemma lift_res_eq_Inl: "lift_res r = Inl z \<longleftrightarrow> (\<exists>e. r = Inl e \<and> z = Fault e)"
  by (cases r) auto

definition assert_stop :: "bool \<Rightarrow> string \<Rightarrow> (unit \<Rightarrow> 'h stop + 'a) \<Rightarrow> 'h stop + 'a" where
  "assert_stop b site cont = (if b then cont () else Inl (Fault (Assert site)))"

lemma assert_stop_simps [simp, res_simps]:
  "assert_stop True site cont = cont ()" "assert_stop False site cont = Inl (Fault (Assert site))"
  by (simp_all add: assert_stop_def)

lemma assert_stop_eq_Inr: "assert_stop b site cont = Inr y \<longleftrightarrow> b \<and> cont () = Inr y"
  by (simp add: assert_stop_def)

section \<open>Cleaning up\<close>

text \<open>One command of the loop over the table: cleaned up, taken out and freed.\<close>

definition cleanup_cmd :: "'h hashops \<Rightarrow> ptr \<Rightarrow> 'h sys \<Rightarrow> 'h sys res" where
  "cleanup_cmd H p s =
     bind_res (cmdCleanup p s) (\<lambda>(_, s).
     free_cmd p (upd_gbls (\<lambda>g. g\<lparr>g_cmds := hh_del H (g_cmds g) p\<rparr>) s))"

definition monCleanup :: "'h sys \<Rightarrow> 'h sys" where
  "monCleanup s =
     (case ttyCleanup (m_tty (g_mon (s_gbls s))) (s_kern s) of (_, t, k) \<Rightarrow>
        upd_gbls (\<lambda>g. g\<lparr>g_mon := (g_mon g)\<lparr>m_tty := t, m_n := 0, m_fileptr := False\<rparr>\<rparr>) (with_kern k s))"

definition sigprocCleanup :: "'h sys \<Rightarrow> 'h sys" where
  "sigprocCleanup s =
     (if sg_sfd (g_sigproc (s_gbls s)) \<noteq> -1
      then upd_gbls (\<lambda>g. g\<lparr>g_sigproc := (g_sigproc g)\<lparr>sg_sfd := -1\<rparr>\<rparr>)
             (with_kern (sys_close (sg_sfd (g_sigproc (s_gbls s))) (s_kern s)) s)
      else s)"

text \<open>The log file: closed, and removed unless it is to be kept.\<close>

definition cleanup_logfile :: "'h sys \<Rightarrow> 'h sys res" where
  "cleanup_logfile s =
     (let g = s_gbls s
      in if g_logfile g then
           (if g_keeplog g then Inr (upd_gbls (\<lambda>g. g\<lparr>g_logfile := False\<rparr>) s)
            else case g_logpath g of
              None \<Rightarrow> Inl NullDeref
            | Some path \<Rightarrow> Inr (upd_gbls (\<lambda>g. g\<lparr>g_logfile := False\<rparr>)
                                (with_kern (sys_unlink path (s_kern s)) s)))
         else Inr s)"

text \<open>
  \<open>if (GBLS.logdir) { free(GBLS.logdir); GBLS.logpath = NULL; }\<close>: the pointer that is reset is
  the other one.
\<close>

definition cleanup_logdir :: "'h globals_t \<Rightarrow> 'h globals_t res" where
  "cleanup_logdir g =
     (case g_logdir g of
        None \<Rightarrow> Inr g
      | Some _ \<Rightarrow> if g_logdir_freed g then Inl DoubleFree
                  else Inr (g\<lparr>g_logdir_freed := True, g_logpath := None\<rparr>))"

text \<open>The strings owned by \<open>GBLS\<close>.\<close>

definition cleanup_strings :: "'h globals_t \<Rightarrow> 'h globals_t" where
  "cleanup_strings g =
     g\<lparr>g_logpath := None, g_initialcmdspecs := [],
       g_readystrlen := (if g_readystr g \<noteq> None then 0 else g_readystrlen g), g_readystr := None,
       g_stopstr := None, g_bcstttylink := None, g_monttylinkdir := None, g_fsmntptdir := None,
       g_cwd := None\<rparr>"

definition cleanup_bcst :: "'h sys \<Rightarrow> 'h sys" where
  "cleanup_bcst s =
     (if g_bcstflg (s_gbls s) then
        (case ttyCleanup (g_bcsttty (s_gbls s)) (s_kern s) of (_, t, k) \<Rightarrow>
           upd_gbls (\<lambda>g. g\<lparr>g_bcsttty := t\<rparr>) (with_kern k s))
      else s)"

definition cleanup :: "'h hashops \<Rightarrow> 'h sys \<Rightarrow> 'h sys res" where
  "cleanup H s =
     (let s = cleanup_bcst s
      in bind_res (fold_res (cleanup_cmd H) (hh_iter H (g_cmds (s_gbls s))) s) (\<lambda>s.
         let s = upd_gbls (\<lambda>g. g\<lparr>g_slowestcmd := None\<rparr>) s
         in bind_res (fsCleanup H (g_fs (s_gbls s))) (\<lambda>(_, fs).
            let s = monCleanup (upd_gbls (\<lambda>g. g\<lparr>g_fs := fs\<rparr>) s)
            in bind_res (cleanup_logfile s) (\<lambda>s.
               bind_res (cleanup_logdir (s_gbls s)) (\<lambda>g.
               Inr (sigprocCleanup (upd_gbls (\<lambda>_. cleanup_strings g) s)))))))"

text \<open>\<open>exit\<close> runs the \<open>atexit\<close> handler and ends the process.\<close>

definition exit_with :: "'h hashops \<Rightarrow> int \<Rightarrow> 'h sys \<Rightarrow> 'h stop + 'a" where
  "exit_with H status s = bind_res (lift_res (cleanup H s)) (\<lambda>s. Inl (Exited status s))"

text \<open>\<open>cleanup(); exit(EXIT_SUCCESS);\<close>\<close>

definition cleanup_and_exit :: "'h hashops \<Rightarrow> 'h sys \<Rightarrow> 'h stop + 'a" where
  "cleanup_and_exit H s = bind_res (lift_res (cleanup H s)) (exit_with H 0)"

end
