(* ===== verification/CmdSpec.thy ===== *)
theory CmdSpec
  imports Life
begin

text \<open>
  Command specifications, \<open>name,ttylink,log,delay,command line\<close>, and the table of commands:
  \<open>checkpath\<close>, \<open>cmdspecParse\<close> and \<open>GBLSAddCmd\<close> of \<open>main.c\<close>. \<open>strtod\<close> is a parameter: it
  answers the value and what it leaves in \<open>errno\<close> (0, or \<open>ERANGE\<close>). The last parameter of the C
  functions is the stream for messages; those to the monitor are kept, those to \<open>stderr\<close>
  left out, so it is a flag here.
\<close>

type_synonym strtod_t = "string \<Rightarrow> rat \<times> int"

text \<open>\<open>strsep\<close> at commas: the token, and the rest of the string if there was a comma.\<close>

fun strsep :: "string \<Rightarrow> string \<times> string option" where
  "strsep [] = ([], None)"
| "strsep (ch # chs) = (if ch = CHR '','' then ([], Some chs)
     else (case strsep chs of (tok, rest) \<Rightarrow> (ch # tok, rest)))"

text \<open>\<open>checkpath\<close> is only called with type 0; \<open>stat\<close> fails for a null path.\<close>

definition checkpath :: "string option \<Rightarrow> kern \<Rightarrow> bool" where
  "checkpath path k = (case path of None \<Rightarrow> False | Some p \<Rightarrow> sys_access p k)"

definition eprint_to :: "bool \<Rightarrow> string \<Rightarrow> 'h sys \<Rightarrow> 'h sys" where
  "eprint_to tomon msg s = (if tomon then monprintf msg s else s)"

record cmdspec =
  cs_name    :: string
  cs_cmdline :: string
  cs_delay   :: rat
  cs_ttylink :: "string option"
  cs_log     :: "string option"

definition opt_field :: "string \<Rightarrow> string option" where
  "opt_field tok = (if tok = [] then None else Some tok)"

definition pct_s :: "string option \<Rightarrow> string" where
  "pct_s p = (case p of None \<Rightarrow> ''(null)'' | Some str \<Rightarrow> str)"

text \<open>A token that must be followed by another one.\<close>

definition next_field :: "string \<Rightarrow> (string \<times> string) option" where
  "next_field str = (case strsep str of (tok, Some rest) \<Rightarrow> Some (tok, rest) | (_, None) \<Rightarrow> None)"

definition parse_delay :: "strtod_t \<Rightarrow> string \<Rightarrow> 'h globals_t \<Rightarrow> rat \<times> int" where
  "parse_delay strtod tok g = (if tok = [] then (g_defaultcmddelay g, 0) else strtod tok)"

definition cmdspecParse :: "strtod_t \<Rightarrow> bool \<Rightarrow> string \<Rightarrow> 'h sys \<Rightarrow> cmdspec option \<times> 'h sys" where
  "cmdspecParse strtod tomon cmdstr s =
     (let bad = (\<lambda>msg. (None, eprint_to tomon (''cmdspecParse: '' @ msg @ [newline]) s))
      in case next_field cmdstr of
        None \<Rightarrow> bad (''Bad command name: '' @ cmdstr)
      | Some (name, r1) \<Rightarrow> (case next_field r1 of
        None \<Rightarrow> bad (''Bad ttylink: '' @ cmdstr)
      | Some (link, r2) \<Rightarrow>
        if checkpath (opt_field link) (s_kern s) then bad (pct_s (opt_field link) @ '' already exists.'')
        else (case next_field r2 of
        None \<Rightarrow> bad (''Bad log path: '' @ cmdstr)
      | Some (logp, r3) \<Rightarrow> (case next_field r3 of
        None \<Rightarrow> bad (''Bad delay: '' @ cmdstr)
      | Some (dtok, cmdline) \<Rightarrow>
        (case parse_delay strtod dtok (s_gbls s) of (delay, errno) \<Rightarrow>
         if errno \<noteq> 0 then bad (''bad delay value: errno='' @ dec_int errno)
         else if cmdline = [] then bad (''bad cmdline: command must not be empty: '' @ cmdstr)
         else (Some \<lparr>cs_name = name, cs_cmdline = cmdline, cs_delay = delay,
                     cs_ttylink = opt_field link, cs_log = opt_field logp\<rparr>, s))))))"

section \<open>Adding a command\<close>

text \<open>The pace of the broadcast tty follows the command with the largest delay.\<close>

definition update_slowest :: "ptr \<Rightarrow> rat \<Rightarrow> 'h sys \<Rightarrow> 'h sys res" where
  "update_slowest p delay s =
     (case g_slowestcmd (s_gbls s) of
        None \<Rightarrow> Inr (upd_gbls (\<lambda>g. g\<lparr>g_slowestcmd := Some p\<rparr>) s)
      | Some q \<Rightarrow> bind_res (cmd_at s q) (\<lambda>slow.
          Inr (if delay > c_delay slow then upd_gbls (\<lambda>g. g\<lparr>g_slowestcmd := Some p\<rparr>) s else s)))"

text \<open>A new command: object, ttys, place in the table.\<close>

definition add_new_cmd :: "'h hashops \<Rightarrow> string \<Rightarrow> cmdspec \<Rightarrow> 'h sys \<Rightarrow> (ptr option \<times> 'h sys) res" where
  "add_new_cmd H cstr cs s =
     (let (p, s) = malloc_cmd cmd_zero s
      in bind_res (cmdInit cmd_zero (Some cstr) (Some (cs_name cs)) (Some (cs_cmdline cs)) (cs_delay cs)
                     (cs_ttylink cs) (cs_log cs) False (s_gbls s)) (\<lambda>(ok, c).
         if \<not> ok then bind_res (free_cmd p s) (\<lambda>s. Inr (None, s))
         else bind_res (cmdCreate p (put_cmd p c s)) (\<lambda>(ok, s).
           if \<not> ok then
             bind_res (cmd_at s p) (\<lambda>c.
             bind_res (cmdDump 0 c) (\<lambda>_.
             bind_res (cmdCleanup p s) (\<lambda>(_, s).
             bind_res (free_cmd p s) (\<lambda>s. Inr (None, s)))))
           else
             bind_res (update_slowest p (cs_delay cs) s) (\<lambda>s.
             Inr (Some p, upd_gbls (\<lambda>g. g\<lparr>g_cmds := hh_add H (g_cmds g) (cs_name cs) p\<rparr>) s)))))"

text \<open>
  \<open>GBLSAddCmd\<close>: the address of the new command, or \<open>None\<close>. In the message about a name in use
  the specification has already been cut at its first comma.
\<close>

definition GBLSAddCmd :: "'h hashops \<Rightarrow> strtod_t \<Rightarrow> bool \<Rightarrow> string \<Rightarrow> 'h sys \<Rightarrow> (ptr option \<times> 'h sys) res" where
  "GBLSAddCmd H strtod tomon cstr s =
     (case cmdspecParse strtod tomon cstr s of
        (None, s) \<Rightarrow> Inr (None, s)
      | (Some cs, s) \<Rightarrow>
          (case hh_find H (g_cmds (s_gbls s)) (cs_name cs) of
             None \<Rightarrow> add_new_cmd H cstr cs s
           | Some q \<Rightarrow>
               bind_res (cmd_at s q) (\<lambda>c.
               bind_res (cmdDump 0 c) (\<lambda>_.
               Inr (None, eprint_to tomon (''GBLSAddCmd: '' @ cs_name cs
                      @ '': command names must be unique. '' @ cs_name cs @ '' already used:'') s)))))"

end
