(* ===== verification/Handlers.thy ===== *)
theory Handlers
  imports Life
begin

text \<open>
  The event handlers of commands and of the broadcast tty: death of a command's process,
  its output, input from clients, opens and closes of the ttys. \<open>epollfd\<close> is passed as in the
  code; diagnostics are left out.
\<close>

definition has :: "32 word \<Rightarrow> 32 word \<Rightarrow> bool" where
  "has m evnts \<longleftrightarrow> evnts AND m \<noteq> 0"

definition clear :: "32 word \<Rightarrow> 32 word \<Rightarrow> 32 word" where
  "clear m evnts = evnts AND NOT m"

type_synonym 'h handled = "'h stop + (evnthdlrrc_t \<times> 'h sys)"

section \<open>Commands\<close>

text \<open>A command that is to be deleted when its process ends.\<close>

definition cmd_delete_on_exit :: "'h hashops \<Rightarrow> ptr \<Rightarrow> 'h sys \<Rightarrow> 'h handled" where
  "cmd_delete_on_exit H p s =
     bind_res (lift_res (cmd_at s p)) (\<lambda>c.
     case c_name c of
       None \<Rightarrow> Inl (Fault NullDeref)
     | Some name \<Rightarrow>
         (let found = hh_find H (g_cmds (s_gbls s)) name
          in bind_res (lift_res (cmdCleanup p s)) (\<lambda>(_, s).
             case found of
               None \<Rightarrow> Inr (EVNT_HDLR_SUCCESS, s)
             | Some q \<Rightarrow> assert_stop (q = p) ''cmdPidEvent'' (\<lambda>_.
                 bind_res (lift_res (free_cmd p (upd_gbls (\<lambda>g. g\<lparr>g_cmds := hh_del H (g_cmds g) p\<rparr>) s))) (\<lambda>s.
                 if hh_count H (g_cmds (s_gbls s)) = 0 \<and> g_exitonidle (s_gbls s)
                 then cleanup_and_exit H s
                 else Inr (EVNT_HDLR_SUCCESS, s))))))"

text \<open>A command that is to be started again, after a delay that depends on its exit status.\<close>

definition cmd_restart :: "ptr \<Rightarrow> int \<Rightarrow> 'h sys \<Rightarrow> 'h sys res" where
  "cmd_restart p epollfd s =
     bind_res (cmd_at s p) (\<lambda>c.
     if g_restart (s_gbls s) \<and> c_restart c then
       bind_res (cmdStart p True epollfd
                   (if c_exitstatus c = 0 then g_restartcmddelay (s_gbls s)
                    else g_errrestartcmddelay (s_gbls s)) s) (\<lambda>(ok, s).
       assert_res ok ''cmdPidEvent'' (\<lambda>_.
       bind_res (cmd_at s p) (\<lambda>c. Inr (put_cmd p (c\<lparr>c_restartcnt := c_restartcnt c + 1\<rparr>) s))))
     else Inr s)"

text \<open>What the handler does first: the process is reaped and forgotten.\<close>

definition cmd_reap :: "ptr \<Rightarrow> int \<Rightarrow> 'h sys \<Rightarrow> 'h sys res" where
  "cmd_reap p epollfd s =
     bind_res (cmd_at s p) (\<lambda>c.
     case sys_waitid (s_kern s) of
       (None, k) \<Rightarrow> Inl (Assert ''cmdPidEvent'')
     | (Some status, k) \<Rightarrow>
         bind_res (pidfd_unwatch ''cmdPidEvent'' epollfd (c_pidfd c) k) (\<lambda>k.
         drop_ready ''cmdPidEvent'' p
           (put_cmd p (c\<lparr>c_exitstatus := status, c_pidfd := -1, c_pid := -1\<rparr>) (with_kern k s))))"

definition cmdPidEvent :: "'h hashops \<Rightarrow> ptr \<Rightarrow> 32 word \<Rightarrow> int \<Rightarrow> 'h sys \<Rightarrow> 'h handled" where
  "cmdPidEvent H p evnts epollfd s =
     (if has EPOLLIN evnts then
        bind_res (lift_res (cmd_reap p epollfd s)) (\<lambda>s.
        bind_res (lift_res (cmd_at s p)) (\<lambda>c.
        if c_deleteonexit c then cmd_delete_on_exit H p s
        else bind_res (lift_res (cmd_restart p epollfd s)) (\<lambda>s.
          assert_stop (clear EPOLLIN evnts = 0) ''cmdPidEvent'' (\<lambda>_. Inr (EVNT_HDLR_SUCCESS, s)))))
      else assert_stop (evnts = 0) ''cmdPidEvent'' (\<lambda>_. Inr (EVNT_HDLR_SUCCESS, s)))"

text \<open>The command's tty hung up: what is left is relayed and the descriptor closed.\<close>

definition cmdtty_hup :: "'h hashops \<Rightarrow> ptr \<Rightarrow> int \<Rightarrow> 'h sys \<Rightarrow> 'h sys res" where
  "cmdtty_hup H p epollfd s =
     bind_res (cmd_at s p) (\<lambda>c.
     let f = tty_dfd (c_cmdtty c)
     in bind_res (cmdttyDrain H p s) (\<lambda>s.
        case sys_epoll_del f (s_kern s) of (ok, k) \<Rightarrow>
          assert_res ok ''cmdCmdttyEvent'' (\<lambda>_.
          let s = with_kern (sys_close f k) s
          in bind_res (cmd_at s p) (\<lambda>c. bind_res (cmdDump 0 c) (\<lambda>_. Inr s)))))"

definition cmdCmdttyEvent :: "'h hashops \<Rightarrow> ptr \<Rightarrow> 32 word \<Rightarrow> int \<Rightarrow> 'h sys \<Rightarrow> (evnthdlrrc_t \<times> 'h sys) res" where
  "cmdCmdttyEvent H p evnts epollfd s =
     bind_res (cmd_at s p) (\<lambda>c.
     assert_res (ttyIsCmdtty (c_cmdtty c)) ''cmdCmdttyEvent'' (\<lambda>_.
     bind_res (if has EPOLLIN evnts
               then bind_res (cmdttyProcessOutput H p s) (\<lambda>(_, s). Inr (clear EPOLLIN evnts, s))
               else Inr (evnts, s)) (\<lambda>(evnts, s).
     bind_res (if has EPOLLHUP evnts then cmdtty_hup H p epollfd s else Inr s) (\<lambda>s.
     Inr (EVNT_HDLR_SUCCESS, s)))))"

text \<open>
  A byte from a client: read when the command is ready and its pace allows, and written to
  the command. The test \<open>if (n)\<close> also takes a failed read (-1) for a byte; \<open>c\<close> is then
  not assigned.
\<close>

definition cmdCltttyEvent :: "ptr \<Rightarrow> 32 word \<Rightarrow> int \<Rightarrow> 'h sys \<Rightarrow> (evnthdlrrc_t \<times> 'h sys) res" where
  "cmdCltttyEvent p evnts epollfd s =
     bind_res (cmd_at s p) (\<lambda>c.
     assert_res (ttyIsClttty (c_clttty c)) ''cmdCltttyEvent'' (\<lambda>_.
     if has EPOLLIN evnts \<and> cmdIsReady (s_gbls s) c then
       bind_res (ttyReadChar (c_clttty c) (Some (c_lastwrite c)) (c_delay c) (s_kern s)) (\<lambda>(n, errno, ch, t, k).
       let s = put_cmd p (c\<lparr>c_clttty := t\<rparr>) (with_kern k s)
       in if n = 0 then Inr (EVNT_HDLR_SUCCESS, s)
          else case ch of
            None \<Rightarrow> Inl UninitRead
          | Some ch \<Rightarrow>
              bind_res (cmdWriteChar p ch s) (\<lambda>(n, s).
              if n \<noteq> 1 then Inl (NYI ''cmdCltttyEvent'')
              else bind_res (cmdStop p epollfd False s) (\<lambda>(_, s). Inr (EVNT_HDLR_SUCCESS, s))))
     else Inr (EVNT_HDLR_SUCCESS, s)))"

text \<open>A client opened or closed the client tty.\<close>

definition cmdCltttyNotify :: "ptr \<Rightarrow> 32 word \<Rightarrow> int \<Rightarrow> 'h sys \<Rightarrow> (evnthdlrrc_t \<times> 'h sys) res" where
  "cmdCltttyNotify p ievents epollfd s =
     (if ievents = IN_OPEN then
        bind_res (cmdStart p True epollfd 0 s) (\<lambda>(_, s). Inr (EVNT_HDLR_SUCCESS, s))
      else if ievents = IN_CLOSE_WRITE \<or> ievents = IN_CLOSE_NOWRITE then
        bind_res (cmdStop p epollfd False s) (\<lambda>(_, s). Inr (EVNT_HDLR_SUCCESS, s))
      else Inl (NYI ''cmdCltttyNotify''))"

section \<open>The broadcast tty\<close>

definition bcstttyNotify :: "'h hashops \<Rightarrow> 32 word \<Rightarrow> int \<Rightarrow> 'h sys \<Rightarrow> (evnthdlrrc_t \<times> 'h sys) res" where
  "bcstttyNotify H ievents epollfd s =
     (let cmds = hh_iter H (g_cmds (s_gbls s))
      in if ievents = IN_OPEN then
           bind_res (fold_res (\<lambda>p s. bind_res (cmdStart p True epollfd 0 s) (\<lambda>(_, s). Inr s)) cmds s)
             (\<lambda>s. Inr (EVNT_HDLR_SUCCESS, s))
         else if ievents = IN_CLOSE_WRITE \<or> ievents = IN_CLOSE_NOWRITE then
           bind_res (fold_res (\<lambda>p s. bind_res (cmdStop p epollfd False s) (\<lambda>(_, s). Inr s)) cmds s)
             (\<lambda>s. Inr (EVNT_HDLR_SUCCESS, s))
         else Inl (NYI ''bcstttyNotify''))"

text \<open>One byte to every command; the number of commands it was written to.\<close>

definition GBLSCmdsWriteChar :: "'h hashops \<Rightarrow> char \<Rightarrow> 'h sys \<Rightarrow> (int \<times> 'h sys) res" where
  "GBLSCmdsWriteChar H ch s =
     fold_res (\<lambda>p (cnt, s). bind_res (cmdWriteChar p ch s) (\<lambda>(n, s).
         if n \<noteq> 1 then Inl (NYI ''GBLSCmdsWriteChar'') else Inr (cnt + 1, s)))
       (hh_iter H (g_cmds (s_gbls s))) (0, s)"

definition bcstttyEvent :: "'h hashops \<Rightarrow> 32 word \<Rightarrow> 'h sys \<Rightarrow> (evnthdlrrc_t \<times> 'h sys) res" where
  "bcstttyEvent H evnts s =
     (if has EPOLLIN evnts then
        (let g = s_gbls s
         in if g_readystr g \<noteq> None \<and> g_cmdsreadycnt g mod 2 ^ 32 < int (hh_count H (g_cmds g))
            then Inr (EVNT_HDLR_SUCCESS, s)
            else case g_slowestcmd g of
              None \<Rightarrow> Inl NullDeref
            | Some q \<Rightarrow>
                bind_res (cmd_at s q) (\<lambda>slow.
                bind_res (ttyReadChar (g_bcsttty g) (Some (c_lastwrite slow)) (c_delay slow) (s_kern s))
                  (\<lambda>(n, errno, ch, t, k).
                let s = upd_gbls (\<lambda>g. g\<lparr>g_bcsttty := t\<rparr>) (with_kern k s)
                in if n = 0 then Inr (EVNT_HDLR_SUCCESS, s)
                   else case ch of
                     None \<Rightarrow> Inl UninitRead
                   | Some ch \<Rightarrow> bind_res (GBLSCmdsWriteChar H ch s) (\<lambda>(_, s). Inr (EVNT_HDLR_SUCCESS, s)))))
      else Inr (EVNT_HDLR_SUCCESS, s))"

definition bcstttyCreate :: "'h sys \<Rightarrow> (bool \<times> 'h sys) res" where
  "bcstttyCreate s =
     (if g_bcstflg (s_gbls s) then
        bind_res (ttyCreate T_bcst (g_bcsttty (s_gbls s))
                    \<lparr>hdlr = Some H_bcstttyEvent, obj = Some (O_tty T_bcst)\<rparr>
                    \<lparr>hdlr = Some H_bcstttyNotify, obj = Some (O_tty T_bcst)\<rparr> True (s_kern s)) (\<lambda>(ok, t, k).
        Inr (ok, upd_gbls (\<lambda>g. g\<lparr>g_bcsttty := t\<rparr>) (with_kern k s)))
      else Inr (True, s))"

definition bcstttyRegisterEvents :: "'h sys \<Rightarrow> 'h sys res" where
  "bcstttyRegisterEvents s =
     (if g_bcstflg (s_gbls s) then
        bind_res (ttyRegisterEvents T_bcst (g_bcsttty (s_gbls s)) (s_kern s)) (\<lambda>(_, k). Inr (with_kern k s))
      else Inr s)"

end
