(* ===== verification/Mon.thy ===== *)
theory Mon
  imports CmdSpec Handlers
begin

text \<open>
  The monitor of \<open>main.c\<close>: its tty, the line it collects, the table of its commands and what
  each does. What a client of the monitor sees is \<open>s_monout\<close>. The long help text of \<open>usage\<close>
  and the text of the debug dumps are not recorded there.
\<close>

datatype moncmd_t =
    MonHelp | MonDel | MonDrain | MonAdd | MonList | MonExit | MonIdleExit
  | MonToggleRestart | MonToggleLB | MonTogglePrefix | MonVerboseInc | MonVerboseDec | MonToggleSilent

record mon_cmd_desc =
  mc_name  :: string
  mc_usage :: "string option"
  mc_cmd   :: moncmd_t

definition tab :: char where
  "tab = CHR 0x09"

definition MonCmds :: "mon_cmd_desc list" where
  "MonCmds =
    [\<lparr>mc_name = ''help'', mc_usage = Some ''display 'yar' usage documentation'', mc_cmd = MonHelp\<rparr>,
     \<lparr>mc_name = ''del'', mc_usage = Some (''delete command line instance requires command name:''
        @ [newline, tab, tab] @ ''<name>''), mc_cmd = MonDel\<rparr>,
     \<lparr>mc_name = ''d'', mc_usage = None, mc_cmd = MonDel\<rparr>,
     \<lparr>mc_name = ''drain'', mc_usage = Some (''drain client and broadcast ttys.'' @ [newline]), mc_cmd = MonDrain\<rparr>,
     \<lparr>mc_name = ''add'', mc_usage = Some (''add command line instance requires command specification:''
        @ [newline, tab, tab] @ ''<name,pty,log,delay,command line>''), mc_cmd = MonAdd\<rparr>,
     \<lparr>mc_name = ''a'', mc_usage = None, mc_cmd = MonAdd\<rparr>,
     \<lparr>mc_name = ''list'', mc_usage = Some (''[-l|-d] list current command line instances.''
        @ [newline, tab, tab] @ ''-l long listing, -d debug dump.''), mc_cmd = MonList\<rparr>,
     \<lparr>mc_name = ''l'', mc_usage = None, mc_cmd = MonList\<rparr>,
     \<lparr>mc_name = ''exit'', mc_usage = Some ''exit yar'', mc_cmd = MonExit\<rparr>,
     \<lparr>mc_name = ''e'', mc_usage = None, mc_cmd = MonExit\<rparr>,
     \<lparr>mc_name = ''idleexit'', mc_usage = Some ''stop command line restarts and exit when command lines terminate'',
        mc_cmd = MonIdleExit\<rparr>,
     \<lparr>mc_name = ''ie'', mc_usage = None, mc_cmd = MonIdleExit\<rparr>,
     \<lparr>mc_name = ''restart'', mc_usage = Some ''toggle restart behavior'', mc_cmd = MonToggleRestart\<rparr>,
     \<lparr>mc_name = ''r'', mc_usage = None, mc_cmd = MonToggleRestart\<rparr>,
     \<lparr>mc_name = ''quit'', mc_usage = None, mc_cmd = MonExit\<rparr>,
     \<lparr>mc_name = ''q'', mc_usage = None, mc_cmd = MonExit\<rparr>,
     \<lparr>mc_name = ''line'', mc_usage = Some ''toggle broadcast tty line buffering'', mc_cmd = MonToggleLB\<rparr>,
     \<lparr>mc_name = ''lb'', mc_usage = None, mc_cmd = MonToggleLB\<rparr>,
     \<lparr>mc_name = ''pre'', mc_usage = Some ''toggle broadcast tty prefixing'', mc_cmd = MonTogglePrefix\<rparr>,
     \<lparr>mc_name = ''p'', mc_usage = None, mc_cmd = MonTogglePrefix\<rparr>,
     \<lparr>mc_name = ''v+'', mc_usage = Some ''increase debug verbosity'', mc_cmd = MonVerboseInc\<rparr>,
     \<lparr>mc_name = ''v-'', mc_usage = Some ''decrease debug verbosity'', mc_cmd = MonVerboseDec\<rparr>,
     \<lparr>mc_name = ''silent'', mc_usage = Some ''unsilence/silence monitor output'', mc_cmd = MonToggleSilent\<rparr>]"

text \<open>\<open>monusage\<close> on the monitor's own stream.\<close>

definition monusage :: "'h sys \<Rightarrow> 'h sys" where
  "monusage s = fold (\<lambda>d s. case mc_usage d of
       None \<Rightarrow> s
     | Some u \<Rightarrow> monprintf ([tab, CHR 0x27] @ mc_name d @ [CHR 0x27, tab] @ u @ [newline]) s) MonCmds s"

definition monGreeting :: "'h sys \<Rightarrow> 'h sys" where
  "monGreeting s = monprintf (''yar['' @ dec_int (g_pid (s_gbls s)) @ '']> '') s"

section \<open>The line buffer\<close>

text \<open>The string that starts at \<open>&line[i]\<close>; without a terminator it runs off the array.\<close>

definition line_cstr :: "string \<Rightarrow> nat \<Rightarrow> string res" where
  "line_cstr line i =
     (if nul \<in> set (drop i line) then Inr (takeWhile (\<lambda>ch. ch \<noteq> nul) (drop i line)) else Inl OutOfBounds)"

definition mon_arg :: "nat \<Rightarrow> 'h sys \<Rightarrow> string res" where
  "mon_arg args s = line_cstr (m_line (g_mon (s_gbls s))) args"

text \<open>\<open>strncmp(a, b, n) == 0\<close>: the first \<open>n\<close> characters agree, up to and with a terminator.\<close>

definition strncmp_eq :: "string \<Rightarrow> string \<Rightarrow> nat \<Rightarrow> bool" where
  "strncmp_eq a b n \<longleftrightarrow> take n (a @ [nul]) = take n (b @ [nul])"

section \<open>The commands\<close>

type_synonym 'h mon_result = "'h stop + (int \<times> 'h sys)"

definition monToggleSilent :: "'h sys \<Rightarrow> int \<times> 'h sys" where
  "monToggleSilent s =
     (let s = upd_gbls (\<lambda>g. g\<lparr>g_mon := (g_mon g)\<lparr>m_silent := \<not> m_silent (g_mon g)\<rparr>\<rparr>) s
      in (0, monprintf (if m_silent (g_mon (s_gbls s)) then ''monitor silent: true'' @ [newline]
                        else ''monitor silent: false'' @ [newline]) s))"

definition monToggleRestart :: "'h sys \<Rightarrow> int \<times> 'h sys" where
  "monToggleRestart s =
     (let s = upd_gbls (\<lambda>g. g\<lparr>g_restart := \<not> g_restart g\<rparr>) s
      in (0, monprintf (if g_restart (s_gbls s) then ''global restart commands: true'' @ [newline]
                        else ''global restart commands: false'' @ [newline]) s))"

definition monToggleLB :: "'h sys \<Rightarrow> int \<times> 'h sys" where
  "monToggleLB s =
     (let s = upd_gbls (\<lambda>g. g\<lparr>g_linebufferbcst := \<not> g_linebufferbcst g\<rparr>) s
      in (0, monprintf (if g_linebufferbcst (s_gbls s) then ''line buffer broadcast output: true'' @ [newline]
                        else ''line buffer broadcast output: false'' @ [newline]) s))"

definition monTogglePrefix :: "'h sys \<Rightarrow> int \<times> 'h sys" where
  "monTogglePrefix s =
     (let s = upd_gbls (\<lambda>g. g\<lparr>g_prefixbcst := \<not> g_prefixbcst g\<rparr>) s
      in (0, monprintf (if g_prefixbcst (s_gbls s) then ''prefix broadcast output: true'' @ [newline]
                        else ''prefix broadcast output : false'' @ [newline]) s))"

text \<open>The verbosity goes up and down by one and never below zero.\<close>

definition monVerbose :: "int \<Rightarrow> 'h sys \<Rightarrow> int \<times> 'h sys" where
  "monVerbose d s =
     (let s = upd_gbls (\<lambda>g. g\<lparr>g_verbose := g_verbose g + d\<rparr>) s;
          s = upd_gbls (\<lambda>g. if g_verbose g < 0 then g\<lparr>g_verbose := 0\<rparr> else g) s
      in (0, monprintf (''verbosity: '' @ dec_int (g_verbose (s_gbls s)) @ [newline]) s))"

definition monIdleExit :: "'h hashops \<Rightarrow> 'h sys \<Rightarrow> 'h mon_result" where
  "monIdleExit H s =
     (let s = upd_gbls (\<lambda>g. g\<lparr>g_exitonidle := True, g_cmddelonexit := True\<rparr>) s
      in if hh_count H (g_cmds (s_gbls s)) = 0 then cleanup_and_exit H s
         else bind_res (lift_res (fold_res (\<lambda>p s. bind_res (cmd_at s p) (\<lambda>c.
                Inr (put_cmd p (c\<lparr>c_deleteonexit := True\<rparr>) s))) (hh_iter H (g_cmds (s_gbls s))) s)) (\<lambda>s.
              Inr (0, s)))"

text \<open>A broadcast tty that cannot be created ends the program (\<open>EEXIT\<close>).\<close>

definition bcstttyCreate_or_exit :: "'h hashops \<Rightarrow> 'h sys \<Rightarrow> 'h stop + 'h sys" where
  "bcstttyCreate_or_exit H s =
     bind_res (lift_res (bcstttyCreate s)) (\<lambda>(ok, s). if ok then Inr s else exit_with H 1 s)"

text \<open>After the command has been added: a broadcast tty when there was none, else a start.\<close>

definition mon_add_bcst :: "'h hashops \<Rightarrow> ptr \<Rightarrow> int \<Rightarrow> 'h sys \<Rightarrow> 'h stop + 'h sys" where
  "mon_add_bcst H p epollfd s =
     (if \<not> g_bcstflg (s_gbls s) \<and> hh_count H (g_cmds (s_gbls s)) > 1 then
        bind_res (bcstttyCreate_or_exit H (upd_gbls (\<lambda>g. g\<lparr>g_bcstflg := True\<rparr>) s)) (\<lambda>s.
        lift_res (bcstttyRegisterEvents s))
      else if tty_opens (g_bcsttty (s_gbls s)) > 0 then
        bind_res (lift_res (cmdStart p True epollfd 0 s)) (\<lambda>(_, s). Inr s)
      else Inr s)"

definition monAdd :: "'h hashops \<Rightarrow> strtod_t \<Rightarrow> nat \<Rightarrow> int \<Rightarrow> 'h sys \<Rightarrow> 'h mon_result" where
  "monAdd H strtod args epollfd s =
     (if args = 0 then Inr (-1, monprintf (''USAGE: add <cmd string>'' @ [newline]) s)
      else bind_res (lift_res (mon_arg args s)) (\<lambda>cmdstr.
        bind_res (lift_res (GBLSAddCmd H strtod True cmdstr s)) (\<lambda>(added, s).
        case added of
          None \<Rightarrow> Inr (-1, monprintf (''failed to add '' @ cmdstr @ [newline]) s)
        | Some p \<Rightarrow>
            bind_res (lift_res (cmdRegisterttyEvents p s)) (\<lambda>(ok, s).
            if \<not> ok then Inr (-1, monprintf (''failed to register ttyEvents ('' @ cmdstr @ '')'' @ [newline]) s)
            else bind_res (mon_add_bcst H p epollfd s) (\<lambda>s. Inr (0, s))))))"

definition monDel :: "'h hashops \<Rightarrow> nat \<Rightarrow> 'h sys \<Rightarrow> 'h mon_result" where
  "monDel H args s =
     (if args = 0 then Inr (-1, monprintf (''USAGE: del <cmd name>'' @ [newline]) s)
      else bind_res (lift_res (mon_arg args s)) (\<lambda>name.
        case hh_find H (g_cmds (s_gbls s)) name of
          None \<Rightarrow> Inr (-1, monprintf (name @ '' is not a current command.'' @ [newline]) s)
        | Some p \<Rightarrow>
            bind_res (lift_res (cleanup_cmd H p s)) (\<lambda>s.
            if hh_count H (g_cmds (s_gbls s)) = 0 \<and> g_exitonidle (s_gbls s)
            then cleanup_and_exit H s else Inr (0, s))))"

definition drain_cmd :: "'h hashops \<Rightarrow> ptr \<Rightarrow> 'h sys \<Rightarrow> 'h sys res" where
  "drain_cmd H p s =
     bind_res (cmdttyDrain H p s) (\<lambda>s.
     bind_res (cmd_at s p) (\<lambda>c.
     Inr (put_cmd p (c\<lparr>c_bufstart := 0, c_bufn := 0\<rparr>) (with_kern (ttySubFlush (c_clttty c) (s_kern s)) s))))"

definition monDrain :: "'h hashops \<Rightarrow> 'h sys \<Rightarrow> (int \<times> 'h sys) res" where
  "monDrain H s =
     bind_res (fold_res (drain_cmd H) (hh_iter H (g_cmds (s_gbls s))) s) (\<lambda>s.
     Inr (0, with_kern (ttySubFlush (g_bcsttty (s_gbls s)) (s_kern s)) s))"

text \<open>One line of the listing; with \<open>-d\<close> the debug dump follows the name.\<close>

definition list_cmd :: "bool \<Rightarrow> bool \<Rightarrow> ptr \<Rightarrow> 'h sys \<Rightarrow> 'h sys res" where
  "list_cmd lflg dflg p s =
     bind_res (cmd_at s p) (\<lambda>c.
     let s = monprintf (pct_s (c_name c)) s
     in if lflg then
          Inr (monprintf ('' tty:'' @ pct_s (tty_link (c_clttty c)) @ '' pid:'' @ dec_int (c_pid c)
                 @ '' restarts:'' @ dec_int (c_restartcnt c) @ '' cmdline:'' @ pct_s (c_cmdline c) @ [newline]) s)
        else if dflg then
          (if tty_opens (m_tty (g_mon (s_gbls s))) \<noteq> 0 then bind_res (cmdDump 0 c) (\<lambda>_. Inr s) else Inr s)
        else Inr (monprintf [newline] s))"

definition monList :: "'h hashops \<Rightarrow> nat \<Rightarrow> 'h sys \<Rightarrow> (int \<times> 'h sys) res" where
  "monList H args s =
     bind_res (if args \<noteq> 0 then mon_arg args s else Inr []) (\<lambda>flgs.
     bind_res (fold_res (list_cmd (strncmp_eq flgs ''-l'' 3) (strncmp_eq flgs ''-d'' 3))
                 (hh_iter H (g_cmds (s_gbls s))) s) (\<lambda>s.
     Inr (0, s)))"

definition mon_dispatch ::
  "'h hashops \<Rightarrow> strtod_t \<Rightarrow> moncmd_t \<Rightarrow> nat \<Rightarrow> int \<Rightarrow> 'h sys \<Rightarrow> 'h mon_result" where
  "mon_dispatch H strtod cmd args epollfd s =
     (case cmd of
        MonHelp \<Rightarrow> Inr (0, s)
      | MonDel \<Rightarrow> monDel H args s
      | MonDrain \<Rightarrow> lift_res (monDrain H s)
      | MonAdd \<Rightarrow> monAdd H strtod args epollfd s
      | MonList \<Rightarrow> lift_res (monList H args s)
      | MonExit \<Rightarrow> exit_with H 0 s
      | MonIdleExit \<Rightarrow> monIdleExit H s
      | MonToggleRestart \<Rightarrow> Inr (monToggleRestart s)
      | MonToggleLB \<Rightarrow> Inr (monToggleLB s)
      | MonTogglePrefix \<Rightarrow> Inr (monTogglePrefix s)
      | MonVerboseInc \<Rightarrow> Inr (monVerbose 1 s)
      | MonVerboseDec \<Rightarrow> Inr (monVerbose (-1) s)
      | MonToggleSilent \<Rightarrow> Inr (monToggleSilent s))"

section \<open>Processing a line\<close>

text \<open>
  The scan of \<open>monProcess\<close>: where the first word ends, and whether a blank ended it; \<open>None\<close>
  when the whole array has neither.
\<close>

definition word_end :: "string \<Rightarrow> (nat \<times> bool) option" where
  "word_end line =
     (let w = length (takeWhile (\<lambda>ch. ch \<noteq> CHR '' '' \<and> ch \<noteq> nul) (take MON_LINELEN line))
      in if w < length (take MON_LINELEN line) then Some (w, line ! w = CHR '' '') else None)"

definition put_line :: "string \<Rightarrow> 'h sys \<Rightarrow> 'h sys" where
  "put_line line s = upd_gbls (\<lambda>g. g\<lparr>g_mon := (g_mon g)\<lparr>m_line := line\<rparr>\<rparr>) s"

definition mon_unknown :: "string \<Rightarrow> 'h sys \<Rightarrow> 'h sys" where
  "mon_unknown word s =
     monGreeting (monprintf (''FAILED'' @ [newline])
       (monusage (monprintf (''yar: '' @ word @ '': command not found'' @ [newline]) s)))"

definition monProcess :: "'h hashops \<Rightarrow> strtod_t \<Rightarrow> int \<Rightarrow> 'h sys \<Rightarrow> 'h stop + 'h sys" where
  "monProcess H strtod epollfd s =
     (let line = m_line (g_mon (s_gbls s))
      in if m_n (g_mon (s_gbls s)) \<le> 0 then Inr s
         else case word_end line of
           None \<Rightarrow> Inl (Fault OutOfBounds)
         | Some (i, blank) \<Rightarrow>
             (let s = (if blank then put_line (line[i := nul]) s else s);
                  args = (if blank then i + 1 else 0);
                  word = take i line
              in case find (\<lambda>d. strncmp_eq word (mc_name d) (i + 1)) MonCmds of
                   Some d \<Rightarrow> bind_res (mon_dispatch H strtod (mc_cmd d) args epollfd s) (\<lambda>(rc, s).
                     Inr (monGreeting (monprintf ((if rc = 0 then ''OK'' else ''FAILED'') @ [newline]) s)))
                 | None \<Rightarrow> Inr (mon_unknown word s)))"

section \<open>The handlers\<close>

definition set_mon_n :: "int \<Rightarrow> 'h sys \<Rightarrow> 'h sys" where
  "set_mon_n n s = upd_gbls (\<lambda>g. g\<lparr>g_mon := (g_mon g)\<lparr>m_n := n\<rparr>\<rparr>) s"

text \<open>
  A byte from the monitor's client. The test that is to ignore a line too long for the
  buffer reads \<open>line[MON_LINELEN]\<close>, which does not exist.
\<close>

definition monEvent :: "'h hashops \<Rightarrow> strtod_t \<Rightarrow> 32 word \<Rightarrow> int \<Rightarrow> 'h sys \<Rightarrow> 'h handled" where
  "monEvent H strtod evnts epollfd s =
     (if has EPOLLIN evnts then
        (let mon = g_mon (s_gbls s); curn = m_n mon
         in assert_stop (curn < int MON_LINELEN) ''monEvent'' (\<lambda>_.
            case sys_read1 (tty_dfd (m_tty mon)) (s_kern s) of
              (n, errno, None, k) \<Rightarrow> Inl (Fault (Assert ''monEvent''))
            | (n, errno, Some ch, k) \<Rightarrow>
                (let line = (m_line mon)[nat curn := ch];
                     s = put_line line (with_kern k s);
                     curn = curn + 1
                 in if curn = int MON_LINELEN then Inl (Fault OutOfBounds)
                    else if ch = newline then
                      bind_res (monProcess H strtod epollfd
                                  (put_line (line[nat (curn - 1) := nul]) (set_mon_n curn s))) (\<lambda>s.
                      Inr (EVNT_HDLR_SUCCESS, set_mon_n 0 s))
                    else Inr (EVNT_HDLR_SUCCESS, set_mon_n curn s))))
      else Inr (EVNT_HDLR_SUCCESS, s))"

definition monNotify :: "32 word \<Rightarrow> 'h sys \<Rightarrow> (evnthdlrrc_t \<times> 'h sys) res" where
  "monNotify ievents s =
     (if ievents = IN_OPEN then Inr (EVNT_HDLR_SUCCESS, monGreeting s)
      else if ievents = IN_CLOSE_WRITE \<or> ievents = IN_CLOSE_NOWRITE then Inr (EVNT_HDLR_SUCCESS, s)
      else Inl (NYI ''monNotify''))"

section \<open>Set-up\<close>

definition monTtyLink :: "string option \<Rightarrow> int \<Rightarrow> string option" where
  "monTtyLink dir pid =
     (let link = (case dir of None \<Rightarrow> [] | Some d \<Rightarrow> d @ ''/'') @ dec_int pid @ ''.mon''
      in if length link \<ge> PATH_MAX then None else Some link)"

text \<open>\<open>monInit\<close> overwrites the monitor, then names its tty; \<open>None\<close> stands for \<open>EEXIT\<close>.\<close>

definition monInit :: "bool \<Rightarrow> string option \<Rightarrow> 'h sys \<Rightarrow> 'h sys option res" where
  "monInit initdir dir s =
     (let mon = mon_zero\<lparr>m_ed := \<lparr>hdlr = Some H_monEvent, obj = Some O_mon\<rparr>, m_silent := True\<rparr>;
          set_tty = (\<lambda>link. bind_res (ttyInit (m_tty mon) link None None None None True) (\<lambda>(_, t).
            Inr (Some (upd_gbls (\<lambda>g. g\<lparr>g_mon := mon\<lparr>m_tty := t\<rparr>\<rparr>) s))))
      in if initdir then
           (case monTtyLink dir (g_pid (s_gbls s)) of None \<Rightarrow> Inr None | Some link \<Rightarrow> set_tty (Some link))
         else set_tty None)"

text \<open>\<open>fdopen_ok\<close> is what \<open>fdopen\<close> answers.\<close>

definition monttyCreate :: "bool \<Rightarrow> 'h sys \<Rightarrow> (bool \<times> 'h sys) res" where
  "monttyCreate fdopen_ok s =
     bind_res (ttyCreate T_mon (m_tty (g_mon (s_gbls s)))
                 \<lparr>hdlr = Some H_monEvent, obj = Some O_mon\<rparr> \<lparr>hdlr = Some H_monNotify, obj = Some O_mon\<rparr>
                 True (s_kern s)) (\<lambda>(ok, t, k).
     Inr (ok \<and> fdopen_ok,
          upd_gbls (\<lambda>g. g\<lparr>g_mon := (g_mon g)\<lparr>m_tty := t, m_fileptr := ok \<and> fdopen_ok\<rparr>\<rparr>) (with_kern k s)))"

definition monitorRegisterEvents :: "'h sys \<Rightarrow> 'h sys res" where
  "monitorRegisterEvents s =
     bind_res (ttyRegisterEvents T_mon (m_tty (g_mon (s_gbls s))) (s_kern s)) (\<lambda>(_, k). Inr (with_kern k s))"

end
