(* ===== verification/FsAlloc.thy ===== *)
theory FsAlloc
  imports Fs
begin

text \<open>
  Inode numbers as a pool: the locale states what the file system code relies on from its
  allocator, the interpretation shows that \<open>inoalloc\<close> and \<open>inofree\<close> provide it on the free
  list threaded through the inode table. \<open>clean\<close> is the one proviso of the code's own: an
  entry that still points at a file is refused when it comes up for allocation.
\<close>

section \<open>The interface\<close>

locale id_pool =
  fixes alloc :: "'s \<Rightarrow> (nat \<times> 's) res"
    and release :: "nat \<Rightarrow> 's \<Rightarrow> (bool \<times> 's) res"
    and pool :: "'s \<Rightarrow> nat list \<Rightarrow> bool"
    and cap :: "'s \<Rightarrow> nat"
    and clean :: "'s \<Rightarrow> nat \<Rightarrow> bool"
  assumes pool_ids: "pool s is \<Longrightarrow> distinct is \<and> (\<forall>i \<in> set is. i < cap s)"
    and alloc_hd: "pool s (i # is) \<Longrightarrow> clean s i \<Longrightarrow>
      \<exists>s'. alloc s = Inr (i, s') \<and> pool s' is \<and> cap s' = cap s \<and> clean s' = clean s"
    and alloc_none: "pool s [] \<Longrightarrow> \<exists>e. alloc s = Inl e"
    and release_push: "pool s is \<Longrightarrow> i < cap s \<Longrightarrow> i \<notin> set is \<Longrightarrow>
      \<exists>s'. release i s = Inr (True, s') \<and> pool s' (i # is) \<and> cap s' = cap s \<and> clean s' = clean s"
begin

text \<open>A number handed out is not in the pool any more, so it is not handed out twice.\<close>

lemma alloc_fresh:
  assumes "pool s is" "alloc s = Inr (i, s')" "\<forall>j \<in> set is. clean s j"
  shows "\<exists>js. is = i # js \<and> pool s' js \<and> i \<notin> set js \<and> i < cap s"
proof (cases "is")
  case Nil
  then show ?thesis using assms(1,2) alloc_none by fastforce
next
  case (Cons j js)
  with alloc_hd[of s j js] assms have "i = j" "pool s' js" by auto
  then show ?thesis using Cons pool_ids[OF assms(1)] by auto
qed

lemma alloc_release:
  assumes "pool s (i # is)" "clean s i"
  shows "\<exists>s1 s2. alloc s = Inr (i, s1) \<and> release i s1 = Inr (True, s2) \<and> pool s2 (i # is)"
proof -
  from alloc_hd[OF assms] obtain s1 where s1: "alloc s = Inr (i, s1)" "pool s1 is" "cap s1 = cap s"
    by auto
  have "i < cap s1" "i \<notin> set is" using pool_ids[OF assms(1)] s1(3) by auto
  from release_push[OF s1(2) this] s1(1) show ?thesis by auto
qed

text \<open>As many numbers as the pool holds can be taken, one after the other.\<close>

lemma alloc_all:
  assumes "pool s (is @ js)" "\<forall>i \<in> set is. clean s i"
  shows "\<exists>s'. fold_res (\<lambda>i t. bind_res (alloc t) (\<lambda>(j, t'). if j = i then Inr t' else Inl NullDeref)) is s
     = Inr s' \<and> pool s' js"
  using assms
proof (induction "is" arbitrary: s)
  case Nil
  then show ?case by simp
next
  case (Cons i "is")
  from alloc_hd[of s i "is @ js"] Cons.prems obtain t where
    t: "alloc s = Inr (i, t)" "pool t (is @ js)" "clean t = clean s" by auto
  from Cons.IH[OF t(2)] Cons.prems(2) t(1,3) show ?case by simp
qed

end

section \<open>The free list\<close>

fun chain :: "fs_inodesc_t list \<Rightarrow> nat option \<Rightarrow> nat list \<Rightarrow> bool" where
  "chain tb None [] = True"
| "chain tb (Some i) (j # js) = (i = j \<and> i < length tb \<and> chain tb (id_next (tb ! i)) js)"
| "chain tb _ _ = False"

text \<open>The free inodes in the order they will be handed out.\<close>

definition ino_pool :: "'h fs_t \<Rightarrow> nat list \<Rightarrow> bool" where
  "ino_pool fs is \<longleftrightarrow> fs_ino_table fs \<noteq> [] \<and> fs_ino_num fs = length (fs_ino_table fs)
     \<and> chain (fs_ino_table fs) (fs_ino_freelist fs) is \<and> distinct is
     \<and> fs_ino_numfree fs = int (length is)
     \<and> (\<forall>i < length (fs_ino_table fs). i \<notin> set is \<longrightarrow> id_next (fs_ino_table fs ! i) = None)"

definition ino_cap :: "'h fs_t \<Rightarrow> nat" where
  "ino_cap fs = length (fs_ino_table fs)"

definition ino_clean :: "'h fs_t \<Rightarrow> nat \<Rightarrow> bool" where
  "ino_clean fs i \<longleftrightarrow> i < length (fs_ino_table fs) \<longrightarrow> id_file (fs_ino_table fs ! i) = None"

lemma chain_bound: "chain tb l is \<Longrightarrow> i \<in> set is \<Longrightarrow> i < length tb"
  by (induction tb l "is" rule: chain.induct) auto

lemma chain_update:
  "j \<notin> set is \<Longrightarrow> chain (tb[j := d]) l is = chain tb l is"
  by (induction tb l "is" rule: chain.induct) auto

lemma put_inodesc_simps [simp]:
  "fs_ino_table (put_inodesc i d fs) = (fs_ino_table fs)[i := d]"
  "fs_ino_num (put_inodesc i d fs) = fs_ino_num fs"
  "fs_ino_numfree (put_inodesc i d fs) = fs_ino_numfree fs"
  "fs_ino_freelist (put_inodesc i d fs) = fs_ino_freelist fs"
  "fs_files (put_inodesc i d fs) = fs_files fs"
  by (simp_all add: put_inodesc_def)

lemma inoalloc_pool:
  assumes "ino_pool fs (i # is)" "ino_clean fs i"
  shows "inoalloc fs = Inr (i, fs\<lparr>
      fs_ino_table := (fs_ino_table fs)[i := (fs_ino_table fs ! i)\<lparr>id_next := None\<rparr>],
      fs_ino_freelist := id_next (fs_ino_table fs ! i), fs_ino_numfree := int (length is)\<rparr>)"
proof -
  note p = assms(1)[unfolded ino_pool_def]
  then have i: "fs_ino_freelist fs = Some i" "i < length (fs_ino_table fs)"
    by (cases "fs_ino_freelist fs"; auto)+
  moreover have "id_file (fs_ino_table fs ! i) = None"
    using assms(2) i(2) by (simp add: ino_clean_def)
  ultimately show ?thesis
    using p by (auto simp: inoalloc_def ino2inodesc_def inodesc2ino_def put_inodesc_def assert_res_def Let_def)
qed

lemma inoalloc_pool_step:
  assumes "ino_pool fs (i # is)" "ino_clean fs i" "inoalloc fs = Inr (j, fs')"
  shows "j = i" "ino_pool fs' is" "ino_cap fs' = ino_cap fs" "ino_clean fs' = ino_clean fs"
    "fs_files fs' = fs_files fs"
    "fs_ino_table fs' = (fs_ino_table fs)[i := (fs_ino_table fs ! i)\<lparr>id_next := None\<rparr>]"
proof -
  note a = inoalloc_pool[OF assms(1,2)]
  note p = assms(1)[unfolded ino_pool_def]
  have i: "fs_ino_freelist fs = Some i" "i < length (fs_ino_table fs)" "i \<notin> set is"
    using p by (cases "fs_ino_freelist fs"; auto)+
  show "j = i" "fs_files fs' = fs_files fs"
    "fs_ino_table fs' = (fs_ino_table fs)[i := (fs_ino_table fs ! i)\<lparr>id_next := None\<rparr>]"
    "ino_cap fs' = ino_cap fs"
    using a assms(3) by (auto simp: ino_cap_def)
  show "ino_pool fs' is"
    using a assms(3) p i
    by (auto simp: ino_pool_def chain_update nth_list_update)
  show "ino_clean fs' = ino_clean fs"
    using a assms(3) i(2) by (auto simp: ino_clean_def fun_eq_iff nth_list_update)
qed

lemma inofree_pool:
  assumes "ino_pool fs is" "i < ino_cap fs" "i \<notin> set is"
  shows "inofree i fs = Inr (True, fs\<lparr>
      fs_ino_table := (fs_ino_table fs)[i := (fs_ino_table fs ! i)\<lparr>id_next := fs_ino_freelist fs\<rparr>],
      fs_ino_freelist := Some i, fs_ino_numfree := int (Suc (length is))\<rparr>)"
  using assms
  by (auto simp: inofree_def ino2inodesc_def ino_pool_def ino_cap_def put_inodesc_def Let_def)

lemma inofree_pool_step:
  assumes "ino_pool fs is" "i < ino_cap fs" "i \<notin> set is" "inofree i fs = Inr (b, fs')"
  shows "b" "ino_pool fs' (i # is)" "ino_cap fs' = ino_cap fs" "ino_clean fs' = ino_clean fs"
    "fs_files fs' = fs_files fs"
  using inofree_pool[OF assms(1-3)] assms
  by (auto simp: ino_pool_def ino_cap_def ino_clean_def chain_update nth_list_update fun_eq_iff)

interpretation inodes: id_pool inoalloc inofree ino_pool ino_cap ino_clean
proof (unfold_locales, goal_cases)
  case (1 s "is")
  then show ?case by (auto simp: ino_pool_def ino_cap_def dest: chain_bound)
next
  case (2 s i "is")
  from inoalloc_pool[OF 2] inoalloc_pool_step[OF 2] show ?case by blast
next
  case (3 s)
  then have "fs_ino_freelist s = None" by (cases "fs_ino_freelist s") (auto simp: ino_pool_def)
  with 3 show ?case by (auto simp: inoalloc_def ino_pool_def)
next
  case (4 s "is" i)
  from inofree_pool[OF 4] inofree_pool_step[OF 4] show ?case by blast
qed

text \<open>The table as \<open>init_inotable\<close> makes it.\<close>

definition fresh_table :: "fs_inodesc_t list" where
  "fresh_table = map (\<lambda>i. \<lparr>id_file = None, id_next = Some (Suc i)\<rparr>) [0..<INO_NUM - 1]
     @ [\<lparr>id_file = None, id_next = None\<rparr>]"

lemma INO_NUM_gt: "0 < INO_NUM" "Suc 0 < INO_NUM"
  by (simp_all add: INO_NUM_def)

lemma ino_numbers:
  "[0..<INO_NUM] = 0 # [1..<INO_NUM]" "[1..<INO_NUM] = 1 # [2..<INO_NUM]"
  using INO_NUM_gt by (simp_all add: upt_conv_Cons numeral_2_eq_2)

lemma length_fresh_table [simp]: "length fresh_table = INO_NUM"
  by (simp add: fresh_table_def INO_NUM_def)

lemma nth_fresh_table:
  "i < INO_NUM \<Longrightarrow> fresh_table ! i =
     \<lparr>id_file = None, id_next = (if Suc i < INO_NUM then Some (Suc i) else None)\<rparr>"
  by (auto simp: fresh_table_def nth_append INO_NUM_def)

lemma chain_fresh_table:
  assumes "i \<le> INO_NUM"
  shows "chain fresh_table (if i < INO_NUM then Some i else None) [i..<INO_NUM]"
  using assms
proof (induction "INO_NUM - i" arbitrary: i)
  case 0
  then show ?case by simp
next
  case (Suc n)
  then have i: "i < INO_NUM" by simp
  have "chain fresh_table (if Suc i < INO_NUM then Some (Suc i) else None) [Suc i..<INO_NUM]"
    using Suc i by (intro Suc.hyps(1)) auto
  then show ?case using i by (simp add: upt_conv_Cons nth_fresh_table)
qed

lemma first_table:
  assumes "fs_ino_table fs = []" "fs_ino_num fs = 0"
  shows "\<exists>fs'. inoalloc fs = Inr (0, fs') \<and> ino_pool fs' [1..<INO_NUM]
    \<and> (\<forall>i. ino_clean fs' i) \<and> ino_cap fs' = INO_NUM \<and> fs_files fs' = fs_files fs
    \<and> fs_mntpt fs' = fs_mntpt fs \<and> fs_mkdir fs' = fs_mkdir fs \<and> fs_ed fs' = fs_ed fs"
proof -
  let ?fs = "fs\<lparr>fs_ino_table := fresh_table, fs_ino_num := INO_NUM, fs_ino_freelist := Some 0,
                fs_ino_numfree := int INO_NUM\<rparr>"
  have ne: "fresh_table \<noteq> []" by (simp add: fresh_table_def)
  have "ino_pool ?fs [0..<INO_NUM]"
    using chain_fresh_table[of 0] ne INO_NUM_gt by (simp add: ino_pool_def)
  then have pool: "ino_pool ?fs (0 # [1..<INO_NUM])" by (simp only: ino_numbers(1))
  have clean: "ino_clean ?fs i" for i by (simp add: ino_clean_def nth_fresh_table)
  have "init_inotable fs = Inr ?fs" using assms by (simp add: init_inotable_def fresh_table_def)
  then have eq: "inoalloc fs = inoalloc ?fs"
    using assms ne by (simp add: inoalloc_def)
  obtain fs' where a: "inoalloc ?fs = Inr (0, fs')"
    using inoalloc_pool[OF pool clean] by blast
  note st = inoalloc_pool_step[OF pool clean a]
  have "ino_cap fs' = INO_NUM" using st(3) by (simp add: ino_cap_def)
  moreover have "fs_files fs' = fs_files fs" using st(5) by simp
  moreover have "fs_mntpt fs' = fs_mntpt fs" "fs_mkdir fs' = fs_mkdir fs" "fs_ed fs' = fs_ed fs"
    using a inoalloc_pool[OF pool clean] by auto
  moreover have "\<forall>i. ino_clean fs' i" using st(4) clean by simp
  moreover have "inoalloc fs = Inr (0, fs')" using eq a by (rule trans)
  ultimately show ?thesis using st(2) by blast
qed

text \<open>C19: an inode number that is handed out is the head of the free list and leaves it, so it
  is not handed out again while in use; giving it back makes it the next one, and no other
  number is affected.\<close>

theorem inode_alloc_release:
  assumes "ino_pool fs (i # is)" "ino_clean fs i"
  shows "\<exists>fs1 fs2. inoalloc fs = Inr (i, fs1) \<and> ino_pool fs1 is \<and> i \<notin> set is
    \<and> inofree i fs1 = Inr (True, fs2) \<and> ino_pool fs2 (i # is)"
  using inodes.alloc_release[OF assms] inodes.alloc_hd[OF assms] inodes.pool_ids[OF assms(1)]
  by fastforce

theorem inode_alloc_release_witness:
  "\<exists>fs :: (string \<times> ptr) list fs_t. ino_pool fs [1..<INO_NUM] \<and>
     (\<exists>fs1 fs2. inoalloc fs = Inr (1, fs1) \<and> inofree 1 fs1 = Inr (True, fs2) \<and> ino_pool fs2 [1..<INO_NUM])"
proof -
  let ?fs = "(fs_zero :: (string \<times> ptr) list fs_t)\<lparr>
    fs_ino_table := fresh_table[0 := \<lparr>id_file = None, id_next = None\<rparr>], fs_ino_num := INO_NUM,
    fs_ino_freelist := Some 1, fs_ino_numfree := int (INO_NUM - 1)\<rparr>"
  have "chain fresh_table (Some 1) [1..<INO_NUM]"
    using chain_fresh_table[of 1] INO_NUM_gt by simp
  then have p: "ino_pool ?fs (1 # [2..<INO_NUM])"
    unfolding ino_numbers(2)[symmetric] using INO_NUM_gt
    by (auto simp: ino_pool_def chain_update fresh_table_def nth_append Suc_le_eq)
  have "ino_clean ?fs 1" using INO_NUM_gt by (simp add: ino_clean_def nth_fresh_table)
  from inode_alloc_release[OF p this] p show ?thesis unfolding ino_numbers(2) by blast
qed

end
