(* ===== verification/FsDir.thy ===== *)
theory FsDir
  imports FsAlloc
begin

text \<open>
  Directories: the invariant that ties a directory's two hash tables to the files and inodes
  they point at, what creation and removal do to it, and what a lookup answers afterwards.
  The lemmas are proved inside the hash table interface, for every implementation of it.
\<close>

section \<open>Keys of inode numbers\<close>

definition le_key :: "nat \<Rightarrow> nat \<Rightarrow> string" where
  "le_key n i = map (\<lambda>b. char_of (i div 256 ^ b)) [0..<n]"

fun le_val :: "string \<Rightarrow> nat" where
  "le_val [] = 0"
| "le_val (c # cs) = of_char c + 256 * le_val cs"

lemma le_key_Suc: "le_key (Suc n) i = char_of i # le_key n (i div 256)"
  by (simp add: le_key_def upt_conv_Cons map_Suc_upt[symmetric] div_mult2_eq comp_def del: upt_Suc)

lemma le_val_key: "le_val (le_key n i) = i mod 256 ^ n"
proof (induction n arbitrary: i)
  case 0
  then show ?case by (simp add: le_key_def)
next
  case (Suc n)
  then show ?case by (simp add: le_key_Suc mod_mult2_eq[of i 256] add.commute)
qed

lemma ino_key_inj:
  assumes "ino_key i = ino_key j" "i < 2 ^ 64" "j < 2 ^ 64"
  shows "i = j"
proof -
  have "le_key 8 i = le_key 8 j" using assms(1) by (simp only: ino_key_def le_key_def)
  then have "i mod 256 ^ 8 = j mod 256 ^ 8" by (metis le_val_key)
  then show ?thesis using assms(2,3) by simp
qed

section \<open>The store of files\<close>

lemma file_at_put_file:
  "p < length (fs_files fs) \<Longrightarrow> file_at (put_file p f fs) q =
     (if q = p then (case f of None \<Rightarrow> Inl UseAfterFree | Some g \<Rightarrow> Inr g) else file_at fs q)"
  by (auto simp: file_at_def put_file_def)

lemma file_at_bound: "file_at fs p = Inr f \<Longrightarrow> p < length (fs_files fs)"
  by (simp add: file_at_def split: if_splits)

lemma file_at_cong: "fs_files fs = fs_files fs' \<Longrightarrow> file_at fs = file_at fs'"
  by (simp add: file_at_def fun_eq_iff)

lemma put_file_simps [simp]:
  "fs_ino_table (put_file p f fs) = fs_ino_table fs"
  "fs_ino_num (put_file p f fs) = fs_ino_num fs"
  "fs_ino_freelist (put_file p f fs) = fs_ino_freelist fs"
  "fs_ino_numfree (put_file p f fs) = fs_ino_numfree fs"
  "length (fs_files (put_file p f fs)) = length (fs_files fs)"
  by (simp_all add: put_file_def)

lemma ino_pool_cong:
  "fs_ino_table fs = fs_ino_table fs' \<Longrightarrow> fs_ino_num fs = fs_ino_num fs' \<Longrightarrow>
   fs_ino_freelist fs = fs_ino_freelist fs' \<Longrightarrow> fs_ino_numfree fs = fs_ino_numfree fs' \<Longrightarrow>
   ino_pool fs = ino_pool fs'"
  by (simp add: ino_pool_def fun_eq_iff)

text \<open>Pointing an inode that is in use at a file does not touch the free list.\<close>

lemma ino_pool_set_file:
  "ino_pool fs is \<Longrightarrow> i \<notin> set is \<Longrightarrow> ino_pool (set_inode_file i p fs) is"
  by (cases "i < length (fs_ino_table fs)")
     (auto simp: ino_pool_def set_inode_file_def chain_update nth_list_update list_update_beyond)

text \<open>The fields that have nothing to do with files and inodes.\<close>

definition fs_setup :: "'h fs_t \<Rightarrow> string option \<times> bool \<times> evntdesc_t" where
  "fs_setup fs = (fs_mntpt fs, fs_mkdir fs, fs_ed fs)"

lemma fs_setup_simps [simp]:
  "fs_setup (put_file p f fs) = fs_setup fs"
  "fs_setup (put_inodesc i d fs) = fs_setup fs"
  "fs_setup (fs\<lparr>fs_files := fl\<rparr>) = fs_setup fs"
  by (simp_all add: fs_setup_def put_file_def put_inodesc_def)

lemma first_inoalloc_setup:
  assumes "fs_ino_table fs = []" "fs_ino_num fs = 0"
  shows "\<exists>fs'. inoalloc fs = Inr (0, fs') \<and> ino_pool fs' [1..<INO_NUM]
    \<and> (\<forall>i. ino_clean fs' i) \<and> ino_cap fs' = INO_NUM \<and> fs_files fs' = fs_files fs
    \<and> fs_setup fs' = fs_setup fs"
proof -
  from first_table[OF assms] obtain fs' where "inoalloc fs = Inr (0, fs')" "ino_pool fs' [1..<INO_NUM]"
    "\<forall>i. ino_clean fs' i" "ino_cap fs' = INO_NUM" "fs_files fs' = fs_files fs"
    "fs_mntpt fs' = fs_mntpt fs" "fs_mkdir fs' = fs_mkdir fs" "fs_ed fs' = fs_ed fs" by blast
  then show ?thesis by (auto simp: fs_setup_def)
qed

section \<open>The directory invariant\<close>

text \<open>
  One entry per file and per name; every entry is a live file under its own name and inode,
  and its inode points back at it.
\<close>

definition entry_inv :: "('h \<Rightarrow> (string \<times> ptr) list) \<Rightarrow> 'h fs_t \<Rightarrow> 'h \<Rightarrow> string \<times> ptr \<Rightarrow> bool" where
  "entry_inv items fs inos e \<longleftrightarrow> (\<exists>g. file_at fs (snd e) = Inr g \<and> f_name g = fst e \<and> f_ops g \<noteq> None
     \<and> f_ino g < length (fs_ino_table fs) \<and> id_file (fs_ino_table fs ! f_ino g) = Some (snd e)
     \<and> (ino_key (f_ino g), snd e) \<in> set (items inos))"

definition dir_inv :: "('h \<Rightarrow> (string \<times> ptr) list) \<Rightarrow> 'h fs_t \<Rightarrow> ptr \<Rightarrow> 'h fs_dir_t \<Rightarrow> bool" where
  "dir_inv items fs dirp dd \<longleftrightarrow>
     (\<exists>f. file_at fs dirp = Inr f \<and> f_type f = DIRECTORY \<and> f_data f = D_dir dd)
     \<and> items_ok (items (ino_files dd)) \<and> items_ok (items (nm_files dd))
     \<and> map snd (items (ino_files dd)) = map snd (items (nm_files dd))
     \<and> dirp \<notin> snd ` set (items (nm_files dd))
     \<and> (\<forall>e \<in> set (items (nm_files dd)). entry_inv items fs (ino_files dd) e)"

lemma entry_inv_bound: "entry_inv items fs inos e \<Longrightarrow> snd e < length (fs_files fs)"
  by (auto simp: entry_inv_def dest: file_at_bound)

lemma dir_inv_entries_bound:
  "dir_inv items fs dirp dd \<Longrightarrow> q \<in> snd ` set (items (nm_files dd)) \<Longrightarrow> q < length (fs_files fs)"
  by (auto simp: dir_inv_def dest!: entry_inv_bound)

text \<open>Keys of the table by inode belong to inodes whose descriptor points at a file.\<close>

lemma dir_inv_ino_keys:
  assumes "dir_inv items fs dirp dd" "(k, q) \<in> set (items (ino_files dd))"
  shows "\<exists>i < length (fs_ino_table fs). k = ino_key i \<and> id_file (fs_ino_table fs ! i) = Some q"
proof -
  note d = assms(1)[unfolded dir_inv_def]
  have "q \<in> set (map snd (items (nm_files dd)))"
    using assms(2) d by (metis image_eqI list.set_map snd_conv)
  then obtain n where n: "(n, q) \<in> set (items (nm_files dd))" by auto
  then obtain g where g: "file_at fs q = Inr g" "f_ino g < length (fs_ino_table fs)"
    "id_file (fs_ino_table fs ! f_ino g) = Some q" "(ino_key (f_ino g), q) \<in> set (items (ino_files dd))"
    using d unfolding entry_inv_def by fastforce
  have "distinct (map snd (items (ino_files dd)))" using d by (simp add: items_ok_def)
  then have "k = ino_key (f_ino g)"
    using assms(2) g(4) by (metis (no_types, lifting) eq_key_imp_eq_value distinct_map inj_onD fst_conv snd_conv)
  then show ?thesis using g by blast
qed

context uthash
begin

text \<open>Adding a live item under a new name and a new inode.\<close>

lemma dir_add_ok:
  assumes inv: "dir_inv items fs dirp dd"
    and item: "file_at fs itemp = Inr g" "f_ops g \<noteq> None" "itemp \<noteq> dirp"
    and new: "itemp \<notin> snd ` set (items (nm_files dd))"
      "hh_find H (nm_files dd) (f_name g) = None"
      "hh_find H (ino_files dd) (ino_key (f_ino g)) = None"
  shows "\<exists>dd' fs'. dir_add H dirp itemp fs = Inr (True, fs')
    \<and> fs' = put_file dirp (Some (case file_at fs dirp of Inr f \<Rightarrow> f\<lparr>f_data := D_dir dd'\<rparr>)) fs
    \<and> items (nm_files dd') = items (nm_files dd) @ [(f_name g, itemp)]
    \<and> items (ino_files dd') = items (ino_files dd) @ [(ino_key (f_ino g), itemp)]
    \<and> items_ok (items (nm_files dd')) \<and> items_ok (items (ino_files dd'))"
proof -
  note d = inv[unfolded dir_inv_def]
  obtain f where f: "file_at fs dirp = Inr f" "f_type f = DIRECTORY" "f_data f = D_dir dd"
    using d by auto
  have s: "itemp \<notin> set (hh_iter H (nm_files dd))" "itemp \<notin> set (hh_iter H (ino_files dd))"
    using new(1) d by (simp_all add: iter_items)
  have ok: "items_ok (items (nm_files dd))" "items_ok (items (ino_files dd))" using d by auto
  note n = ok_add[OF ok(1) new(2) s(1)] and i = ok_add[OF ok(2) new(3) s(2)]
  show ?thesis
    by (rule exI[of _ "\<lparr>ino_files = hh_add H (ino_files dd) (ino_key (f_ino g)) itemp,
                         nm_files = hh_add H (nm_files dd) (f_name g) itemp\<rparr>"])
       (use f item(1) new n i in \<open>simp add: dir_add_def dir_data_def\<close>)
qed

text \<open>
  The file system after a file is created: the new object, its directory with one more
  entry, and an inode less in the pool.
\<close>

lemma fsCreatefile_ok:
  assumes pool: "ino_pool fs (i # is)" "ino_clean fs i" "ino_cap fs \<le> 2 ^ 64"
    and dir: "dirino \<noteq> INVALID_INO" "parent_dir ''fsCreatefile'' dirino fs = Inr dirp"
      "dir_inv items fs dirp dd" "hh_find H (nm_files dd) name = None"
  shows "\<exists>fs' dd'. fsCreatefile H dirino name symlink ops fs = Inr (length (fs_files fs), fs')
    \<and> dir_inv items fs' dirp dd'
    \<and> items (nm_files dd') = items (nm_files dd) @ [(name, length (fs_files fs))]
    \<and> file_at fs' (length (fs_files fs)) = Inr (file_init i dirino
         (case symlink of None \<Rightarrow> D_null | Some s \<Rightarrow> D_link s) name
         (case symlink of None \<Rightarrow> REGULAR | Some s \<Rightarrow> SYMLINK) True ops)
    \<and> (\<forall>q. q < length (fs_files fs) \<and> q \<noteq> dirp \<longrightarrow> file_at fs' q = file_at fs q)
    \<and> ino_pool fs' is
    \<and> id_next (fs_ino_table fs' ! dirino) = None \<and> id_file (fs_ino_table fs' ! dirino) = Some dirp
    \<and> fs_ino_num fs' = fs_ino_num fs \<and> length (fs_ino_table fs') = length (fs_ino_table fs)
    \<and> (\<forall>j. j \<noteq> i \<longrightarrow> ino_clean fs' j = ino_clean fs j)
    \<and> parent_dir ''fsCreatefile'' dirino fs' = Inr dirp
    \<and> id_file (fs_ino_table fs' ! i) = Some (length (fs_files fs))
    \<and> (\<exists>f. file_at fs dirp = Inr f \<and> (\<forall>q. file_at fs' q = (if q = dirp then Inr (f\<lparr>f_data := D_dir dd'\<rparr>)
         else if q = length (fs_files fs) then Inr (file_init i dirino
           (case symlink of None \<Rightarrow> D_null | Some s \<Rightarrow> D_link s) name
           (case symlink of None \<Rightarrow> REGULAR | Some s \<Rightarrow> SYMLINK) True ops) else file_at fs q)))
    \<and> fs_ino_table fs' = (fs_ino_table fs)[i := \<lparr>id_file = Some (length (fs_files fs)), id_next = None\<rparr>]
    \<and> fs_setup fs' = fs_setup fs"
proof -
  let ?p = "length (fs_files fs)"
  let ?g = "file_init i dirino (case symlink of None \<Rightarrow> D_null | Some s \<Rightarrow> D_link s) name
         (case symlink of None \<Rightarrow> REGULAR | Some s \<Rightarrow> SYMLINK) True ops"
  from inodes.alloc_hd[OF pool(1,2)] obtain fs1 where a: "inoalloc fs = Inr (i, fs1)" by auto
  note st = inoalloc_pool_step[OF pool(1,2) a]
  have set1: "fs_setup fs1 = fs_setup fs" using inoalloc_pool[OF pool(1,2)] a by (auto simp: fs_setup_def)
  have il: "i < length (fs_ino_table fs)" "i \<notin> set is"
    using inodes.pool_ids[OF pool(1)] by (auto simp: ino_cap_def)
  have num: "fs_ino_num fs1 = length (fs_ino_table fs)" "fs_ino_num fs = length (fs_ino_table fs)"
    using st(2,3) pool(1) by (auto simp: ino_pool_def ino_cap_def)
  have new: "new_inode ''fsCreatefile'' fs = Inr (i, fs1)"
    using a il num st(6) pool(2) by (simp add: new_inode_def ino2inodesc_def ino_clean_def)
  obtain f where dn: "dirino < length (fs_ino_table fs)" "id_next (fs_ino_table fs ! dirino) = None"
    "id_file (fs_ino_table fs ! dirino) = Some dirp" "file_at fs dirp = Inr f" "f_type f = DIRECTORY"
    using dir(2) num
    by (auto simp: parent_dir_def res_dest ino2inodesc_def deref_def split: if_splits option.splits)
  have di: "dirino \<noteq> i" using dn(1,3) pool(2) by (auto simp: ino_clean_def)
  have pd: "parent_dir ''fsCreatefile'' dirino fs1 = Inr dirp"
    using dn di st(5,6) num by (simp add: parent_dir_def ino2inodesc_def deref_def file_at_cong[OF st(5)])
  define fs2 where "fs2 = fs1\<lparr>fs_files := fs_files fs1 @ [Some ?g]\<rparr>"
  have f2: "file_at fs2 q = (if q = ?p then Inr ?g else file_at fs q)" for q
    by (auto simp: fs2_def file_at_def st(5) nth_append)
  have dp: "dirp < ?p" using dn(4) by (rule file_at_bound)
  note d = dir(3)[unfolded dir_inv_def]
  have eb: "q < ?p" if "q \<in> snd ` set (items (nm_files dd))" for q
    using dir_inv_entries_bound[OF dir(3) that] .
  have tb: "fs_ino_table fs2 = (fs_ino_table fs)[i := (fs_ino_table fs ! i)\<lparr>id_next := None\<rparr>]"
    by (simp add: fs2_def st(6))
  have idf: "id_file (fs_ino_table fs2 ! j) = id_file (fs_ino_table fs ! j)" if "j < length (fs_ino_table fs)" for j
    using that il(1) by (simp add: tb nth_list_update)
  have inv2: "dir_inv items fs2 dirp dd"
    using d dp eb idf unfolding dir_inv_def entry_inv_def
    by (fastforce simp: f2 tb)
  have ik: "hh_find H (ino_files dd) (ino_key i) = None"
  proof (rule ccontr)
    assume "hh_find H (ino_files dd) (ino_key i) \<noteq> None"
    then obtain q where "(ino_key i, q) \<in> set (items (ino_files dd))"
      using d find_Some_iff by (auto simp del: items_add)
    from dir_inv_ino_keys[OF dir(3) this] obtain j where
      j: "j < length (fs_ino_table fs)" "ino_key i = ino_key j" "id_file (fs_ino_table fs ! j) = Some q"
      by auto
    have "i = j" using ino_key_inj[OF j(2)] j(1) il(1) pool(3) by (simp add: ino_cap_def)
    then show False using j pool(2) by (simp add: ino_clean_def)
  qed
  have np: "?p \<notin> snd ` set (items (nm_files dd))" using eb by blast
  have g2: "file_at fs2 ?p = Inr ?g" "f_ops ?g \<noteq> None" "f_name ?g = name" "f_ino ?g = i" "?p \<noteq> dirp"
    using f2[of ?p] dp by (simp_all add: file_init_def)
  from dir_add_ok[OF inv2 g2(1,2,5) np] dir(4) ik obtain dd' fs3 where add:
    "dir_add H dirp ?p fs2 = Inr (True, fs3)"
    "fs3 = put_file dirp (Some (f\<lparr>f_data := D_dir dd'\<rparr>)) fs2"
    "items (nm_files dd') = items (nm_files dd) @ [(name, ?p)]"
    "items (ino_files dd') = items (ino_files dd) @ [(ino_key i, ?p)]"
    "items_ok (items (nm_files dd'))" "items_ok (items (ino_files dd'))"
    using f2[of dirp] dp dn(4) by (auto simp: g2(3,4))
  let ?fs' = "set_inode_file i ?p fs3"
  have f3: "file_at ?fs' q = (if q = dirp then Inr (f\<lparr>f_data := D_dir dd'\<rparr>) else if q = ?p then Inr ?g
      else file_at fs q)" for q
  proof -
    have "file_at ?fs' q = file_at fs3 q" by (simp add: set_inode_file_def file_at_def)
    moreover have "dirp < length (fs_files fs2)" using dp st(5) by (simp add: fs2_def)
    ultimately show ?thesis by (simp add: add(2) file_at_put_file f2)
  qed
  have tb3: "fs_ino_table ?fs' = (fs_ino_table fs)[i := \<lparr>id_file = Some ?p, id_next = None\<rparr>]"
    by (cases "fs_ino_table fs ! i") (simp add: set_inode_file_def add(2) tb il)
  have res: "fsCreatefile H dirino name symlink ops fs = Inr (?p, ?fs')"
    using new pd dir(1) add(1)
    by (auto simp: fsCreatefile_def malloc_file_def fs2_def st(5) split: option.splits)
  have old: "entry_inv items ?fs' (ino_files dd') e" if "e \<in> set (items (nm_files dd))" for e
  proof -
    have "entry_inv items fs (ino_files dd) e" "snd e \<noteq> dirp" "snd e < ?p"
      using d that eb by auto
    moreover have "f_ino g \<noteq> i" if "id_file (fs_ino_table fs ! f_ino g) = Some x" for g :: "'h fs_file_t" and x
      using that il(1) pool(2) by (auto simp: ino_clean_def)
    ultimately show ?thesis
      unfolding entry_inv_def by (fastforce simp: f3 tb3 add(4))
  qed
  have newe: "entry_inv items ?fs' (ino_files dd') (name, ?p)"
    unfolding entry_inv_def using dp il(1) g2 by (simp add: f3 tb3 add(4) file_init_def)
  have inv': "dir_inv items ?fs' dirp dd'"
    unfolding dir_inv_def using d add(3-6) old newe dn(5) dp by (auto simp: f3)
  have pool': "ino_pool ?fs' is"
  proof -
    have "ino_pool fs3 = ino_pool fs1" by (rule ino_pool_cong) (simp_all add: add(2) fs2_def)
    then show ?thesis using st(2) il(2) ino_pool_set_file by metis
  qed
  have exact: "\<exists>f. file_at fs dirp = Inr f \<and> (\<forall>q. file_at ?fs' q = (if q = dirp then Inr (f\<lparr>f_data := D_dir dd'\<rparr>)
         else if q = ?p then Inr ?g else file_at fs q))"
    using f3 dn(4) by blast
  have rest: "fs_setup ?fs' = fs_setup fs"
    by (simp add: set_inode_file_def add(2) fs2_def set1)
  show ?thesis
  proof (intro exI[of _ ?fs'] exI[of _ dd'] conjI)
    show "fs_ino_table ?fs' = (fs_ino_table fs)[i := \<lparr>id_file = Some ?p, id_next = None\<rparr>]" by (rule tb3)
    show "\<exists>f. file_at fs dirp = Inr f \<and> (\<forall>q. file_at ?fs' q = (if q = dirp then Inr (f\<lparr>f_data := D_dir dd'\<rparr>)
         else if q = ?p then Inr ?g else file_at fs q))" by (rule exact)
    show "fs_setup ?fs' = fs_setup fs" by (rule rest)
    show "fsCreatefile H dirino name symlink ops fs = Inr (?p, ?fs')" by (rule res)
    show "dir_inv items ?fs' dirp dd'" by (rule inv')
    show "fs_ino_num ?fs' = fs_ino_num fs"
      using num by (simp add: set_inode_file_def add(2) fs2_def)
    then show "parent_dir ''fsCreatefile'' dirino ?fs' = Inr dirp"
      using dn di f3[of dirp] num by (simp add: parent_dir_def ino2inodesc_def tb3 deref_def)
  qed (use add(3) f3 dp pool' dn di il in \<open>auto simp: tb3 ino_clean_def nth_list_update\<close>)
qed

end

text \<open>A directory that files can be created in: \<open>is\<close> are the inode numbers to come.\<close>

definition fs_ready ::
  "('h \<Rightarrow> (string \<times> ptr) list) \<Rightarrow> 'h fs_t \<Rightarrow> nat \<Rightarrow> ptr \<Rightarrow> 'h fs_dir_t \<Rightarrow> nat list \<Rightarrow> bool" where
  "fs_ready items fs dirino dirp dd is \<longleftrightarrow>
     ino_pool fs is \<and> (\<forall>i \<in> set is. ino_clean fs i) \<and> ino_cap fs \<le> 2 ^ 64
     \<and> dirino \<noteq> INVALID_INO \<and> parent_dir ''fsCreatefile'' dirino fs = Inr dirp
     \<and> dir_inv items fs dirp dd"

context uthash
begin

lemma fsCreatefile_ready:
  assumes ready: "fs_ready items fs dirino dirp dd (i # is)"
    and name: "name \<notin> fst ` set (items (nm_files dd))"
  shows "\<exists>fs' dd'. fsCreatefile H dirino name symlink ops fs = Inr (length (fs_files fs), fs')
    \<and> fs_ready items fs' dirino dirp dd' is
    \<and> items (nm_files dd') = items (nm_files dd) @ [(name, length (fs_files fs))]
    \<and> (\<exists>d t. file_at fs' (length (fs_files fs)) = Inr (file_init i dirino d name t True ops))
    \<and> (\<forall>q. q < length (fs_files fs) \<and> q \<noteq> dirp \<longrightarrow> file_at fs' q = file_at fs q)"
proof -
  note r = ready[unfolded fs_ready_def]
  have pool: "ino_pool fs (i # is)" "ino_clean fs i" "ino_cap fs \<le> 2 ^ 64"
    and dir: "dirino \<noteq> INVALID_INO" "parent_dir ''fsCreatefile'' dirino fs = Inr dirp"
      "dir_inv items fs dirp dd" using r by auto
  have "hh_find H (nm_files dd) name = None"
    using name dir(3) by (simp add: dir_inv_def find_None_iff)
  note c = fsCreatefile_ok[OF pool dir this, of symlink ops]
  have "i \<notin> set is" using inodes.pool_ids[OF pool(1)] by simp
  with c r show ?thesis
    unfolding fs_ready_def ino_cap_def by fastforce
qed

text \<open>A lookup in a directory answers from its table of names.\<close>

lemma lookup_dir:
  assumes "parent_dir site dirino fs = Inr dirp" "dir_inv items fs dirp dd"
  shows "fs_fuse_lookup H T dirino name fs =
    (case hh_find H (nm_files dd) name of
       None \<Rightarrow> Inr (Reply_err ENOENT)
     | Some q \<Rightarrow> bind_res (file_at fs q) (\<lambda>f. bind_res (file_stat T f) (\<lambda>st. Inr (Reply_entry (f_ino f) st))))"
  using assms
  by (auto simp: fs_fuse_lookup_def parent_dir_def res_dest dir_inv_def dir_data_def)

lemma fsCreatefile_lookup:
  assumes ready: "fs_ready items fs dirino dirp dd (i # is)"
    and name: "name \<notin> fst ` set (items (nm_files dd))"
  shows "\<exists>p fs' f. fsCreatefile H dirino name symlink ops fs = Inr (p, fs') \<and> f_name f = name \<and> f_ino f = i
    \<and> fs_fuse_lookup H T dirino name fs' = bind_res (op_stat T ops f stat_zero) (\<lambda>st. Inr (Reply_entry i st))
    \<and> (\<forall>m. m \<noteq> name \<longrightarrow> fs_fuse_lookup H T dirino m fs' = fs_fuse_lookup H T dirino m fs)"
proof -
  let ?p = "length (fs_files fs)"
  from fsCreatefile_ready[OF ready name] obtain fs' dd' d t where c:
    "fsCreatefile H dirino name symlink ops fs = Inr (?p, fs')"
    "fs_ready items fs' dirino dirp dd' is"
    "items (nm_files dd') = items (nm_files dd) @ [(name, ?p)]"
    "file_at fs' ?p = Inr (file_init i dirino d name t True ops)"
    "\<forall>q. q < ?p \<and> q \<noteq> dirp \<longrightarrow> file_at fs' q = file_at fs q" by blast
  have inv: "dir_inv items fs dirp dd" "parent_dir ''fsCreatefile'' dirino fs = Inr dirp"
    and inv': "dir_inv items fs' dirp dd'" "parent_dir ''fsCreatefile'' dirino fs' = Inr dirp"
    using ready c(2) by (simp_all add: fs_ready_def)
  note l = lookup_dir[OF inv(2,1), of T] and l' = lookup_dir[OF inv'(2,1), of T]
  have ok: "items_ok (items (nm_files dd))" "items_ok (items (nm_files dd'))"
    using inv(1) inv'(1) by (simp_all add: dir_inv_def)
  have "hh_find H (nm_files dd') name = Some ?p" using ok(2) c(3) by (simp add: find_Some_iff)
  then have hit: "fs_fuse_lookup H T dirino name fs' =
      bind_res (op_stat T ops (file_init i dirino d name t True ops) stat_zero) (\<lambda>st. Inr (Reply_entry i st))"
    by (simp add: l' c(4) file_stat_def file_init_def)
  have "fs_fuse_lookup H T dirino m fs' = fs_fuse_lookup H T dirino m fs" if "m \<noteq> name" for m
  proof -
    have f: "hh_find H (nm_files dd') m = hh_find H (nm_files dd) m"
      using ok that by (simp add: find_map_of c(3) map_add_def split: option.splits)
    have "q < ?p \<and> q \<noteq> dirp" if "hh_find H (nm_files dd) m = Some q" for q
      using that ok(1) inv(1) dir_inv_entries_bound[OF inv(1), of q]
      by (force simp: find_Some_iff dir_inv_def)
    then show ?thesis using c(5) unfolding l l' f by (auto split: option.splits)
  qed
  moreover have "f_name (file_init i dirino d name t True ops) = name"
    "f_ino (file_init i dirino d name t True ops) = i" by (simp_all add: file_init_def)
  ultimately show ?thesis using c(1) hit by blast
qed

text \<open>Several files under different names.\<close>

lemma fsCreatefile_all:
  assumes "fs_ready items fs dirino dirp dd (is @ js)" "length names = length is"
    "distinct names" "fst ` set (items (nm_files dd)) \<inter> set names = {}"
  shows "\<exists>fs' dd'. fold_res (\<lambda>n fs. bind_res (fsCreatefile H dirino n None (ops n) fs) (\<lambda>(_, fs). Inr fs)) names fs
      = Inr fs'
    \<and> fs_ready items fs' dirino dirp dd' js
    \<and> map fst (items (nm_files dd')) = map fst (items (nm_files dd)) @ names"
  using assms
proof (induction names arbitrary: fs dd "is")
  case Nil
  then show ?case by auto
next
  case (Cons n names)
  then obtain i "is'" where eq: "is = i # is'" by (cases "is") auto
  have r: "fs_ready items fs dirino dirp dd (i # (is' @ js))" using Cons.prems(1) eq by simp
  have "n \<notin> fst ` set (items (nm_files dd))" using Cons.prems(4) by auto
  from fsCreatefile_ready[OF r this, of None "ops n"] obtain fs1 dd1 where s:
    "fsCreatefile H dirino n None (ops n) fs = Inr (length (fs_files fs), fs1)"
    "fs_ready items fs1 dirino dirp dd1 (is' @ js)"
    "items (nm_files dd1) = items (nm_files dd) @ [(n, length (fs_files fs))]" by blast
  have "fst ` set (items (nm_files dd1)) \<inter> set names = {}"
    using Cons.prems(3,4) s(3) by auto
  from Cons.IH[OF s(2) _ _ this] Cons.prems(2,3) eq s(1,3) show ?case by simp
qed

end

end
