(* ===== verification/FsRemove.thy ===== *)
theory FsRemove
  imports FsDir
begin

text \<open>
  Removal: what taking an item out of its directory does to the directory invariant, why the
  climb through emptied directories ends, and how a whole file system is taken down.
\<close>

section \<open>The climb ends\<close>

text \<open>
  Every step of the climb clears the object it removes, and a cleared object cannot be
  removed again: the number of objects that still can is a measure.
\<close>

definition removable :: "'h fs_file_t \<Rightarrow> bool" where
  "removable f \<longleftrightarrow> f_type f = DIRECTORY \<or> f_dir f \<noteq> INVALID_INO"

definition num_removable :: "'h fs_t \<Rightarrow> nat" where
  "num_removable fs = length (filter (\<lambda>x. case x of None \<Rightarrow> False | Some f \<Rightarrow> removable f) (fs_files fs))"

lemma length_filter_update:
  "p < length xs \<Longrightarrow> Q (xs ! p) = Q y \<Longrightarrow> length (filter Q (xs[p := y])) = length (filter Q xs)"
proof (induction xs arbitrary: p)
  case (Cons x xs)
  then show ?case by (cases p) auto
qed simp

lemma length_filter_update_less:
  "p < length xs \<Longrightarrow> Q (xs ! p) \<Longrightarrow> \<not> Q y \<Longrightarrow> Suc (length (filter Q (xs[p := y]))) = length (filter Q xs)"
proof (induction xs arbitrary: p)
  case (Cons x xs)
  then show ?case by (cases p) auto
qed simp

lemma file_at_Some: "file_at fs p = Inr f \<Longrightarrow> p < length (fs_files fs) \<and> fs_files fs ! p = Some f"
  by (auto simp: file_at_def split: if_splits option.splits)

lemma num_removable_put:
  assumes "file_at fs p = Inr f" "removable f = removable g"
  shows "num_removable (put_file p (Some g) fs) = num_removable fs"
  using file_at_Some[OF assms(1)] assms(2)
  by (simp add: num_removable_def put_file_def length_filter_update)

lemma num_removable_clear:
  assumes "file_at fs p = Inr f" "removable f" "\<forall>g. x = Some g \<longrightarrow> \<not> removable g"
  shows "Suc (num_removable (put_file p x fs)) = num_removable fs"
  using file_at_Some[OF assms(1)] assms(2,3)
  by (auto simp: num_removable_def put_file_def length_filter_update_less split: option.splits)

lemma num_removable_le: "num_removable fs \<le> length (fs_files fs)"
  by (simp add: num_removable_def)

lemma num_removable_cong: "fs_files fs = fs_files fs' \<Longrightarrow> num_removable fs = num_removable fs'"
  by (simp add: num_removable_def)

text \<open>None of the steps between two passes runs out of fuel.\<close>

lemma no_fuel_parts:
  "file_at fs p \<noteq> Inl OutOfFuel" "dir_data f \<noteq> Inl OutOfFuel" "ino2inodesc fs i \<noteq> Inl OutOfFuel"
  "containing_dir i fs \<noteq> Inl OutOfFuel" "removal_dir H f fs \<noteq> Inl OutOfFuel"
  "dir_remove H dirp itemp fs \<noteq> Inl OutOfFuel" "inofree i fs \<noteq> Inl OutOfFuel"
proof -
  show a: "file_at fs p \<noteq> Inl OutOfFuel" for p
    by (auto simp: file_at_def split: option.splits)
  show b: "dir_data f \<noteq> Inl OutOfFuel" for f :: "'h fs_file_t"
    by (auto simp: dir_data_def split: fs_data.splits)
  show c: "ino2inodesc fs i \<noteq> Inl OutOfFuel" for i
    by (auto simp: ino2inodesc_def assert_res_def)
  show d: "containing_dir i fs \<noteq> Inl OutOfFuel" for i
    using a c by (auto simp: containing_dir_def bind_res_eq_Inl assert_res_def split: option.splits)
  show "removal_dir H f fs \<noteq> Inl OutOfFuel"
    using b d by (auto simp: removal_dir_def bind_res_eq_Inl assert_res_def)
  show "dir_remove H dirp itemp fs \<noteq> Inl OutOfFuel"
    using a b by (auto simp: dir_remove_def bind_res_eq_Inl assert_res_def Let_def)
  show "inofree i fs \<noteq> Inl OutOfFuel"
    using c by (auto simp: inofree_def bind_res_eq_Inl assert_res_def Let_def)
qed

lemma removal_dir_removable:
  "removal_dir H f fs = Inr (Some c) \<Longrightarrow> removable f"
  by (auto simp: removal_dir_def removable_def assert_res_def split: if_splits)

lemma dir_remove_files:
  assumes "dir_remove H dirp itemp fs = Inr (e, fs')" "file_at fs itemp = Inr item"
  shows "num_removable fs' = num_removable fs \<and> length (fs_files fs') = length (fs_files fs)
    \<and> (\<exists>f. file_at fs' itemp = Inr f \<and> removable f = removable item \<and> f_malloced f = f_malloced item)"
proof -
  obtain dir dd where d: "file_at fs dirp = Inr dir" "fs' = put_file dirp (Some (dir\<lparr>f_data := D_dir dd\<rparr>)) fs"
    using assms(1) by (auto simp: dir_remove_def res_dest Let_def)
  have "removable dir = removable (dir\<lparr>f_data := D_dir dd\<rparr>)" by (simp add: removable_def)
  from num_removable_put[OF d(1) this] show ?thesis
    using d assms(2) file_at_bound[OF d(1)]
    by (auto simp: file_at_put_file removable_def)
qed

lemma inofree_files: "inofree i fs = Inr (b, fs') \<Longrightarrow> fs_files fs' = fs_files fs"
  by (auto simp: inofree_def res_dest Let_def put_inodesc_def)

lemma fsRemoveitem_fuel_enough:
  "num_removable fs < n \<Longrightarrow> fsRemoveitem_fuel n H p purge fs \<noteq> Inl OutOfFuel"
proof (induction n arbitrary: p fs)
  case (Suc n)
  have step: False
    if item: "file_at fs p = Inr item" and c: "removal_dir H item fs = Inr (Some (Some dirp))"
      and r: "dir_remove H dirp p fs = Inr (e, fs1)" and i: "inofree (f_ino item) fs1 = Inr (b, fs2)"
      and f: "fsRemoveitem_fuel n H dirp purge
                (put_file p (if f_malloced item then None else Some (file_cleared item)) fs2) = Inl OutOfFuel"
    for item dirp e fs1 b fs2
  proof -
    let ?x = "if f_malloced item then None else Some (file_cleared item)"
    from dir_remove_files[OF r item] obtain g where g: "file_at fs1 p = Inr g" "removable g"
      "num_removable fs1 = num_removable fs"
      using removal_dir_removable[OF c] by auto
    have fl: "fs_files fs2 = fs_files fs1" using inofree_files[OF i] .
    have "\<forall>h. ?x = Some h \<longrightarrow> \<not> removable h" by (auto simp: removable_def file_cleared_def)
    with g file_at_cong[OF fl] have "Suc (num_removable (put_file p ?x fs2)) = num_removable fs2"
      by (intro num_removable_clear[of _ _ g]) simp_all
    then have "num_removable (put_file p ?x fs2) < n"
      using Suc.prems g(3) num_removable_cong[OF fl] by simp
    from Suc.IH[OF this] f show False by simp
  qed
  show ?case
  proof
    assume o: "fsRemoveitem_fuel (Suc n) H p purge fs = Inl OutOfFuel"
    then obtain item where item: "file_at fs p = Inr item"
      using no_fuel_parts(1) by (auto simp: bind_res_eq_Inl)
    with o obtain w where w: "removal_dir H item fs = Inr w"
      using no_fuel_parts(5) by (auto simp: bind_res_eq_Inl)
    with o item obtain c where c: "w = Some c" by (cases w) auto
    show False
    proof (cases c)
      case None
      then show ?thesis
        using o no_fuel_parts(7) by (auto simp: item w c bind_res_eq_Inl Let_def)
    next
      case (Some dirp)
      then obtain e fs1 where r: "dir_remove H dirp p fs = Inr (e, fs1)"
        using o no_fuel_parts(6)[of H dirp p fs] by (auto simp: item w c bind_res_eq_Inl)
      with o Some obtain b fs2 where i: "inofree (f_ino item) fs1 = Inr (b, fs2)"
        using no_fuel_parts(7) by (auto simp: item w c bind_res_eq_Inl)
      have "fsRemoveitem_fuel n H dirp purge
          (put_file p (if f_malloced item then None else Some (file_cleared item)) fs2) = Inl OutOfFuel"
        using o Some by (auto simp: item w c r i bind_res_eq_Inl Let_def split: if_splits)
      from step[OF item _ r i this] w c Some show False by simp
    qed
  qed
qed simp

text \<open>C21: removing an item ends, whatever state the file system is in and whatever chain of
  directories has to be purged: the bound on the climb (one more than the number of objects
  ever created) is never reached, because each step clears an object that was not cleared.\<close>

theorem fsRemoveitem_terminates:
  "fsRemoveitem H itemp purge fs \<noteq> Inl OutOfFuel"
  unfolding fsRemoveitem_def
  by (rule fsRemoveitem_fuel_enough) (use num_removable_le[of fs] in simp)

section \<open>A flat file system\<close>

text \<open>
  A root directory with files in it, which is what the program builds: every object is the
  root or one of its entries, and every inode in use that points at an object points at
  one of them.
\<close>

definition flat_entry :: "'h fs_t \<Rightarrow> nat list \<Rightarrow> ptr \<Rightarrow> bool" where
  "flat_entry fs is q \<longleftrightarrow> (\<exists>g. file_at fs q = Inr g \<and> f_type g \<noteq> DIRECTORY \<and> f_dir g = ROOT_INO
     \<and> f_malloced g \<and> f_ino g \<notin> set is \<and> f_ino g \<noteq> ROOT_INO)"

definition flat_fs ::
  "('h \<Rightarrow> (string \<times> ptr) list) \<Rightarrow> 'h fs_t \<Rightarrow> ptr \<Rightarrow> 'h fs_dir_t \<Rightarrow> nat list \<Rightarrow> bool" where
  "flat_fs items fs dirp dd is \<longleftrightarrow> ino_pool fs is \<and> dir_inv items fs dirp dd
     \<and> (\<exists>f. file_at fs dirp = Inr f \<and> f_ino f = ROOT_INO \<and> f_dir f = INVALID_INO \<and> f_malloced f)
     \<and> ROOT_INO < length (fs_ino_table fs) \<and> ROOT_INO \<notin> set is
     \<and> id_file (fs_ino_table fs ! ROOT_INO) = Some dirp
     \<and> (\<forall>q \<in> snd ` set (items (nm_files dd)). flat_entry fs is q)
     \<and> (\<forall>q f. file_at fs q = Inr f \<longrightarrow> q = dirp \<or> q \<in> snd ` set (items (nm_files dd)))"

definition no_files :: "'h fs_t \<Rightarrow> bool" where
  "no_files fs \<longleftrightarrow> (\<forall>q f. file_at fs q \<noteq> Inr f)"

lemma inofree_table:
  assumes "ino_pool fs is" "i < ino_cap fs" "i \<notin> set is"
  shows "\<exists>fs'. inofree i fs = Inr (True, fs') \<and> ino_pool fs' (i # is) \<and> fs_files fs' = fs_files fs
    \<and> fs_ino_num fs' = fs_ino_num fs \<and> length (fs_ino_table fs') = length (fs_ino_table fs)
    \<and> (\<forall>j < length (fs_ino_table fs). id_file (fs_ino_table fs' ! j) = id_file (fs_ino_table fs ! j))"
  using inofree_pool_step[OF assms] inofree_pool[OF assms]
  by (simp add: nth_list_update assms(2)[unfolded ino_cap_def])

lemma map_snd_filter:
  "map snd (filter (\<lambda>(_, q). q \<noteq> p) xs) = filter (\<lambda>q. q \<noteq> p) (map snd xs)"
  by (induction xs) auto

context uthash
begin

lemma dir_remove_ok:
  assumes inv: "dir_inv items fs dirp dd" and f: "file_at fs dirp = Inr f"
    and e: "(name, p) \<in> set (items (nm_files dd))"
  shows "\<exists>dd'. dir_remove H dirp p fs =
      Inr (items (nm_files dd') = [], put_file dirp (Some (f\<lparr>f_data := D_dir dd'\<rparr>)) fs)
    \<and> items (nm_files dd') = filter (\<lambda>(_, q). q \<noteq> p) (items (nm_files dd))
    \<and> items (ino_files dd') = filter (\<lambda>(_, q). q \<noteq> p) (items (ino_files dd))"
proof -
  note d = inv[unfolded dir_inv_def]
  have fd: "f_data f = D_dir dd" using d f by auto
  obtain g where g: "file_at fs p = Inr g" "f_name g = name"
    "(ino_key (f_ino g), p) \<in> set (items (ino_files dd))"
    using d e unfolding entry_inv_def by fastforce
  have find: "hh_find H (nm_files dd) (f_name g) = Some p"
    "hh_find H (ino_files dd) (ino_key (f_ino g)) = Some p"
    using d e g by (simp_all add: find_Some_iff)
  let ?dd = "\<lparr>ino_files = hh_del H (ino_files dd) p, nm_files = hh_del H (nm_files dd) p\<rparr>"
  have it: "items (nm_files ?dd) = filter (\<lambda>(_, q). q \<noteq> p) (items (nm_files dd))"
    "items (ino_files ?dd) = filter (\<lambda>(_, q). q \<noteq> p) (items (ino_files dd))"
    using e g(3) by (force intro!: items_del)+
  have eq: "map snd (items (ino_files dd)) = map snd (items (nm_files dd))" using d by simp
  have c: "hh_count H (ino_files dd) = hh_count H (nm_files dd)" "hh_count H (ino_files dd) > 0"
    using eq e map_eq_imp_length_eq[OF eq] by (auto simp: count_items intro: length_pos_if_in_set)
  have "map snd (items (ino_files ?dd)) = map snd (items (nm_files ?dd))"
    by (simp only: it map_snd_filter eq)
  then have "hh_count H (hh_del H (ino_files dd) p) = length (items (nm_files ?dd))"
    "hh_count H (hh_del H (nm_files dd) p) = length (items (nm_files ?dd))"
    by (auto simp: count_items dest: map_eq_imp_length_eq)
  then show ?thesis
    by (intro exI[of _ ?dd]) (use f fd g(1) find c it in \<open>simp add: dir_remove_def dir_data_def\<close>)
qed

lemma filter_not_Nil: "(filter (\<lambda>(_, q). q \<noteq> p) xs = []) = (snd ` set xs \<subseteq> {p})"
  by (auto simp: filter_empty_conv)

lemma filter_not_set:
  "snd ` set (filter (\<lambda>(_, q). q \<noteq> p) xs) = snd ` set xs - {p}"
  by force

text \<open>One file of a flat file system is taken out of its directory and its inode freed.\<close>

lemma flat_remove_parts:
  assumes flat: "flat_fs items fs dirp dd is" and e: "(name, p) \<in> set (items (nm_files dd))"
    and g: "file_at fs p = Inr g"
  shows "\<exists>dd' fs1 fs2. removal_dir H g fs = Inr (Some (Some dirp))
    \<and> dir_remove H dirp p fs = Inr (items (nm_files dd') = [], fs1)
    \<and> inofree (f_ino g) fs1 = Inr (True, fs2) \<and> f_malloced g
    \<and> items (nm_files dd') = filter (\<lambda>(_, q). q \<noteq> p) (items (nm_files dd))
    \<and> flat_fs items (put_file p None fs2) dirp dd' (f_ino g # is)
    \<and> (\<forall>q. q \<noteq> p \<and> q \<noteq> dirp \<longrightarrow> file_at (put_file p None fs2) q = file_at fs q)
    \<and> length (fs_ino_table fs2) = length (fs_ino_table fs) \<and> fs_ino_num fs2 = fs_ino_num fs
    \<and> (\<forall>j < length (fs_ino_table fs). id_file (fs_ino_table fs2 ! j) = id_file (fs_ino_table fs ! j))"
proof -
  note fl = flat[unfolded flat_fs_def]
  have inv: "dir_inv items fs dirp dd" and pool: "ino_pool fs is" using fl by auto
  note d = inv[unfolded dir_inv_def]
  obtain f where f: "file_at fs dirp = Inr f" "f_ino f = ROOT_INO" "f_dir f = INVALID_INO"
    "f_malloced f" "f_type f = DIRECTORY" "f_data f = D_dir dd" using fl d by auto
  have pe: "p \<in> snd ` set (items (nm_files dd))" using e by force
  then have "flat_entry fs is p" using fl by blast
  then have gp: "f_type g \<noteq> DIRECTORY" "f_dir g = ROOT_INO" "f_malloced g" "f_ino g \<notin> set is"
    "f_ino g \<noteq> ROOT_INO"
    using g by (auto simp: flat_entry_def)
  have gi: "f_ino g < length (fs_ino_table fs)" "id_file (fs_ino_table fs ! f_ino g) = Some p"
    using d e g unfolding entry_inv_def by fastforce+
  have pd: "p \<noteq> dirp" using d pe by blast
  have num: "fs_ino_num fs = length (fs_ino_table fs)" using pool by (simp add: ino_pool_def)
  have nx: "id_next (fs_ino_table fs ! ROOT_INO) = None" using fl by (simp add: ino_pool_def)
  have cont: "removal_dir H g fs = Inr (Some (Some dirp))"
    using gp fl num f nx by (simp add: removal_dir_def containing_dir_def ino2inodesc_def ROOT_INO_def INVALID_INO_def)
  from dir_remove_ok[OF inv f(1) e] obtain dd' where r:
    "dir_remove H dirp p fs = Inr (items (nm_files dd') = [], put_file dirp (Some (f\<lparr>f_data := D_dir dd'\<rparr>)) fs)"
    "items (nm_files dd') = filter (\<lambda>(_, q). q \<noteq> p) (items (nm_files dd))"
    "items (ino_files dd') = filter (\<lambda>(_, q). q \<noteq> p) (items (ino_files dd))" by blast
  let ?f' = "f\<lparr>f_data := D_dir dd'\<rparr>" let ?fs1 = "put_file dirp (Some ?f') fs"
  have "ino_pool ?fs1 is" using pool by (subst ino_pool_cong[of _ fs]) simp_all
  then obtain fs2 where i: "inofree (f_ino g) ?fs1 = Inr (True, fs2)" "ino_pool fs2 (f_ino g # is)"
    "fs_files fs2 = fs_files ?fs1" "fs_ino_num fs2 = fs_ino_num fs"
    "length (fs_ino_table fs2) = length (fs_ino_table fs)"
    "\<forall>j < length (fs_ino_table fs). id_file (fs_ino_table fs2 ! j) = id_file (fs_ino_table fs ! j)"
    using inofree_table[of ?fs1 "is" "f_ino g"] gi(1) gp(4) by (auto simp: ino_cap_def)
  let ?fs3 = "put_file p None fs2"
  have pl: "p < length (fs_files fs2)" using file_at_bound[OF g] i(3) by (simp add: put_file_def)
  have at: "file_at ?fs3 q = (if q = p then Inl UseAfterFree else if q = dirp then Inr ?f' else file_at fs q)" for q
    using file_at_bound[OF f(1)] pd
    by (simp add: file_at_put_file[OF pl] file_at_cong[OF i(3)] file_at_put_file)
  have pool3: "ino_pool ?fs3 (f_ino g # is)" using i(2) by (subst ino_pool_cong[of _ fs2]) simp_all
  have old: "entry_inv items ?fs3 (ino_files dd') x" if "x \<in> set (items (nm_files dd'))" for x
  proof -
    have x: "x \<in> set (items (nm_files dd))" "snd x \<noteq> p" "snd x \<noteq> dirp" using that d by (auto simp: r(2))
    then obtain h where h: "file_at fs (snd x) = Inr h" "f_name h = fst x" "f_ops h \<noteq> None"
      "f_ino h < length (fs_ino_table fs)" "id_file (fs_ino_table fs ! f_ino h) = Some (snd x)"
      "(ino_key (f_ino h), snd x) \<in> set (items (ino_files dd))"
      using d unfolding entry_inv_def by blast
    with x show ?thesis unfolding entry_inv_def by (intro exI[of _ h]) (simp add: at i r(3))
  qed
  have "map snd (items (ino_files dd')) = map snd (items (nm_files dd'))"
    using d by (simp only: r map_snd_filter)
  then have inv3: "dir_inv items ?fs3 dirp dd'"
    unfolding dir_inv_def using d old f pd by (auto simp: at r intro: items_ok_filter)
  have ent: "flat_entry ?fs3 (f_ino g # is) q" if "q \<in> snd ` set (items (nm_files dd'))" for q
  proof -
    have q: "q \<in> snd ` set (items (nm_files dd))" "q \<noteq> p" "q \<noteq> dirp"
      using that d by (auto simp: r(2))
    then obtain h where h: "file_at fs q = Inr h" "f_type h \<noteq> DIRECTORY" "f_dir h = ROOT_INO" "f_malloced h"
      "f_ino h \<notin> set is" "f_ino h \<noteq> ROOT_INO" "id_file (fs_ino_table fs ! f_ino h) = Some q"
      using fl d unfolding flat_entry_def entry_inv_def by fastforce
    then have "f_ino h \<noteq> f_ino g" using gi(2) q(2) by auto
    with h q show ?thesis unfolding flat_entry_def by (simp add: at)
  qed
  have flat3: "flat_fs items ?fs3 dirp dd' (f_ino g # is)"
    unfolding flat_fs_def
  proof (intro conjI)
    show "\<forall>q h. file_at ?fs3 q = Inr h \<longrightarrow> q = dirp \<or> q \<in> snd ` set (items (nm_files dd'))"
      using fl unfolding r(2) filter_not_set by (auto simp: at split: if_splits)
  qed (use fl f pool3 inv3 ent pd gp i in \<open>auto simp: at\<close>)
  have same: "\<forall>q. q \<noteq> p \<and> q \<noteq> dirp \<longrightarrow> file_at ?fs3 q = file_at fs q" by (simp add: at)
  show ?thesis
    using cont r i flat3 same gp(3) by blast
qed

text \<open>The root of a flat file system that has become empty.\<close>

lemma flat_remove_root:
  assumes flat: "flat_fs items fs dirp dd is" and nil: "items (nm_files dd) = []"
  shows "\<exists>fs'. fsRemoveitem_fuel (Suc n) H dirp purge fs = Inr (True, fs') \<and> no_files fs'
    \<and> ino_pool fs' (ROOT_INO # is) \<and> length (fs_ino_table fs') = length (fs_ino_table fs)
    \<and> fs_ino_num fs' = fs_ino_num fs
    \<and> (\<forall>j < length (fs_ino_table fs). id_file (fs_ino_table fs' ! j) = id_file (fs_ino_table fs ! j))"
proof -
  note fl = flat[unfolded flat_fs_def]
  obtain f where f: "file_at fs dirp = Inr f" "f_ino f = ROOT_INO" "f_dir f = INVALID_INO"
    "f_malloced f" "f_type f = DIRECTORY" "f_data f = D_dir dd" using fl by (auto simp: dir_inv_def)
  have "map snd (items (ino_files dd)) = map snd (items (nm_files dd))"
    using fl by (simp add: dir_inv_def)
  then have c: "hh_count H (ino_files dd) = 0" "hh_count H (nm_files dd) = 0"
    using nil by (simp_all add: count_items)
  have rd: "removal_dir H f fs = Inr (Some None)"
    using f c by (simp add: removal_dir_def dir_data_def)
  obtain fs' where i: "inofree ROOT_INO fs = Inr (True, fs')" "ino_pool fs' (ROOT_INO # is)"
    "fs_files fs' = fs_files fs" "fs_ino_num fs' = fs_ino_num fs"
    "length (fs_ino_table fs') = length (fs_ino_table fs)"
    "\<forall>j < length (fs_ino_table fs). id_file (fs_ino_table fs' ! j) = id_file (fs_ino_table fs ! j)"
    using inofree_table[of fs "is" ROOT_INO] fl by (auto simp: ino_cap_def)
  have "dirp < length (fs_files fs')" using file_at_bound[OF f(1)] i(3) by simp
  then have "no_files (put_file dirp None fs')"
    using fl nil unfolding no_files_def
    by (auto simp: file_at_put_file file_at_cong[OF i(3)])
  moreover have "ino_pool (put_file dirp None fs') (ROOT_INO # is)"
    using i(2) by (subst ino_pool_cong[of _ fs']) simp_all
  ultimately show ?thesis
    using f rd i by auto
qed

text \<open>A file is removed: the rest stays as it was, or all is gone with the last file.\<close>

lemma flat_remove:
  assumes flat: "flat_fs items fs dirp dd is" and e: "(name, p) \<in> set (items (nm_files dd))"
    and g: "file_at fs p = Inr g"
  shows "\<exists>fs' dd'. fsRemoveitem H p True fs = Inr (True, fs')
    \<and> length (fs_ino_table fs') = length (fs_ino_table fs) \<and> fs_ino_num fs' = fs_ino_num fs
    \<and> (\<forall>j < length (fs_ino_table fs). id_file (fs_ino_table fs' ! j) = id_file (fs_ino_table fs ! j))
    \<and> items (nm_files dd') = filter (\<lambda>(_, q). q \<noteq> p) (items (nm_files dd))
    \<and> (if items (nm_files dd') = [] then no_files fs' \<and> ino_pool fs' (ROOT_INO # f_ino g # is)
        else flat_fs items fs' dirp dd' (f_ino g # is)
           \<and> (\<forall>q. q \<noteq> p \<and> q \<noteq> dirp \<longrightarrow> file_at fs' q = file_at fs q))"
proof -
  from flat_remove_parts[OF assms] obtain dd' fs1 fs2 where r:
    "removal_dir H g fs = Inr (Some (Some dirp))"
    "dir_remove H dirp p fs = Inr (items (nm_files dd') = [], fs1)"
    "inofree (f_ino g) fs1 = Inr (True, fs2)" "f_malloced g"
    "items (nm_files dd') = filter (\<lambda>(_, q). q \<noteq> p) (items (nm_files dd))"
    "flat_fs items (put_file p None fs2) dirp dd' (f_ino g # is)"
    "\<forall>q. q \<noteq> p \<and> q \<noteq> dirp \<longrightarrow> file_at (put_file p None fs2) q = file_at fs q"
    "length (fs_ino_table fs2) = length (fs_ino_table fs)" "fs_ino_num fs2 = fs_ino_num fs"
    "\<forall>j < length (fs_ino_table fs). id_file (fs_ino_table fs2 ! j) = id_file (fs_ino_table fs ! j)"
    by blast
  let ?fs3 = "put_file p None fs2"
  obtain n where n: "length (fs_files fs) = Suc n"
    using file_at_bound[OF g] by (cases "length (fs_files fs)") auto
  show ?thesis
  proof (cases "items (nm_files dd') = []")
    case False
    then have "fsRemoveitem H p True fs = Inr (True, ?fs3)"
      using r g by (simp add: fsRemoveitem_def)
    with False r show ?thesis by (intro exI[of _ ?fs3] exI[of _ dd']) simp
  next
    case True
    from flat_remove_root[OF r(6) True, of n True] obtain fs' where
      s: "fsRemoveitem_fuel (Suc n) H dirp True ?fs3 = Inr (True, fs')" "no_files fs'"
      "ino_pool fs' (ROOT_INO # f_ino g # is)" "length (fs_ino_table fs') = length (fs_ino_table fs2)"
      "fs_ino_num fs' = fs_ino_num fs2"
      "\<forall>j < length (fs_ino_table fs2). id_file (fs_ino_table fs' ! j) = id_file (fs_ino_table fs2 ! j)"
      by auto
    have "fsRemoveitem H p True fs = Inr (True, fs')"
      unfolding fsRemoveitem_def n fsRemoveitem_fuel.simps(2)[of "Suc n"]
      using r(1-4) g True s(1) by simp
    with True r s show ?thesis by (intro exI[of _ fs'] exI[of _ dd']) simp
  qed
qed

end

section \<open>Taking the file system down\<close>

lemma cleanup_scan_none:
  assumes "\<forall>j \<in> set js. j < fs_ino_num fs \<and> j < length (fs_ino_table fs) \<and> id_file (fs_ino_table fs ! j) = None"
  shows "cleanup_scan H js (r, fs) = Inr (r, fs)"
  using assms by (induction js) (auto simp: ino2inodesc_def)

text \<open>The inodes still to be visited, against the entries still there.\<close>

definition to_visit :: "'h fs_t \<Rightarrow> nat list \<Rightarrow> (string \<times> ptr) list \<Rightarrow> bool" where
  "to_visit fs js E \<longleftrightarrow>
     (\<forall>j \<in> set js. j < length (fs_ino_table fs) \<and>
        (\<forall>q. id_file (fs_ino_table fs ! j) = Some q \<longrightarrow> q \<in> snd ` set E \<and> (\<exists>g. file_at fs q = Inr g \<and> f_ino g = j)))
     \<and> (\<forall>q \<in> snd ` set E. \<exists>g. file_at fs q = Inr g \<and> f_ino g \<in> set js)"

lemma to_visit_Cons_none:
  "to_visit fs (j # js) E \<Longrightarrow> id_file (fs_ino_table fs ! j) = None \<Longrightarrow> flat_fs items fs dirp dd is \<Longrightarrow>
   E = items (nm_files dd) \<Longrightarrow> to_visit fs js E"
  unfolding to_visit_def flat_fs_def dir_inv_def entry_inv_def by fastforce

context uthash
begin

lemma flat_scan:
  assumes "flat_fs items fs dirp dd is" "items (nm_files dd) \<noteq> []" "distinct js"
    and "to_visit fs js (items (nm_files dd))"
  shows "\<exists>fs' is'. cleanup_scan H js (r, fs) = Inr (r + length (items (nm_files dd)), fs')
    \<and> no_files fs' \<and> ino_pool fs' is' \<and> length is' = length is + length (items (nm_files dd)) + 1
    \<and> set is' \<subseteq> insert ROOT_INO (set is \<union> set js)
    \<and> fs_ino_num fs' = fs_ino_num fs \<and> length (fs_ino_table fs') = length (fs_ino_table fs)"
  using assms
proof (induction js arbitrary: fs dd "is" r)
  case Nil
  then show ?case by (cases "items (nm_files dd)") (auto simp: to_visit_def)
next
  case (Cons j js)
  let ?E = "items (nm_files dd)"
  have pool: "ino_pool fs is" using Cons.prems(1) by (simp add: flat_fs_def)
  then have num: "fs_ino_num fs = length (fs_ino_table fs)" by (simp add: ino_pool_def)
  have jl: "j < length (fs_ino_table fs)" using Cons.prems(4) by (simp add: to_visit_def)
  show ?case
  proof (cases "id_file (fs_ino_table fs ! j)")
    case None
    have "to_visit fs js ?E" using to_visit_Cons_none[OF Cons.prems(4) None Cons.prems(1)] by simp
    from Cons.IH[OF Cons.prems(1,2) _ this, of r] Cons.prems(3) None jl num show ?thesis
      by (auto simp: ino2inodesc_def)
  next
    case (Some p)
    then obtain name g where p: "(name, p) \<in> set ?E" "file_at fs p = Inr g" "f_ino g = j"
      using Cons.prems(4) by (auto simp: to_visit_def)
    have "flat_entry fs is p" using Cons.prems(1) p(1) by (force simp: flat_fs_def)
    then have "j \<notin> set is" using p(2,3) by (simp add: flat_entry_def)
    then have nx: "id_next (fs_ino_table fs ! j) = None" using pool jl by (simp add: ino_pool_def)
    from flat_remove[OF Cons.prems(1) p(1,2)] obtain fs1 dd1 where s:
      "fsRemoveitem H p True fs = Inr (True, fs1)"
      "length (fs_ino_table fs1) = length (fs_ino_table fs)" "fs_ino_num fs1 = fs_ino_num fs"
      "\<forall>j < length (fs_ino_table fs). id_file (fs_ino_table fs1 ! j) = id_file (fs_ino_table fs ! j)"
      "items (nm_files dd1) = filter (\<lambda>(_, q). q \<noteq> p) ?E"
      "if items (nm_files dd1) = [] then no_files fs1 \<and> ino_pool fs1 (ROOT_INO # f_ino g # is)
       else flat_fs items fs1 dirp dd1 (f_ino g # is)
          \<and> (\<forall>q. q \<noteq> p \<and> q \<noteq> dirp \<longrightarrow> file_at fs1 q = file_at fs q)" by blast
    have ok: "items_ok ?E" using Cons.prems(1) by (simp add: flat_fs_def dir_inv_def)
    then have len: "Suc (length (items (nm_files dd1))) = length ?E"
      using count_del[of "nm_files dd" p] p(1) s(5)
      by (force simp: count_items iter_items items_del)
    have E1: "snd ` set (items (nm_files dd1)) = snd ` set ?E - {p}"
      unfolding s(5) by (rule filter_not_set)
    have go: "cleanup_scan H (j # js) (r, fs) = cleanup_scan H js (Suc r, fs1)"
      using jl num Some nx s(1) by (simp add: ino2inodesc_def)
    show ?thesis
    proof (cases "items (nm_files dd1) = []")
      case True
      then have only: "snd ` set ?E = {p}" using E1 p(1) by force
      have "\<forall>i \<in> set js. id_file (fs_ino_table fs ! i) = None"
      proof (rule ballI, rule ccontr)
        fix i assume i: "i \<in> set js" "id_file (fs_ino_table fs ! i) \<noteq> None"
        then have "\<exists>g. file_at fs p = Inr g \<and> f_ino g = i"
          using Cons.prems(4) only by (auto simp: to_visit_def)
        then show False using p(2,3) i(1) Cons.prems(3) by auto
      qed
      then have "cleanup_scan H js (Suc r, fs1) = Inr (Suc r, fs1)"
        using Cons.prems(4) s(2-4) num by (intro cleanup_scan_none) (auto simp: to_visit_def)
      with go True s len p(3) show ?thesis
        by (intro exI[of _ fs1] exI[of _ "ROOT_INO # f_ino g # is"]) auto
    next
      case False
      then have flat1: "flat_fs items fs1 dirp dd1 (j # is)" using s(6) p(3) by simp
      have live: "file_at fs1 q = file_at fs q" if "q \<in> snd ` set ?E" "q \<noteq> p" for q
        using s(6) False that Cons.prems(1) by (auto simp: flat_fs_def dir_inv_def)
      have "to_visit fs1 js (items (nm_files dd1))"
        unfolding to_visit_def E1
      proof (intro conjI ballI allI impI)
        fix i q assume i: "i \<in> set js" "id_file (fs_ino_table fs1 ! i) = Some q"
        then have il: "i < length (fs_ino_table fs)" "id_file (fs_ino_table fs ! i) = Some q"
          using Cons.prems(4) s(4) by (auto simp: to_visit_def)
        then obtain h where h: "q \<in> snd ` set ?E" "file_at fs q = Inr h" "f_ino h = i"
          using Cons.prems(4) i(1) unfolding to_visit_def by (meson list.set_intros(2))
        have "q \<noteq> p" using h p Cons.prems(3) i(1) by auto
        with h live[OF h(1)] show "q \<in> snd ` set ?E - {p}" "\<exists>g. file_at fs1 q = Inr g \<and> f_ino g = i"
          by auto
      next
        fix q assume q: "q \<in> snd ` set ?E - {p}"
        then obtain h where h: "file_at fs q = Inr h" "f_ino h \<in> set (j # js)"
          using Cons.prems(4) by (auto simp: to_visit_def)
        have "id_file (fs_ino_table fs ! f_ino h) = Some q"
          using q h(1) Cons.prems(1) unfolding flat_fs_def dir_inv_def entry_inv_def by fastforce
        then have "f_ino h \<noteq> j" using Some q by auto
        with h live q show "\<exists>g. file_at fs1 q = Inr g \<and> f_ino g \<in> set js" by auto
      qed (use Cons.prems(4) s(2) in \<open>auto simp: to_visit_def\<close>)
      from Cons.IH[OF flat1 False _ this, of "Suc r"] Cons.prems(3) s len go p(3) jl show ?thesis
        by fastforce
    qed
  qed
qed

text \<open>The scan of the whole table: the root is refused first and goes with the last file.\<close>

lemma flat_scan_all:
  assumes flat: "flat_fs items fs dirp dd is" and ne: "items (nm_files dd) \<noteq> []"
    and zero: "INVALID_INO \<notin> set is" "id_file (fs_ino_table fs ! INVALID_INO) = None"
    and vis: "to_visit fs [2..<fs_ino_num fs] (items (nm_files dd))"
  shows "\<exists>fs' is'. cleanup_scan H [0..<fs_ino_num fs] (0, fs) = Inr (Suc (length (items (nm_files dd))), fs')
    \<and> no_files fs' \<and> ino_pool fs' is' \<and> length is' = length is + length (items (nm_files dd)) + 1
    \<and> INVALID_INO \<notin> set is' \<and> fs_ino_num fs' = fs_ino_num fs"
proof -
  note fl = flat[unfolded flat_fs_def]
  let ?n = "fs_ino_num fs" let ?E = "items (nm_files dd)"
  have n: "?n = length (fs_ino_table fs)" "1 < ?n" using fl by (auto simp: ino_pool_def ROOT_INO_def)
  have split: "[0..<?n] = 0 # 1 # [2..<?n]"
    using upt_conv_Cons[of 0 ?n] upt_conv_Cons[of 1 ?n] n(2) by (simp add: numeral_2_eq_2)
  obtain f where f: "file_at fs dirp = Inr f" "f_type f = DIRECTORY" "f_data f = D_dir dd"
    using fl by (auto simp: dir_inv_def)
  have eq: "map snd (items (ino_files dd)) = map snd ?E" using fl by (simp add: dir_inv_def)
  have "removal_dir H f fs = Inr None"
    using f ne map_eq_imp_length_eq[OF eq] by (auto simp: removal_dir_def dir_data_def count_items)
  then have refuse: "fsRemoveitem H dirp True fs = Inr (False, fs)"
    using f by (simp add: fsRemoveitem_def)
  have nx: "id_next (fs_ino_table fs ! 1) = None" using fl n by (auto simp: ino_pool_def ROOT_INO_def)
  have go: "cleanup_scan H [0..<?n] (0, fs) = cleanup_scan H [2..<?n] (1, fs)"
    unfolding split using n zero fl refuse nx by (auto simp: ino2inodesc_def INVALID_INO_def ROOT_INO_def)
  from flat_scan[OF flat ne _ vis, of 1] obtain fs' is' where s:
    "cleanup_scan H [2..<?n] (1, fs) = Inr (1 + length ?E, fs')" "no_files fs'" "ino_pool fs' is'"
    "length is' = length is + length ?E + 1" "set is' \<subseteq> insert ROOT_INO (set is \<union> set [2..<?n])"
    "fs_ino_num fs' = ?n" by auto
  have "INVALID_INO \<notin> set is'" using s(5) zero(1) by (auto simp: INVALID_INO_def ROOT_INO_def)
  then show ?thesis using go s by (intro exI[of _ fs'] exI[of _ is']) simp
qed

lemma fsCleanup_flat:
  assumes flat: "flat_fs items fs dirp dd is" and ne: "items (nm_files dd) \<noteq> []"
    and zero: "INVALID_INO \<notin> set is" "id_file (fs_ino_table fs ! INVALID_INO) = None"
    and vis: "to_visit fs [2..<fs_ino_num fs] (items (nm_files dd))"
    and all: "length is + length (items (nm_files dd)) + 2 = fs_ino_num fs"
    and mnt: "fs_mntpt fs \<noteq> None" "fs_mkdir fs"
  shows "\<exists>fs'. fsCleanup H fs = Inr (True, fs') \<and> no_files fs' \<and> fs_ino_table fs' = []
    \<and> fs_ino_num fs' = 0 \<and> fs_ino_freelist fs' = None \<and> fs_ino_numfree fs' = 0"
proof -
  let ?fs = "fs\<lparr>fs_fuse_se := False, fs_mntpt := None\<rparr>"
  let ?E = "items (nm_files dd)"
  have at: "file_at ?fs = file_at fs" by (rule file_at_cong) simp
  have "flat_fs items ?fs dirp dd is"
    using flat by (simp add: flat_fs_def at dir_inv_def entry_inv_def ino_pool_def flat_entry_def)
  moreover have "to_visit ?fs [2..<fs_ino_num ?fs] ?E" using vis by (simp add: to_visit_def at)
  ultimately obtain fs1 is1 where s:
    "cleanup_scan H [0..<fs_ino_num ?fs] (0, ?fs) = Inr (Suc (length ?E), fs1)"
    "no_files fs1" "ino_pool fs1 is1" "length is1 = length is + length ?E + 1" "INVALID_INO \<notin> set is1"
    "fs_ino_num fs1 = fs_ino_num ?fs"
    using flat_scan_all[of ?fs dirp dd "is"] ne zero by auto
  have pool: "ino_pool fs is" using flat by (simp add: flat_fs_def)
  have pos: "0 < ino_cap fs1" using s(3) by (simp add: ino_pool_def ino_cap_def)
  obtain fs2 where i: "inofree INVALID_INO fs1 = Inr (True, fs2)" "ino_pool fs2 (INVALID_INO # is1)"
    "fs_files fs2 = fs_files fs1" "fs_ino_num fs2 = fs_ino_num fs1"
    using inofree_table[OF s(3) _ s(5)] pos by (auto simp: INVALID_INO_def)
  have tb: "fs_ino_table ?fs \<noteq> []" "fs_ino_num ?fs \<noteq> 0" using pool by (auto simp: ino_pool_def)
  have free: "fs_ino_numfree ?fs = int (length is)" "fs_ino_numfree fs2 = int (length is1) + 1"
    using pool i(2) by (auto simp: ino_pool_def)
  let ?r = "fs2\<lparr>fs_ino_table := [], fs_ino_num := 0, fs_ino_freelist := None, fs_ino_numfree := 0\<rparr>"
  have "fsCleanup_inodes H ?fs = Inr ?r"
    using tb s(1,4,6) i(1,4) free all by (simp add: fsCleanup_inodes_def Let_def)
  moreover have "no_files ?r"
    using s(2) file_at_cong[of ?r fs1] by (simp add: no_files_def i(3))
  ultimately show ?thesis using mnt by (auto simp: fsCleanup_def)
qed

end

end
