(* ===== verification/FsBuild.thy ===== *)
theory FsBuild
  imports FsRemove
begin

text \<open>
  The life of the program's file system: it is built as a root directory with files in it,
  and this is enough for \<open>fsCleanup\<close> to return every inode and free every object.
\<close>

definition fs_built ::
  "('h \<Rightarrow> (string \<times> ptr) list) \<Rightarrow> 'h fs_t \<Rightarrow> ptr \<Rightarrow> 'h fs_dir_t \<Rightarrow> nat list \<Rightarrow> bool" where
  "fs_built items fs dirp dd is \<longleftrightarrow> fs_ready items fs ROOT_INO dirp dd is \<and> flat_fs items fs dirp dd is
     \<and> id_file (fs_ino_table fs ! INVALID_INO) = None \<and> INVALID_INO \<notin> set is
     \<and> to_visit fs [2..<fs_ino_num fs] (items (nm_files dd))
     \<and> length is + length (items (nm_files dd)) + 2 = fs_ino_num fs"

lemma file_init_simps [simp]:
  "f_ino (file_init i d dt n t m ops) = i" "f_dir (file_init i d dt n t m ops) = d"
  "f_type (file_init i d dt n t m ops) = t" "f_malloced (file_init i d dt n t m ops) = m"
  "f_name (file_init i d dt n t m ops) = n" "f_ops (file_init i d dt n t m ops) = Some ops"
  "f_data (file_init i d dt n t m ops) = dt"
  by (simp_all add: file_init_def)

context uthash
begin

lemma fsCreatefile_built:
  assumes b: "fs_built items fs dirp dd (i # is)" and name: "name \<notin> fst ` set (items (nm_files dd))"
  shows "\<exists>fs' dd'. fsCreatefile H ROOT_INO name symlink ops fs = Inr (length (fs_files fs), fs')
    \<and> fs_built items fs' dirp dd' is
    \<and> items (nm_files dd') = items (nm_files dd) @ [(name, length (fs_files fs))]
    \<and> file_at fs' (length (fs_files fs)) = Inr (file_init i ROOT_INO
         (case symlink of None \<Rightarrow> D_null | Some s \<Rightarrow> D_link s) name
         (case symlink of None \<Rightarrow> REGULAR | Some s \<Rightarrow> SYMLINK) True ops)
    \<and> (\<forall>q. q < length (fs_files fs) \<and> q \<noteq> dirp \<longrightarrow> file_at fs' q = file_at fs q)
    \<and> fs_setup fs' = fs_setup fs"
proof -
  note d = b[unfolded fs_built_def]
  have ready: "fs_ready items fs ROOT_INO dirp dd (i # is)" using d by simp
  note r = ready[unfolded fs_ready_def]
  have pool: "ino_pool fs (i # is)" "ino_clean fs i" "ino_cap fs \<le> 2 ^ 64" "distinct (i # is)"
    and dir: "ROOT_INO \<noteq> INVALID_INO" "parent_dir ''fsCreatefile'' ROOT_INO fs = Inr dirp"
      "dir_inv items fs dirp dd" using r by (auto simp: ino_pool_def)
  have "hh_find H (nm_files dd) name = None"
    using name dir(3) by (simp add: dir_inv_def find_None_iff)
  from fsCreatefile_ok[OF pool(1-3) dir this, of symlink ops] obtain fs' dd' f where c:
    "fsCreatefile H ROOT_INO name symlink ops fs = Inr (length (fs_files fs), fs')"
    "dir_inv items fs' dirp dd'"
    "items (nm_files dd') = items (nm_files dd) @ [(name, length (fs_files fs))]"
    "file_at fs' (length (fs_files fs)) = Inr (file_init i ROOT_INO
         (case symlink of None \<Rightarrow> D_null | Some s \<Rightarrow> D_link s) name
         (case symlink of None \<Rightarrow> REGULAR | Some s \<Rightarrow> SYMLINK) True ops)"
    "\<forall>q. q < length (fs_files fs) \<and> q \<noteq> dirp \<longrightarrow> file_at fs' q = file_at fs q"
    "ino_pool fs' is" "fs_ino_num fs' = fs_ino_num fs"
    "\<forall>j. j \<noteq> i \<longrightarrow> ino_clean fs' j = ino_clean fs j"
    "parent_dir ''fsCreatefile'' ROOT_INO fs' = Inr dirp"
    "file_at fs dirp = Inr f"
    "\<forall>q. file_at fs' q = (if q = dirp then Inr (f\<lparr>f_data := D_dir dd'\<rparr>)
         else if q = length (fs_files fs) then Inr (file_init i ROOT_INO
           (case symlink of None \<Rightarrow> D_null | Some s \<Rightarrow> D_link s) name
           (case symlink of None \<Rightarrow> REGULAR | Some s \<Rightarrow> SYMLINK) True ops) else file_at fs q)"
    "fs_ino_table fs' = (fs_ino_table fs)[i := \<lparr>id_file = Some (length (fs_files fs)), id_next = None\<rparr>]"
    "fs_setup fs' = fs_setup fs"
    by blast
  let ?p = "length (fs_files fs)" let ?E = "items (nm_files dd)"
  note at = c(11)[rule_format]
  note fl = d[THEN conjunct2, THEN conjunct1, unfolded flat_fs_def]
  have num: "fs_ino_num fs = length (fs_ino_table fs)" using pool(1) by (simp add: ino_pool_def)
  have il: "i < length (fs_ino_table fs)" using inodes.pool_ids[OF pool(1)] by (simp add: ino_cap_def)
  have ne: "i \<noteq> ROOT_INO" "i \<noteq> INVALID_INO" "i \<notin> set is" using d fl pool(4) by auto
  have dp: "dirp \<noteq> ?p" using file_at_bound[OF c(10)] by simp
  have eb: "q \<noteq> ?p" "q \<noteq> dirp" if "q \<in> snd ` set ?E" for q
    using dir_inv_entries_bound[OF dir(3) that] that dir(3) by (auto simp: dir_inv_def)
  have ready': "fs_ready items fs' ROOT_INO dirp dd' is"
    using r c(2,6,8,9,12) ne(3) by (auto simp: fs_ready_def ino_cap_def)
  have ent: "flat_entry fs' is q" if "q \<in> snd ` set (items (nm_files dd'))" for q
  proof (cases "q = ?p")
    case True
    then show ?thesis
      using ne by (auto simp: flat_entry_def c(4) split: option.splits)
  next
    case False
    then have q: "q \<in> snd ` set ?E" using that c(3) by auto
    then show ?thesis using fl eb[OF q] unfolding flat_entry_def at by (fastforce)
  qed
  have flat': "flat_fs items fs' dirp dd' is"
    unfolding flat_fs_def
  proof (intro conjI)
    show "\<forall>q h. file_at fs' q = Inr h \<longrightarrow> q = dirp \<or> q \<in> snd ` set (items (nm_files dd'))"
      using fl unfolding c(3) at by auto
    show "id_file (fs_ino_table fs' ! ROOT_INO) = Some dirp" using fl ne(1) by (simp add: c(12))
  qed (use fl c(2,6,10,12) ent in \<open>auto simp: at\<close>)
  have vis: "to_visit fs [2..<fs_ino_num fs] ?E" using d by simp
  have vis': "to_visit fs' [2..<fs_ino_num fs'] (items (nm_files dd'))"
    unfolding to_visit_def
  proof (intro conjI ballI allI impI)
    fix j q assume j: "j \<in> set [2..<fs_ino_num fs']" "id_file (fs_ino_table fs' ! j) = Some q"
    have "q \<in> snd ` set (items (nm_files dd')) \<and> (\<exists>g. file_at fs' q = Inr g \<and> f_ino g = j)"
    proof (cases "j = i")
      case True
      then have "q = ?p" using j(2) il by (simp add: c(12))
      then show ?thesis using True by (simp add: c(3,4))
    next
      case False
      then have "id_file (fs_ino_table fs ! j) = Some q" "j \<in> set [2..<fs_ino_num fs]"
        using j by (simp_all add: c(7,12))
      then obtain g where g: "q \<in> snd ` set ?E" "file_at fs q = Inr g" "f_ino g = j"
        using vis unfolding to_visit_def by meson
      then show ?thesis using eb[OF g(1)] by (auto simp: c(3) at)
    qed
    then show "q \<in> snd ` set (items (nm_files dd'))" "\<exists>g. file_at fs' q = Inr g \<and> f_ino g = j" by auto
  next
    fix q assume q: "q \<in> snd ` set (items (nm_files dd'))"
    show "\<exists>g. file_at fs' q = Inr g \<and> f_ino g \<in> set [2..<fs_ino_num fs']"
    proof (cases "q = ?p")
      case True
      then show ?thesis
        using ne il num by (auto simp: c(4,7) ROOT_INO_def INVALID_INO_def)
    next
      case False
      then have q: "q \<in> snd ` set ?E" using q c(3) by auto
      then obtain g where "file_at fs q = Inr g" "f_ino g \<in> set [2..<fs_ino_num fs]"
        using vis unfolding to_visit_def by meson
      then show ?thesis using eb[OF q] by (auto simp: at c(7))
    qed
  qed (simp_all add: c(7,12) num)
  have "fs_built items fs' dirp dd' is"
    unfolding fs_built_def using ready' flat' vis' d ne by (simp add: c(3,7,12))
  then show ?thesis using c(1,3,4,5,13) by blast
qed

text \<open>The two allocations of \<open>fsCreate\<close> that make the root.\<close>

lemma root_built:
  assumes fs: "fs_ino_table fs = []" "fs_ino_num fs = 0" "fs_files fs = []"
  shows "\<exists>fs1 fs2 dd. inoalloc fs = Inr (INVALID_INO, fs1)
    \<and> fsCreatedir H INVALID_INO ''.'' Fs_dir_ops fs1 = Inr (0, fs2)
    \<and> fs_built items fs2 0 dd [2..<INO_NUM] \<and> items (nm_files dd) = []
    \<and> fs_setup fs2 = fs_setup fs \<and> (\<exists>f. file_at fs2 0 = Inr f \<and> f_ino f = ROOT_INO)"
proof -
  from first_inoalloc_setup[OF fs(1,2)] obtain fs1 where a: "inoalloc fs = Inr (0, fs1)"
    "ino_pool fs1 [1..<INO_NUM]" "\<forall>i. ino_clean fs1 i" "ino_cap fs1 = INO_NUM" "fs_files fs1 = fs_files fs"
    "fs_setup fs1 = fs_setup fs" by blast
  have pool: "ino_pool fs1 (1 # [2..<INO_NUM])" using a(2) by (simp only: ino_numbers(2))
  have cl: "ino_clean fs1 1" using a(3) by simp
  from inodes.alloc_hd[OF pool cl] obtain fs2 where b: "inoalloc fs1 = Inr (1, fs2)" by auto
  note st = inoalloc_pool_step[OF pool cl b]
  have set2: "fs_setup fs2 = fs_setup fs" using inoalloc_pool[OF pool cl] b a(6) by (auto simp: fs_setup_def)
  have cap: "length (fs_ino_table fs1) = INO_NUM" using a(4) by (simp add: ino_cap_def)
  have num: "fs_ino_num fs2 = INO_NUM" "length (fs_ino_table fs2) = INO_NUM"
    using st(2,3) a(4) by (auto simp: ino_pool_def ino_cap_def)
  have clean: "id_file (fs_ino_table fs2 ! j) = None" if "j < INO_NUM" for j
    using st(4) a(3) num that by (simp add: ino_clean_def fun_eq_iff)
  have nx: "id_next (fs_ino_table fs2 ! j) = None" if "j < 2" for j
    using st(2) num that INO_NUM_gt by (auto simp: ino_pool_def)
  have new: "new_inode ''fsCreatedir'' fs1 = Inr (1, fs2)"
    using b num clean[of 1] nx[of 1] INO_NUM_gt by (simp add: new_inode_def ino2inodesc_def)
  have R: "ROOT_INO = 1" by (simp add: ROOT_INO_def)
  let ?dd = "\<lparr>ino_files = hh_empty H, nm_files = hh_empty H\<rparr>"
  let ?f = "file_init ROOT_INO INVALID_INO (D_dir ?dd) ''.'' DIRECTORY True Fs_dir_ops"
  let ?fs3 = "set_inode_file ROOT_INO 0 (fs2\<lparr>fs_files := [Some ?f]\<rparr>)"
  have res: "fsCreatedir H INVALID_INO ''.'' Fs_dir_ops fs1 = Inr (0, ?fs3)"
    using new[folded R] st(5) a(5) fs(3) by (simp add: fsCreatedir_def malloc_file_def)
  have at: "file_at ?fs3 q = (if q = 0 then Inr ?f else Inl UseAfterFree)" for q
    by (auto simp: file_at_def set_inode_file_def)
  have tb: "fs_ino_table ?fs3 = (fs_ino_table fs2)[ROOT_INO := \<lparr>id_file = Some 0, id_next = None\<rparr>]"
    using nx[of ROOT_INO] R by (cases "fs_ino_table fs2 ! ROOT_INO") (simp add: set_inode_file_def)
  have pool3: "ino_pool ?fs3 [2..<INO_NUM]"
  proof (rule ino_pool_set_file)
    show "ino_pool (fs2\<lparr>fs_files := [Some ?f]\<rparr>) [2..<INO_NUM]"
      using st(2) by (subst ino_pool_cong[of _ fs2]) simp_all
  qed (simp add: R)
  have inv: "dir_inv items ?fs3 0 ?dd" by (simp add: dir_inv_def at items_empty)
  have par: "parent_dir ''fsCreatefile'' ROOT_INO ?fs3 = Inr 0"
    using num R INO_NUM_gt
    by (simp add: parent_dir_def ino2inodesc_def tb at deref_def)
       (simp add: set_inode_file_def)
  have cap3: "ino_cap ?fs3 \<le> 2 ^ 64" using num by (simp add: ino_cap_def tb INO_NUM_def)
  have clean3: "ino_clean ?fs3 j" if "2 \<le> j" for j
    using clean[of j] that num R by (auto simp: ino_clean_def tb)
  have num3: "fs_ino_num ?fs3 = INO_NUM" using num by (simp add: set_inode_file_def)
  have "fs_ready items ?fs3 ROOT_INO 0 ?dd [2..<INO_NUM]"
    using pool3 inv par cap3 clean3 by (auto simp: fs_ready_def R INVALID_INO_def)
  moreover have "flat_fs items ?fs3 0 ?dd [2..<INO_NUM]"
    using pool3 inv num R INO_NUM_gt by (auto simp: flat_fs_def at items_empty tb)
  moreover have "to_visit ?fs3 [2..<INO_NUM] []"
    using clean num R by (auto simp: to_visit_def tb)
  moreover have "id_file (fs_ino_table ?fs3 ! INVALID_INO) = None"
    using clean[of 0] num INO_NUM_gt R unfolding tb by (simp add: INVALID_INO_def)
  moreover have "INVALID_INO \<notin> set [2..<INO_NUM]" by (simp add: INVALID_INO_def)
  moreover have "length [2..<INO_NUM] + length (items (nm_files ?dd)) + 2 = INO_NUM"
    using INO_NUM_gt by (simp add: items_empty)
  ultimately have "fs_built items ?fs3 0 ?dd [2..<INO_NUM]"
    unfolding fs_built_def num3 by (simp add: items_empty)
  moreover have "fs_setup ?fs3 = fs_setup fs" by (simp add: set_inode_file_def set2)
  ultimately show ?thesis
    using a(1)[folded INVALID_INO_def] res
    by (intro exI[of _ fs1] exI[of _ ?fs3] exI[of _ ?dd]) (simp add: items_empty at)
qed

text \<open>A built file system is taken down completely.\<close>

lemma fsCleanup_built:
  assumes "fs_built items fs dirp dd is" "items (nm_files dd) \<noteq> []" "fs_mntpt fs \<noteq> None" "fs_mkdir fs"
  shows "\<exists>fs'. fsCleanup H fs = Inr (True, fs') \<and> no_files fs' \<and> fs_ino_table fs' = []
    \<and> fs_ino_num fs' = 0 \<and> fs_ino_freelist fs' = None \<and> fs_ino_numfree fs' = 0"
proof -
  note b = assms(1)[unfolded fs_built_def]
  show ?thesis
    by (rule fsCleanup_flat[of _ dirp dd "is", OF _ assms(2) _ _ _ _ assms(3,4)]) (use b in auto)
qed

end

end
