(* ===== verification/YarFs.thy ===== *)
theory YarFs
  imports Globals FsBuild
begin

text \<open>
  The files of \<open>yarfs.c\<close>. Each has a size, computed when the file is asked for its
  attributes, and contents, computed into a buffer of that size when it is read. The interface
  \<open>synth_file\<close> is what a reader relies on; it is interpreted for every file of the program.
\<close>

section \<open>Writing into a buffer\<close>

text \<open>
  The code fills a buffer of \<open>n\<close> bytes through a pointer: \<open>stpcpy\<close> stores the characters and a
  null, the position moves to that null; \<open>*next = c; next++\<close> stores one character. Every store
  is checked against \<open>n\<close>. The bytes up to the position are the accumulated string.
\<close>

definition stpcpy :: "nat \<Rightarrow> string \<Rightarrow> string \<Rightarrow> string res" where
  "stpcpy n acc str = (if length acc + length str < n then Inr (acc @ str) else Inl OutOfBounds)"

definition putch :: "nat \<Rightarrow> string \<Rightarrow> char \<Rightarrow> string res" where
  "putch n acc c = (if length acc < n then Inr (acc @ [c]) else Inl OutOfBounds)"

text \<open>Fields, each with the separator that follows it.\<close>

fun put_fields :: "nat \<Rightarrow> string \<Rightarrow> (string \<times> char) list \<Rightarrow> string res" where
  "put_fields n acc [] = Inr acc"
| "put_fields n acc ((f, sep) # fs) =
     bind_res (stpcpy n acc f) (\<lambda>acc. bind_res (putch n acc sep) (\<lambda>acc. put_fields n acc fs))"

definition fields_text :: "(string \<times> char) list \<Rightarrow> string" where
  "fields_text fs = concat (map (\<lambda>(f, sep). f @ [sep]) fs)"

lemma fields_text_simps [simp]:
  "fields_text [] = []" "fields_text ((f, sep) # fs) = f @ sep # fields_text fs"
  "fields_text (xs @ ys) = fields_text xs @ fields_text ys"
  by (simp_all add: fields_text_def)

text \<open>Fields that fit are written whole, and nothing is stored out of bounds.\<close>

lemma put_fields_fit:
  "length acc + length (fields_text fs) \<le> n \<Longrightarrow> put_fields n acc fs = Inr (acc @ fields_text fs)"
  by (induction fs arbitrary: acc) (auto simp: stpcpy_def putch_def)

text \<open>A reply of \<open>n\<close> bytes needs all of them written; a final \<open>stpcpy\<close> counts with its null.\<close>

definition filled :: "nat \<Rightarrow> string \<Rightarrow> string res" where
  "filled n acc = (if length acc = n then Inr acc else if Suc (length acc) = n then Inr (acc @ [nul])
     else Inl UninitRead)"

section \<open>The five files\<close>

definition str_res :: "string option \<Rightarrow> string res" where
  "str_res p = (case p of None \<Rightarrow> Inl NullDeref | Some str \<Rightarrow> Inr str)"

text \<open>\<open>HASH_ITER\<close> over the commands.\<close>

definition all_cmds :: "'h hashops \<Rightarrow> 'h sys \<Rightarrow> cmd_t list res" where
  "all_cmds H s = map_res (cmd_at s) (hh_iter H (g_cmds (s_gbls s)))"

definition pidSize :: "'h sys \<Rightarrow> nat res" where
  "pidSize s = Inr (length (dec_int (g_pid (s_gbls s))))"

definition fs_pid_buf :: "'h sys \<Rightarrow> string res" where
  "fs_pid_buf s =
     bind_res (pidSize s) (\<lambda>n. filled n (take n (dec_int (g_pid (s_gbls s)))))"

definition cmdNamesSize :: "'h hashops \<Rightarrow> 'h sys \<Rightarrow> nat res" where
  "cmdNamesSize H s =
     bind_res (all_cmds H s) (\<lambda>cs.
     bind_res (map_res (\<lambda>c. str_res (c_name c)) cs) (\<lambda>names.
     Inr (sum_list (map (\<lambda>nm. length nm + 1) names))))"

definition fs_cmds_buf :: "'h hashops \<Rightarrow> 'h sys \<Rightarrow> string res" where
  "fs_cmds_buf H s =
     bind_res (cmdNamesSize H s) (\<lambda>n.
     bind_res (all_cmds H s) (\<lambda>cs.
     bind_res (map_res (\<lambda>c. str_res (c_name c)) cs) (\<lambda>names.
     bind_res (put_fields n [] (map (\<lambda>nm. (nm, newline)) names)) (filled n))))"

text \<open>The strings of a command that the listings show: name, tty link, command line.\<close>

definition cmd_strings :: "cmd_t \<Rightarrow> (string \<times> string \<times> string) res" where
  "cmd_strings c =
     bind_res (str_res (c_name c)) (\<lambda>nm.
     bind_res (str_res (tty_link (c_clttty c))) (\<lambda>link.
     bind_res (str_res (c_cmdline c)) (\<lambda>cl. Inr (nm, link, cl))))"

definition all_strings :: "'h hashops \<Rightarrow> 'h sys \<Rightarrow> (string \<times> string \<times> string) list res" where
  "all_strings H s = bind_res (all_cmds H s) (map_res cmd_strings)"

definition pid_str :: "'h sys \<Rightarrow> string" where
  "pid_str s = dec_int (g_pid (s_gbls s))"

definition cmdsInfoSize :: "'h hashops \<Rightarrow> 'h sys \<Rightarrow> nat res" where
  "cmdsInfoSize H s =
     bind_res (all_strings H s) (\<lambda>xs.
     Inr (sum_list (map (\<lambda>(nm, link, cl). (length nm + 1) + (length link + 1) + (length (pid_str s) + 1)
                                          + (length cl + 1)) xs)))"

definition fs_lcmds_buf :: "'h hashops \<Rightarrow> 'h sys \<Rightarrow> string res" where
  "fs_lcmds_buf H s =
     bind_res (cmdsInfoSize H s) (\<lambda>n.
     bind_res (all_strings H s) (\<lambda>xs.
     bind_res (put_fields n [] (concat (map (\<lambda>(nm, link, cl).
                 [(nm, CHR '',''), (link, CHR '',''), (pid_str s, CHR '',''), (cl, newline)]) xs))) (filled n)))"

definition cmdcnt_str :: "'h hashops \<Rightarrow> 'h sys \<Rightarrow> string" where
  "cmdcnt_str H s = dec_int (int (hh_count H (g_cmds (s_gbls s))))"

definition ttysInfoSize :: "'h hashops \<Rightarrow> 'h sys \<Rightarrow> nat res" where
  "ttysInfoSize H s =
     bind_res (all_strings H s) (\<lambda>xs.
     bind_res (str_res (tty_link (g_bcsttty (s_gbls s)))) (\<lambda>blink.
     bind_res (str_res (tty_link (m_tty (g_mon (s_gbls s))))) (\<lambda>mlink.
     Inr (sum_list (map (\<lambda>(nm, link, cl). (length link + 1) + (length (pid_str s) + 1) + (3 + 1)
                                          + (length nm + 1) + (length cl + 1)) xs)
          + ((length blink + 1) + (length (pid_str s) + 1) + (4 + 1) + (length (cmdcnt_str H s) + 2))
          + ((length mlink + 1) + (length (pid_str s) + 1) + (3 + 3))))))"

definition fs_ttys_buf :: "'h hashops \<Rightarrow> 'h sys \<Rightarrow> string res" where
  "fs_ttys_buf H s =
     bind_res (ttysInfoSize H s) (\<lambda>n.
     bind_res (all_strings H s) (\<lambda>xs.
     bind_res (str_res (tty_link (g_bcsttty (s_gbls s)))) (\<lambda>blink.
     bind_res (str_res (tty_link (m_tty (g_mon (s_gbls s))))) (\<lambda>mlink.
     bind_res (put_fields n [] (concat (map (\<lambda>(nm, link, cl).
                 [(link, CHR '',''), (pid_str s, CHR '',''), (''cmd'', CHR '',''), (nm, CHR '',''),
                  (cl, newline)]) xs)
               @ [(blink, CHR '',''), (pid_str s, CHR '',''), (''bcst'', CHR '','')])) (\<lambda>acc.
     bind_res (put_fields n acc [(cmdcnt_str H s, CHR '','')]) (\<lambda>acc.
     bind_res (putch n acc newline) (\<lambda>acc.
     bind_res (put_fields n acc [(mlink, CHR '',''), (pid_str s, CHR '',''), (''mon'', CHR '','')]) (\<lambda>acc.
     bind_res (putch n acc (CHR '','')) (\<lambda>acc.
     bind_res (putch n acc newline) (filled n))))))))))"

definition bcstSize :: "'h sys \<Rightarrow> nat res" where
  "bcstSize s = (case tty_link (g_bcsttty (s_gbls s)) of None \<Rightarrow> Inr 0 | Some l \<Rightarrow> Inr (length l + 1))"

definition fs_bcst_buf :: "'h sys \<Rightarrow> string res" where
  "fs_bcst_buf s =
     bind_res (bcstSize s) (\<lambda>n.
     bind_res (str_res (tty_link (g_bcsttty (s_gbls s)))) (\<lambda>l.
     bind_res (stpcpy n [] l) (filled n)))"

section \<open>Attributes and reads\<close>

text \<open>The attributes of a file: \<open>S_IFREG | 0444\<close>, one link, and the size.\<close>

definition regular_stat :: "nat res \<Rightarrow> 'h fs_file_t \<Rightarrow> stat \<Rightarrow> stat res" where
  "regular_stat sz file st =
     bind_res sz (\<lambda>n. Inr (st\<lparr>st_ino := f_ino file, st_mode := 32768 + 292, st_nlink := 1, st_size := n\<rparr>))"

definition fs_pid_stat :: "'h sys \<Rightarrow> 'h fs_file_t \<Rightarrow> stat \<Rightarrow> stat res" where
  "fs_pid_stat s = regular_stat (pidSize s)"

definition fs_cmds_stat :: "'h hashops \<Rightarrow> 'h sys \<Rightarrow> 'h fs_file_t \<Rightarrow> stat \<Rightarrow> stat res" where
  "fs_cmds_stat H s = regular_stat (cmdNamesSize H s)"

definition fs_lcmds_stat :: "'h hashops \<Rightarrow> 'h sys \<Rightarrow> 'h fs_file_t \<Rightarrow> stat \<Rightarrow> stat res" where
  "fs_lcmds_stat H s = regular_stat (cmdsInfoSize H s)"

definition fs_ttys_stat :: "'h hashops \<Rightarrow> 'h sys \<Rightarrow> 'h fs_file_t \<Rightarrow> stat \<Rightarrow> stat res" where
  "fs_ttys_stat H s = regular_stat (ttysInfoSize H s)"

definition fs_bcst_stat :: "'h sys \<Rightarrow> 'h fs_file_t \<Rightarrow> stat \<Rightarrow> stat res" where
  "fs_bcst_stat s = regular_stat (bcstSize s)"

lemmas file_stats = fs_pid_stat_def fs_cmds_stat_def fs_lcmds_stat_def fs_ttys_stat_def fs_bcst_stat_def regular_stat_def

definition synth_read :: "string res \<Rightarrow> nat \<Rightarrow> int \<Rightarrow> fuse_reply res" where
  "synth_read buf sz off = bind_res buf (\<lambda>b. Inr (fsFuseReplyBufLimited b off sz))"

text \<open>The operation tables of the files, on the state the callbacks run in.\<close>

definition yarfs_ops :: "'h hashops \<Rightarrow> fuse_lib \<Rightarrow> 'h sys \<Rightarrow> 'h optable" where
  "yarfs_ops H L s =
     \<lparr>op_stat = (\<lambda>ops file st. case ops of
          Fs_dir_ops \<Rightarrow> Inr (fs_dir_stat file st)
        | Fs_pid_ops \<Rightarrow> fs_pid_stat s file st
        | Fs_cmds_ops \<Rightarrow> fs_cmds_stat H s file st
        | Fs_lcmds_ops \<Rightarrow> fs_lcmds_stat H s file st
        | Fs_ttys_ops \<Rightarrow> fs_ttys_stat H s file st
        | Fs_bcst_ops \<Rightarrow> fs_bcst_stat s file st),
      op_read = (\<lambda>ops. case ops of
          Fs_dir_ops \<Rightarrow> None
        | Fs_pid_ops \<Rightarrow> Some (synth_read (fs_pid_buf s))
        | Fs_cmds_ops \<Rightarrow> Some (synth_read (fs_cmds_buf H s))
        | Fs_lcmds_ops \<Rightarrow> Some (synth_read (fs_lcmds_buf H s))
        | Fs_ttys_ops \<Rightarrow> Some (synth_read (fs_ttys_buf H s))
        | Fs_bcst_ops \<Rightarrow> Some (synth_read (fs_bcst_buf s))),
      op_readdir = (\<lambda>ops. case ops of Fs_dir_ops \<Rightarrow> Some (fs_dir_readdir H L) | _ \<Rightarrow> None)\<rparr>"

text \<open>The files the root directory is filled with.\<close>

definition yarfs_files :: "(string \<times> fs_ops) list" where
  "yarfs_files = [(''pid'', Fs_pid_ops), (''cmds'', Fs_cmds_ops), (''lcmds'', Fs_lcmds_ops),
     (''ttys'', Fs_ttys_ops), (''bcst'', Fs_bcst_ops)]"

definition yarfsCreate :: "'h hashops \<Rightarrow> 'h fs_t \<Rightarrow> nat \<Rightarrow> 'h fs_t res" where
  "yarfsCreate H fs rootino =
     fold_res (\<lambda>(name, ops) fs. bind_res (fsCreatefile H rootino name None ops fs) (\<lambda>(_, fs). Inr fs))
       yarfs_files fs"

text \<open>The mount point, \<open><dir>/<pid>.fs\<close>, where it fits a path.\<close>

definition fsMountPoint :: "string option \<Rightarrow> int \<Rightarrow> string option" where
  "fsMountPoint dir pid =
     (let path = (case dir of None \<Rightarrow> [] | Some d \<Rightarrow> d @ ''/'') @ dec_int pid @ ''.fs''
      in if length path \<ge> PATH_MAX then None else Some path)"

section \<open>What a reader relies on\<close>

locale synth_file =
  fixes size_of :: "'a \<Rightarrow> nat res"
    and buf_of :: "'a \<Rightarrow> string res"
    and text_of :: "'a \<Rightarrow> string \<Rightarrow> bool"
  assumes size_text: "text_of s b \<Longrightarrow> size_of s = Inr (length b)"
    and buf_text: "text_of s b \<Longrightarrow> buf_of s = Inr b"
begin

text \<open>The size a reader is told is the number of bytes it can read.\<close>

lemma size_of_buf: "text_of s b \<Longrightarrow> \<exists>n. size_of s = Inr n \<and> buf_of s = Inr b \<and> length b = n"
  using size_text buf_text by blast

text \<open>Reading in pieces of \<open>sz\<close> bytes puts the contents together again.\<close>

lemma read_piece:
  assumes "text_of s b" "length b < 2 ^ 63" "i < 2 ^ 63"
  shows "synth_read (buf_of s) sz (int i) = Inr (Reply_buf (take sz (drop i b)))"
proof -
  have "int i mod 2 ^ 64 = int i" using assms(3) by (simp add: mod_pos_pos_trivial)
  then show ?thesis
    using buf_text[OF assms(1)] by (auto simp: synth_read_def fsFuseReplyBufLimited_def min_def)
qed

lemma read_pieces:
  assumes "text_of s b" "n * sz < 2 ^ 63" "length b \<le> n * sz"
  shows "map_res (\<lambda>i. synth_read (buf_of s) sz (int (i * sz))) [0..<n] =
    Inr (map (\<lambda>i. Reply_buf (take sz (drop (i * sz) b))) [0..<n])
    \<and> concat (map (\<lambda>i. take sz (drop (i * sz) b)) [0..<n]) = b"
proof
  have b: "length b < 2 ^ 63" using assms(2,3) by linarith
  have "synth_read (buf_of s) sz (int (i * sz)) = Inr (Reply_buf (take sz (drop (i * sz) b)))"
    if "i \<in> set [0..<n]" for i
  proof (rule read_piece[OF assms(1) b])
    have "i * sz \<le> n * sz" using that by (intro mult_le_mono1) simp
    then show "i * sz < 2 ^ 63" using assms(2) by linarith
  qed
  then show "map_res (\<lambda>i. synth_read (buf_of s) sz (int (i * sz))) [0..<n] =
      Inr (map (\<lambda>i. Reply_buf (take sz (drop (i * sz) b))) [0..<n])"
    by (rule map_res_Inr)
  have "concat (map (\<lambda>i. take sz (drop (i * sz) b)) [0..<m]) = take (m * sz) b" for m
    by (induction m) (simp_all add: take_add[symmetric] add.commute)
  then show "concat (map (\<lambda>i. take sz (drop (i * sz) b)) [0..<n]) = b" using assms(3) by simp
qed

end

section \<open>The files of the program\<close>

text \<open>What each file is to contain, for commands that are alive and have their strings.\<close>

definition cmds_lines :: "'h hashops \<Rightarrow> 'h sys \<Rightarrow> (string \<times> string \<times> string) list \<Rightarrow> bool" where
  "cmds_lines H s xs \<longleftrightarrow> all_strings H s = Inr xs"

definition pid_text :: "'h sys \<Rightarrow> string \<Rightarrow> bool" where
  "pid_text s b \<longleftrightarrow> b = pid_str s"

definition cmds_text :: "'h hashops \<Rightarrow> 'h sys \<Rightarrow> string \<Rightarrow> bool" where
  "cmds_text H s b \<longleftrightarrow> (\<exists>xs. cmds_lines H s xs \<and> b = concat (map (\<lambda>(nm, link, cl). nm @ [newline]) xs))"

definition lcmds_text :: "'h hashops \<Rightarrow> 'h sys \<Rightarrow> string \<Rightarrow> bool" where
  "lcmds_text H s b \<longleftrightarrow> (\<exists>xs. cmds_lines H s xs \<and> b = concat (map (\<lambda>(nm, link, cl).
     nm @ '','' @ link @ '','' @ pid_str s @ '','' @ cl @ [newline]) xs))"

definition ttys_text :: "'h hashops \<Rightarrow> 'h sys \<Rightarrow> string \<Rightarrow> bool" where
  "ttys_text H s b \<longleftrightarrow> (\<exists>xs blink mlink. cmds_lines H s xs
     \<and> tty_link (g_bcsttty (s_gbls s)) = Some blink \<and> tty_link (m_tty (g_mon (s_gbls s))) = Some mlink
     \<and> b = concat (map (\<lambda>(nm, link, cl). link @ '','' @ pid_str s @ '',cmd,'' @ nm @ '','' @ cl @ [newline]) xs)
           @ blink @ '','' @ pid_str s @ '',bcst,'' @ cmdcnt_str H s @ '','' @ [newline]
           @ mlink @ '','' @ pid_str s @ '',mon,,'' @ [newline])"

definition bcst_text :: "'h sys \<Rightarrow> string \<Rightarrow> bool" where
  "bcst_text s b \<longleftrightarrow> (\<exists>l. tty_link (g_bcsttty (s_gbls s)) = Some l \<and> b = l @ [nul])"

lemma all_strings_names:
  assumes "all_strings H s = Inr xs"
  shows "\<exists>cs. all_cmds H s = Inr cs \<and> map_res (\<lambda>c. str_res (c_name c)) cs = Inr (map fst xs)"
proof -
  from assms obtain cs where cs: "all_cmds H s = Inr cs" "map_res cmd_strings cs = Inr xs"
    by (auto simp: all_strings_def bind_res_eq_Inr)
  have "list_all2 (\<lambda>c x. cmd_strings c = Inr x) cs xs" using cs(2) by (simp add: map_res_eq_Inr)
  then have "list_all2 (\<lambda>c nm. str_res (c_name c) = Inr nm) cs (map fst xs)"
    unfolding list_all2_map2 by (rule list.rel_mono_strong) (auto simp: cmd_strings_def bind_res_eq_Inr)
  then show ?thesis using cs(1) by (simp add: map_res_eq_Inr)
qed

interpretation pid_file: synth_file pidSize fs_pid_buf pid_text
  by unfold_locales (simp_all add: pid_text_def pidSize_def fs_pid_buf_def pid_str_def filled_def)

interpretation cmds_file: synth_file "cmdNamesSize H" "fs_cmds_buf H" "cmds_text H" for H :: "'h hashops"
proof (unfold_locales, goal_cases)
  case (1 s b)
  then obtain xs where xs: "all_strings H s = Inr xs" "b = concat (map (\<lambda>(nm, link, cl). nm @ [newline]) xs)"
    by (auto simp: cmds_text_def cmds_lines_def)
  from all_strings_names[OF xs(1)] show ?case
    by (auto simp: cmdNamesSize_def xs(2) length_concat comp_def split_def)
next
  case (2 s b)
  then obtain xs where xs: "all_strings H s = Inr xs" "b = concat (map (\<lambda>(nm, link, cl). nm @ [newline]) xs)"
    by (auto simp: cmds_text_def cmds_lines_def)
  have t: "fields_text (map (\<lambda>nm. (nm, newline)) (map fst xs)) = b"
    by (simp add: xs(2) fields_text_def comp_def split_def)
  have n: "sum_list (map (\<lambda>nm. length nm + 1) (map fst xs)) = length b"
    by (simp add: xs(2) length_concat comp_def split_def)
  from all_strings_names[OF xs(1)] show ?case
    using put_fields_fit[of "[]" "map (\<lambda>nm. (nm, newline)) (map fst xs)" "length b"] t n
    by (auto simp: fs_cmds_buf_def cmdNamesSize_def filled_def)
qed

lemma fields_text_concat: "fields_text (concat xss) = concat (map fields_text xss)"
  by (induction xss) auto

lemma length_concat_fields:
  "length (concat (map f xs)) = sum_list (map (\<lambda>x. length (f x)) xs)"
  by (simp add: length_concat comp_def)

interpretation lcmds_file: synth_file "cmdsInfoSize H" "fs_lcmds_buf H" "lcmds_text H" for H :: "'h hashops"
proof -
  let ?line = "\<lambda>s (nm, link, cl). nm @ '','' @ link @ '','' @ pid_str s @ '','' @ cl @ [newline]"
  have sz: "cmdsInfoSize H s = Inr (length b)" if "lcmds_text H s b" for s b
    using that by (auto simp: lcmds_text_def cmds_lines_def cmdsInfoSize_def length_concat_fields split_def
        intro!: arg_cong[of _ _ sum_list] map_cong)
  have "fs_lcmds_buf H s = Inr b" if t: "lcmds_text H s b" for s b
  proof -
    obtain xs where xs: "all_strings H s = Inr xs" "b = concat (map (?line s) xs)"
      using t by (auto simp: lcmds_text_def cmds_lines_def)
    let ?fs = "concat (map (\<lambda>(nm, link, cl).
        [(nm, CHR '',''), (link, CHR '',''), (pid_str s, CHR '',''), (cl, newline)]) xs)"
    have "fields_text ?fs = b"
      by (simp add: fields_text_concat xs(2) comp_def split_def)
    then show ?thesis
      using put_fields_fit[of "[]" ?fs "length b"] sz[OF t] xs(1)
      by (simp add: fs_lcmds_buf_def filled_def)
  qed
  with sz show "synth_file (cmdsInfoSize H) (fs_lcmds_buf H) (lcmds_text H)" by unfold_locales
qed

interpretation ttys_file: synth_file "ttysInfoSize H" "fs_ttys_buf H" "ttys_text H" for H :: "'h hashops"
proof -
  let ?line = "\<lambda>s (nm, link, cl). link @ '','' @ pid_str s @ '',cmd,'' @ nm @ '','' @ cl @ [newline]"
  have sz: "ttysInfoSize H s = Inr (length b)" if "ttys_text H s b" for s b
    using that by (auto simp: ttys_text_def cmds_lines_def ttysInfoSize_def length_concat_fields split_def str_res_def
        intro!: arg_cong[of _ _ sum_list] map_cong)
  have "fs_ttys_buf H s = Inr b" if t: "ttys_text H s b" for s b
  proof -
    obtain xs blink mlink where xs: "all_strings H s = Inr xs"
      "tty_link (g_bcsttty (s_gbls s)) = Some blink" "tty_link (m_tty (g_mon (s_gbls s))) = Some mlink"
      "b = concat (map (?line s) xs) @ blink @ '','' @ pid_str s @ '',bcst,'' @ cmdcnt_str H s @ '','' @ [newline]
           @ mlink @ '','' @ pid_str s @ '',mon,,'' @ [newline]"
      using t by (auto simp: ttys_text_def cmds_lines_def)
    let ?n = "length b"
    let ?f1 = "concat (map (\<lambda>(nm, link, cl). [(link, CHR '',''), (pid_str s, CHR '',''), (''cmd'', CHR '',''),
        (nm, CHR '',''), (cl, newline)]) xs)
      @ [(blink, CHR '',''), (pid_str s, CHR '',''), (''bcst'', CHR '','')]"
    let ?f3 = "[(mlink, CHR '',''), (pid_str s, CHR '',''), (''mon'', CHR '','')]"
    let ?b1 = "concat (map (?line s) xs) @ blink @ '','' @ pid_str s @ '',bcst,''"
    have t1: "fields_text ?f1 = ?b1"
      by (simp add: fields_text_concat comp_def split_def)
    have 1: "put_fields ?n [] ?f1 = Inr ?b1"
      using put_fields_fit[of "[]" ?f1 ?n] unfolding t1 by (simp add: xs(4))
    have 2: "put_fields ?n ?b1 [(cmdcnt_str H s, CHR '','')] = Inr (?b1 @ cmdcnt_str H s @ '','')"
      using put_fields_fit[of ?b1 "[(cmdcnt_str H s, CHR '','')]" ?n] by (simp add: xs(4))
    let ?b2 = "?b1 @ cmdcnt_str H s @ '',''"
    have 3: "putch ?n ?b2 newline = Inr (?b2 @ [newline])" by (simp add: putch_def xs(4))
    let ?b3 = "?b2 @ [newline]"
    have 4: "put_fields ?n ?b3 ?f3 = Inr (?b3 @ mlink @ '','' @ pid_str s @ '',mon,'')"
      using put_fields_fit[of ?b3 ?f3 ?n] by (simp add: xs(4))
    let ?b4 = "?b3 @ mlink @ '','' @ pid_str s @ '',mon,''"
    have 5: "putch ?n ?b4 (CHR '','') = Inr (?b4 @ '','')" "putch ?n (?b4 @ '','') newline = Inr (?b4 @ '','' @ [newline])"
      by (simp_all add: putch_def xs(4))
    have 6: "?b4 @ '','' @ [newline] = b" by (simp add: xs(4))
    show ?thesis
      unfolding fs_ttys_buf_def using sz[OF t] xs(1-3) 1 2 3 4 5 6
      by (simp add: str_res_def filled_def del: put_fields.simps append.simps append_assoc)
  qed
  with sz show "synth_file (ttysInfoSize H) (fs_ttys_buf H) (ttys_text H)" by unfold_locales
qed

interpretation bcst_file: synth_file bcstSize fs_bcst_buf bcst_text
  by unfold_locales (auto simp: bcst_text_def bcstSize_def fs_bcst_buf_def str_res_def stpcpy_def filled_def)

end
