(* ===== verification/Loop.thy ===== *)
theory Loop
  imports Mon YarFs
begin

text \<open>
  The event loop of \<open>main.c\<close>, and the handlers that are left: \<open>ttyNotifyEvent\<close> with the call of
  the notify handler of a tty, signals, and requests to the file system. An event carries
  the address of an event descriptor (\<open>edloc\<close>); the loop reads the descriptor and calls the
  handler it names. What \<open>epoll_wait\<close> answers, call by call, is a list; at its end the
  program is still running.
\<close>

section \<open>Event descriptors in memory\<close>

definition tty_at :: "ttyref \<Rightarrow> 'h sys \<Rightarrow> tty_t res" where
  "tty_at r s =
     (case r of
        T_bcst \<Rightarrow> Inr (g_bcsttty (s_gbls s))
      | T_mon \<Rightarrow> Inr (m_tty (g_mon (s_gbls s)))
      | T_cmdtty p \<Rightarrow> bind_res (cmd_at s p) (\<lambda>c. Inr (c_cmdtty c))
      | T_clttty p \<Rightarrow> bind_res (cmd_at s p) (\<lambda>c. Inr (c_clttty c)))"

definition put_tty :: "ttyref \<Rightarrow> tty_t \<Rightarrow> 'h sys \<Rightarrow> 'h sys res" where
  "put_tty r t s =
     (case r of
        T_bcst \<Rightarrow> Inr (upd_gbls (\<lambda>g. g\<lparr>g_bcsttty := t\<rparr>) s)
      | T_mon \<Rightarrow> Inr (upd_gbls (\<lambda>g. g\<lparr>g_mon := (g_mon g)\<lparr>m_tty := t\<rparr>\<rparr>) s)
      | T_cmdtty p \<Rightarrow> bind_res (cmd_at s p) (\<lambda>c. Inr (put_cmd p (c\<lparr>c_cmdtty := t\<rparr>) s))
      | T_clttty p \<Rightarrow> bind_res (cmd_at s p) (\<lambda>c. Inr (put_cmd p (c\<lparr>c_clttty := t\<rparr>) s)))"

definition ed_at :: "edloc \<Rightarrow> 'h sys \<Rightarrow> evntdesc_t res" where
  "ed_at e s =
     (case e of
        Ed_dfded r \<Rightarrow> bind_res (tty_at r s) (\<lambda>t. Inr (tty_dfded t))
      | Ed_ifded r \<Rightarrow> bind_res (tty_at r s) (\<lambda>t. Inr (tty_ifded t))
      | Ed_pidfded p \<Rightarrow> bind_res (cmd_at s p) (\<lambda>c. Inr (c_pidfded c))
      | Ed_sigproc \<Rightarrow> Inr (sg_ed (g_sigproc (s_gbls s)))
      | Ed_fs \<Rightarrow> Inr (fs_ed (g_fs (s_gbls s))))"

section \<open>Opens and closes\<close>

text \<open>
  The notify handler of a tty. Handlers are registered with the object they expect, so the
  other combinations, which C could not tell apart, do not arise.
\<close>

definition call_ned :: "'h hashops \<Rightarrow> evntdesc_t \<Rightarrow> 32 word \<Rightarrow> int \<Rightarrow> 'h sys \<Rightarrow> 'h sys res" where
  "call_ned H ned ievents epollfd s =
     (case (hdlr ned, obj ned) of
        (None, _) \<Rightarrow> Inr s
      | (Some H_cmdCltttyNotify, Some (O_cmd p)) \<Rightarrow>
          bind_res (cmdCltttyNotify p ievents epollfd s) (\<lambda>(_, s). Inr s)
      | (Some H_bcstttyNotify, Some (O_tty T_bcst)) \<Rightarrow>
          bind_res (bcstttyNotify H ievents epollfd s) (\<lambda>(_, s). Inr s)
      | (Some H_monNotify, Some O_mon) \<Rightarrow> bind_res (monNotify ievents s) (\<lambda>(_, s). Inr s)
      | _ \<Rightarrow> Inl (Assert ''ned''))"

definition ttyNotifyEvent ::
  "'h hashops \<Rightarrow> ttyref \<Rightarrow> 32 word \<Rightarrow> int \<Rightarrow> 'h sys \<Rightarrow> (evnthdlrrc_t \<times> 'h sys) res" where
  "ttyNotifyEvent H r evnts epollfd s =
     (if has EPOLLIN evnts then
        bind_res (tty_at r s) (\<lambda>t.
        bind_res (ttyNotifyCount t (s_kern s)) (\<lambda>(ievents, t, k).
        bind_res (put_tty r t (with_kern k s)) (\<lambda>s.
        bind_res (call_ned H (tty_ned t) ievents epollfd s) (\<lambda>s.
        assert_res (clear EPOLLIN evnts = 0) ''ttyNotifyEvent'' (\<lambda>_. Inr (EVNT_HDLR_SUCCESS, s))))))
      else assert_res (evnts = 0) ''ttyNotifyEvent'' (\<lambda>_. Inr (EVNT_HDLR_SUCCESS, s)))"

section \<open>Signals\<close>

definition exit_signals :: "int list" where
  "exit_signals = [SIGALRM, SIGTERM, SIGINT, SIGHUP, SIGKILL, SIGUSR1, SIGVTALRM, SIGUSR2, SIGPIPE, SIGIO]"

text \<open>The signals that are blocked and read from the signal descriptor (\<open>yar.h\<close>).\<close>

definition sigAddTermSignals :: "int list" where
  "sigAddTermSignals = [SIGALRM, SIGTERM, SIGINT, SIGHUP, SIGQUIT, SIGUSR1, SIGVTALRM, SIGUSR2, SIGPIPE, SIGIO]"

definition sigEvent :: "32 word \<Rightarrow> 'h sys \<Rightarrow> (evnthdlrrc_t \<times> 'h sys) res" where
  "sigEvent evnts s =
     (if has EPOLLIN evnts then
        (case sys_read_signal (s_kern s) of
           (None, k) \<Rightarrow> Inl (Assert ''sigEvent'')
         | (Some sg, k) \<Rightarrow>
             Inr (if sg \<in> set exit_signals then EVNT_HDLR_EXIT_LOOP else EVNT_HDLR_SUCCESS, with_kern k s))
      else Inr (EVNT_HDLR_SUCCESS, s))"

definition sigprocInit :: "sigproc_t \<Rightarrow> kern \<Rightarrow> (sigproc_t \<times> kern) res" where
  "sigprocInit sp k =
     (case sys_newfd k of
        (None, k) \<Rightarrow> Inl (Assert ''sigprocInit'')
      | (Some f, k) \<Rightarrow> assert_res (f \<noteq> -1) ''sigprocInit'' (\<lambda>_.
          Inr (sp\<lparr>sg_sfd := f, sg_ed := \<lparr>hdlr = Some H_sigEvent, obj = Some O_sigproc\<rparr>\<rparr>, k)))"

definition sigprocRegisterEvents :: "int \<Rightarrow> 'h sys \<Rightarrow> 'h sys res" where
  "sigprocRegisterEvents epollfd s =
     (let sp = g_sigproc (s_gbls s)
      in assert_res (epollfd \<noteq> -1) ''sigprocRegisterEvents'' (\<lambda>_.
         assert_res (sg_sfd sp \<noteq> -1 \<and> sg_ed sp = \<lparr>hdlr = Some H_sigEvent, obj = Some O_sigproc\<rparr>)
           ''sigprocRegisterEvents'' (\<lambda>_.
         case sys_epoll_add (sg_sfd sp) Ed_sigproc (s_kern s) of (ok, k) \<Rightarrow>
           assert_res ok ''sigprocRegisterEvents'' (\<lambda>_. Inr (with_kern k s)))))"

section \<open>The file system\<close>

text \<open>
  \<open>fuse_session_receive_buf\<close> and \<open>fuse_session_process_buf\<close> belong to libfuse: the next
  request of the session is given to the operation registered for it, which replies.
\<close>

definition fsEvent :: "'h hashops \<Rightarrow> fuse_lib \<Rightarrow> 32 word \<Rightarrow> 'h sys \<Rightarrow> (evnthdlrrc_t \<times> 'h sys) res" where
  "fsEvent H L evnts s =
     (if has EPOLLIN evnts then
        (case s_fusein s of
           [] \<Rightarrow> Inr (EVNT_HDLR_SUCCESS, s)
         | rq # rqs \<Rightarrow>
             bind_res (fs_fuse_ops H (yarfs_ops H L s) (g_fs (s_gbls s)) rq) (\<lambda>reply.
             Inr (EVNT_HDLR_SUCCESS, s\<lparr>s_fusein := rqs, s_fuseout := s_fuseout s @ [reply]\<rparr>)))
      else Inr (EVNT_HDLR_SUCCESS, s))"

definition fsRegisterEvents :: "'h sys \<Rightarrow> (bool \<times> 'h sys) res" where
  "fsRegisterEvents s =
     (let fs = g_fs (s_gbls s)
      in assert_res (fs_fuse_se fs \<and> fs_fuse_fd fs \<noteq> -1) ''fsRegisterEvents'' (\<lambda>_.
         case sys_epoll_add (fs_fuse_fd fs) Ed_fs (s_kern s) of (ok, k) \<Rightarrow> Inr (ok, with_kern k s)))"

section \<open>Dispatch\<close>

text \<open>\<open>ed->hdlr(ed->obj, evnts, epollfd)\<close>.\<close>

definition call_hdlr ::
  "'h hashops \<Rightarrow> strtod_t \<Rightarrow> fuse_lib \<Rightarrow> evntdesc_t \<Rightarrow> 32 word \<Rightarrow> int \<Rightarrow> 'h sys \<Rightarrow> 'h handled" where
  "call_hdlr H strtod L ed evnts epollfd s =
     (case (hdlr ed, obj ed) of
        (Some H_ttyNotifyEvent, Some (O_tty r)) \<Rightarrow> lift_res (ttyNotifyEvent H r evnts epollfd s)
      | (Some H_cmdPidEvent, Some (O_cmd p)) \<Rightarrow> cmdPidEvent H p evnts epollfd s
      | (Some H_cmdCmdttyEvent, Some (O_cmd p)) \<Rightarrow> lift_res (cmdCmdttyEvent H p evnts epollfd s)
      | (Some H_cmdCltttyEvent, Some (O_cmd p)) \<Rightarrow> lift_res (cmdCltttyEvent p evnts epollfd s)
      | (Some H_bcstttyEvent, Some (O_tty T_bcst)) \<Rightarrow> lift_res (bcstttyEvent H evnts s)
      | (Some H_monEvent, Some O_mon) \<Rightarrow> monEvent H strtod evnts epollfd s
      | (Some H_sigEvent, Some O_sigproc) \<Rightarrow> lift_res (sigEvent evnts s)
      | (Some H_fsEvent, Some O_fs) \<Rightarrow> lift_res (fsEvent H L evnts s)
      | _ \<Rightarrow> Inl (Fault (Assert ''theLoop'')))"

text \<open>
  The events of one \<open>epoll_wait\<close>, in order. \<open>Some rc\<close> leaves the loop.
\<close>

fun dispatch_events ::
  "'h hashops \<Rightarrow> strtod_t \<Rightarrow> fuse_lib \<Rightarrow> int \<Rightarrow> (edloc \<times> 32 word) list \<Rightarrow> 'h sys
   \<Rightarrow> 'h stop + (bool option \<times> 'h sys)" where
  "dispatch_events H strtod L epollfd [] s = Inr (None, s)"
| "dispatch_events H strtod L epollfd ((e, evnts) # es) s =
     bind_res (lift_res (ed_at e s)) (\<lambda>ed.
     assert_stop (hdlr ed \<noteq> None) ''theLoop'' (\<lambda>_.
     bind_res (call_hdlr H strtod L ed evnts epollfd s) (\<lambda>(erc, s).
     case erc of
       EVNT_HDLR_EXIT_LOOP \<Rightarrow> Inr (Some True, s)
     | EVNT_HDLR_FAILED \<Rightarrow> Inr (Some False, s)
     | EVNT_HDLR_SUCCESS \<Rightarrow> dispatch_events H strtod L epollfd es s)))"

datatype epwait = EP_events "(edloc \<times> 32 word) list" | EP_eintr | EP_einval | EP_err

fun loop_rounds ::
  "'h hashops \<Rightarrow> strtod_t \<Rightarrow> fuse_lib \<Rightarrow> int \<Rightarrow> epwait list \<Rightarrow> 'h sys \<Rightarrow> 'h stop + (bool option \<times> 'h sys)" where
  "loop_rounds H strtod L epollfd [] s = Inr (None, s)"
| "loop_rounds H strtod L epollfd (EP_eintr # ws) s = loop_rounds H strtod L epollfd ws s"
| "loop_rounds H strtod L epollfd (EP_einval # ws) s = loop_rounds H strtod L epollfd ws s"
| "loop_rounds H strtod L epollfd (EP_err # ws) s = Inr (Some False, s)"
| "loop_rounds H strtod L epollfd (EP_events es # ws) s =
     bind_res (dispatch_events H strtod L epollfd es s) (\<lambda>(rc, s).
     case rc of None \<Rightarrow> loop_rounds H strtod L epollfd ws s | Some b \<Rightarrow> Inr (Some b, s))"

text \<open>Registration of every source, before the loop.\<close>

definition loop_register :: "'h hashops \<Rightarrow> int \<Rightarrow> 'h sys \<Rightarrow> 'h sys res" where
  "loop_register H epollfd s =
     bind_res (sigprocRegisterEvents epollfd s) (\<lambda>s.
     bind_res (monitorRegisterEvents s) (\<lambda>s.
     bind_res (fsRegisterEvents s) (\<lambda>(_, s).
     bind_res (bcstttyRegisterEvents s) (\<lambda>s.
     fold_res (\<lambda>p s. bind_res (cmdRegisterttyEvents p s) (\<lambda>(_, s). Inr s))
       (hh_iter H (g_cmds (s_gbls s))) s))))"

definition theLoop ::
  "'h hashops \<Rightarrow> strtod_t \<Rightarrow> fuse_lib \<Rightarrow> int \<Rightarrow> epwait list \<Rightarrow> 'h sys \<Rightarrow> 'h stop + (bool option \<times> 'h sys)" where
  "theLoop H strtod L epollfd ws s =
     (if epollfd = -1 then Inr (Some False, s)
      else bind_res (lift_res (loop_register H epollfd s)) (loop_rounds H strtod L epollfd ws))"

end
