(* ===== verification/Program.thy ===== *)
theory Program
  imports Loop
begin

text \<open>
  The program: the initial state (\<open>GBLSInit\<close>), its arguments, the log, and \<open>main\<close>. Options come
  as \<open>getopt\<close> delivers them, a letter with its argument, and the other arguments after them.
  What is asked of the system only once, at the start, is a record of answers.
\<close>

record boot =
  b_pid       :: int
  b_cwd       :: "string option"
  b_daemon    :: bool
  b_stdin     :: bool
  b_stdout    :: bool
  b_stderr    :: bool
  b_fdopen    :: bool
  b_mkdir     :: bool
  b_session   :: bool
  b_mount     :: bool
  b_fuse_fd   :: int
  b_epollfd   :: int

section \<open>The initial state\<close>

definition GBLSInit :: "'h hashops \<Rightarrow> kern \<Rightarrow> 'h sys res" where
  "GBLSInit H k =
     (let g = (gbls_zero (hh_empty H))\<lparr>g_pid := -1, g_restart := True, g_restartcmddelay := 5,
                g_errrestartcmddelay := 10\<rparr>;
          s = \<lparr>s_gbls = g, s_heap = [], s_kern = k, s_monout = [], s_fusein = [], s_fuseout = []\<rparr>
      in bind_res (ttyInit (g_bcsttty g) None None None None None True) (\<lambda>(_, t).
         let s = upd_gbls (\<lambda>g. g\<lparr>g_bcsttty := t, g_fs := fsInit (g_fs g) None\<rparr>) s
         in bind_res (monInit False None s) (\<lambda>r.
            case r of
              None \<Rightarrow> Inl (Assert ''GBLSInit'')
            | Some s \<Rightarrow>
                bind_res (sigprocInit (g_sigproc (s_gbls s)) (s_kern s)) (\<lambda>(sp, k).
                Inr (upd_gbls (\<lambda>g. g\<lparr>g_sigproc := sp\<rparr>) (with_kern k s))))))"

section \<open>Arguments\<close>

text \<open>A delay option: \<open>None\<close> where \<open>strtod\<close> reports an error.\<close>

definition delay_arg :: "strtod_t \<Rightarrow> string \<Rightarrow> rat option" where
  "delay_arg strtod arg = (case strtod arg of (d, errno) \<Rightarrow> if errno \<noteq> 0 then None else Some d)"

text \<open>One option; the flag tells whether to go on. \<open>-b\<close> is refused for a path that exists.\<close>

definition parse_opt :: "strtod_t \<Rightarrow> char \<Rightarrow> string \<Rightarrow> 'h sys \<Rightarrow> bool \<times> 'h sys" where
  "parse_opt strtod opt optarg s =
     (if opt = CHR ''D'' then (True, upd_gbls (\<lambda>g. g\<lparr>g_daemonize := True\<rparr>) s)
      else if opt = CHR ''K'' then (True, upd_gbls (\<lambda>g. g\<lparr>g_keeplog := True\<rparr>) s)
      else if opt = CHR ''L'' then (True, upd_gbls (\<lambda>g. g\<lparr>g_uselog := True, g_logdir := Some optarg\<rparr>) s)
      else if opt = CHR ''R'' then
        (True, upd_gbls (\<lambda>g. g\<lparr>g_readystr := Some optarg, g_readystrlen := int (length optarg),
                               g_cmdsreadycnt := 0\<rparr>) s)
      else if opt = CHR ''b'' then
        (let s = upd_gbls (\<lambda>g. g\<lparr>g_bcstttylink := Some optarg\<rparr>) s
         in if checkpath (Some optarg) (s_kern s) then (False, s)
            else (True, upd_gbls (\<lambda>g. g\<lparr>g_bcstflg := True\<rparr>) s))
      else if opt = CHR ''d'' then
        (case delay_arg strtod optarg of
           None \<Rightarrow> (False, upd_gbls (\<lambda>g. g\<lparr>g_defaultcmddelay := fst (strtod optarg)\<rparr>) s)
         | Some d \<Rightarrow> (True, upd_gbls (\<lambda>g. g\<lparr>g_defaultcmddelay := d\<rparr>) s))
      else if opt = CHR ''e'' then
        (case delay_arg strtod optarg of
           None \<Rightarrow> (False, upd_gbls (\<lambda>g. g\<lparr>g_errrestartcmddelay := fst (strtod optarg)\<rparr>) s)
         | Some d \<Rightarrow> (True, upd_gbls (\<lambda>g. g\<lparr>g_errrestartcmddelay := d\<rparr>) s))
      else if opt = CHR ''f'' then (True, upd_gbls (\<lambda>g. g\<lparr>g_fsmntptdir := Some optarg\<rparr>) s)
      else if opt = CHR ''l'' then (True, upd_gbls (\<lambda>g. g\<lparr>g_linebufferbcst := True\<rparr>) s)
      else if opt = CHR ''m'' then (True, upd_gbls (\<lambda>g. g\<lparr>g_monttylinkdir := Some optarg\<rparr>) s)
      else if opt = CHR ''p'' then (True, upd_gbls (\<lambda>g. g\<lparr>g_prefixbcst := True\<rparr>) s)
      else if opt = CHR ''r'' then
        (case delay_arg strtod optarg of
           None \<Rightarrow> (False, upd_gbls (\<lambda>g. g\<lparr>g_restartcmddelay := fst (strtod optarg)\<rparr>) s)
         | Some d \<Rightarrow> (True, upd_gbls (\<lambda>g. g\<lparr>g_restartcmddelay := d\<rparr>) s))
      else if opt = CHR ''s'' then (True, upd_gbls (\<lambda>g. g\<lparr>g_stopstr := Some optarg\<rparr>) s)
      else if opt = CHR ''v'' then (True, upd_gbls (\<lambda>g. g\<lparr>g_verbose := g_verbose g + 1\<rparr>) s)
      else if opt = CHR ''x'' then (True, upd_gbls (\<lambda>g. g\<lparr>g_exitonidle := True\<rparr>) s)
      else (False, s))"

fun parse_opts :: "strtod_t \<Rightarrow> (char \<times> string) list \<Rightarrow> 'h sys \<Rightarrow> bool \<times> 'h sys" where
  "parse_opts strtod [] s = (True, s)"
| "parse_opts strtod ((opt, optarg) # opts) s =
     (case parse_opt strtod opt optarg s of (ok, s) \<Rightarrow>
        if ok then parse_opts strtod opts s else (False, s))"

text \<open>Every specification is tried before any command is created.\<close>

definition specs_ok :: "strtod_t \<Rightarrow> string list \<Rightarrow> 'h sys \<Rightarrow> bool" where
  "specs_ok strtod args s \<longleftrightarrow> list_all (\<lambda>a. fst (cmdspecParse strtod False a s) \<noteq> None) args"

definition argsParse ::
  "strtod_t \<Rightarrow> (char \<times> string) list \<Rightarrow> string list \<Rightarrow> 'h sys \<Rightarrow> bool \<times> 'h sys" where
  "argsParse strtod opts args s =
     (case parse_opts strtod opts s of (ok, s) \<Rightarrow>
        if \<not> ok then (False, s)
        else if length args < 1 then (True, s)
        else if \<not> specs_ok strtod args s then (False, s)
        else (True, upd_gbls (\<lambda>g. g\<lparr>g_initialcmdspecs := args,
                      g_bcstflg := (length args > 1 \<or> g_bcstflg g)\<rparr>) s))"

section \<open>The log\<close>

definition setlogpath :: "string option \<Rightarrow> 'h sys \<Rightarrow> bool \<times> 'h sys" where
  "setlogpath dir s =
     (let path = (case dir of None \<Rightarrow> [] | Some d \<Rightarrow> d @ ''/'') @ dec_int (g_pid (s_gbls s)) @ ''.log''
      in if length path \<ge> PATH_MAX then (False, s)
         else (True, upd_gbls (\<lambda>g. g\<lparr>g_logpath := Some path\<rparr>) s))"

text \<open>
  \<open>logopen\<close>; the result of \<open>setlogpath\<close> is not looked at. \<open>freopen\<close> in append mode makes the
  file; without a path it only changes the mode of the stream.
\<close>

definition logopen :: "boot \<Rightarrow> string option \<Rightarrow> 'h sys \<Rightarrow> bool \<times> 'h sys" where
  "logopen b dir s =
     (let s = snd (setlogpath dir s)
      in if \<not> b_stdin b \<or> \<not> b_stdout b then (False, s)
         else (b_stderr b, upd_gbls (\<lambda>g. g\<lparr>g_logfile := True\<rparr>)
                (case g_logpath (s_gbls s) of
                   None \<Rightarrow> s
                 | Some path \<Rightarrow> with_kern ((s_kern s)\<lparr>k_exists := (k_exists (s_kern s))(path := True)\<rparr>) s)))"

section \<open>Main\<close>

text \<open>\<open>if (GBLS.x == NULL) GBLS.x = cwdPrefix(NULL)\<close>; the directory must have been found.\<close>

definition or_cwd :: "string option \<Rightarrow> 'h globals_t \<Rightarrow> string option res" where
  "or_cwd dir g = (case dir of
     Some d \<Rightarrow> Inr (Some d)
   | None \<Rightarrow> (case g_cwd g of None \<Rightarrow> Inl NullDeref | Some d \<Rightarrow> Inr (Some d)))"

definition main_log :: "boot \<Rightarrow> 'h sys \<Rightarrow> 'h stop + 'h sys" where
  "main_log b s =
     (if g_uselog (s_gbls s) \<or> g_daemonize (s_gbls s) then
        bind_res (lift_res (or_cwd (g_logdir (s_gbls s)) (s_gbls s))) (\<lambda>dir.
        let s = upd_gbls (\<lambda>g. g\<lparr>g_logdir := dir\<rparr>) s
        in case logopen b dir s of (ok, s) \<Rightarrow> if ok then Inr s else Inl (Exited 1 s))
      else Inr s)"

definition main_mon :: "'h hashops \<Rightarrow> boot \<Rightarrow> 'h sys \<Rightarrow> 'h stop + 'h sys" where
  "main_mon H b s =
     bind_res (lift_res (or_cwd (g_monttylinkdir (s_gbls s)) (s_gbls s))) (\<lambda>dir.
     let s = upd_gbls (\<lambda>g. g\<lparr>g_monttylinkdir := dir\<rparr>) s
     in bind_res (lift_res (monInit True dir s)) (\<lambda>r.
        case r of
          None \<Rightarrow> exit_with H 1 (upd_gbls (\<lambda>g. g\<lparr>g_mon :=
                    mon_zero\<lparr>m_ed := \<lparr>hdlr = Some H_monEvent, obj = Some O_mon\<rparr>, m_silent := True\<rparr>\<rparr>) s)
        | Some s \<Rightarrow> bind_res (lift_res (monttyCreate (b_fdopen b) s)) (\<lambda>(ok, s).
            if ok then Inr s else exit_with H 1 s)))"

definition main_fs :: "'h hashops \<Rightarrow> boot \<Rightarrow> 'h sys \<Rightarrow> 'h stop + 'h sys" where
  "main_fs H b s =
     bind_res (lift_res (or_cwd (g_fsmntptdir (s_gbls s)) (s_gbls s))) (\<lambda>dir.
     let s = upd_gbls (\<lambda>g. g\<lparr>g_fsmntptdir := dir\<rparr>) s
     in case fsMountPoint dir (g_pid (s_gbls s)) of
          None \<Rightarrow> exit_with H 1 (upd_gbls (\<lambda>g. g\<lparr>g_fs := (fsInit (g_fs g) None)\<lparr>fs_ed := evnt_null\<rparr>\<rparr>) s)
        | Some mntpt \<Rightarrow>
            bind_res (lift_res (fsCreate H (b_mkdir b) (b_session b) (b_mount b) (b_fuse_fd b) (yarfsCreate H)
                        (fsInit (g_fs (s_gbls s)) (Some mntpt)))) (\<lambda>(ok, fs).
            let s = upd_gbls (\<lambda>g. g\<lparr>g_fs := fs\<rparr>) s
            in if ok then Inr s else exit_with H 1 s))"

text \<open>The initial commands; one that cannot be added fails an assertion.\<close>

definition main_cmds :: "'h hashops \<Rightarrow> strtod_t \<Rightarrow> 'h sys \<Rightarrow> 'h sys res" where
  "main_cmds H strtod s =
     fold_res (\<lambda>spec s. bind_res (GBLSAddCmd H strtod False spec s) (\<lambda>(added, s).
         assert_res (added \<noteq> None) ''main'' (\<lambda>_. Inr s)))
       (g_initialcmdspecs (s_gbls s)) s"

definition main_bcst :: "'h hashops \<Rightarrow> 'h sys \<Rightarrow> 'h stop + 'h sys" where
  "main_bcst H s =
     (let g = s_gbls s;
          link = (case g_bcstttylink g of Some l \<Rightarrow> l | None \<Rightarrow> cwdPrefix g ''bcsttty'')
      in bind_res (lift_res (ttyInit (g_bcsttty g) (Some link)
                     (Some (take (PATH_MAX - 1) (link @ ''.mon''))) (tty_link (m_tty (g_mon g)))
                     (Some (take (PATH_MAX - 1) (link @ ''.fs''))) (fs_mntpt (g_fs g)) True)) (\<lambda>(_, t).
         bcstttyCreate_or_exit H (upd_gbls (\<lambda>g. g\<lparr>g_bcstttylink := Some link, g_bcsttty := t\<rparr>) s)))"

text \<open>
  \<open>main\<close>. Before \<open>atexit\<close> is called, leaving does not clean up. \<open>Inr\<close> is a program that is still
  in its loop when the answers of \<open>epoll_wait\<close> are used up.
\<close>

definition yar_main ::
  "'h hashops \<Rightarrow> strtod_t \<Rightarrow> fuse_lib \<Rightarrow> boot \<Rightarrow> (char \<times> string) list \<Rightarrow> string list \<Rightarrow> epwait list \<Rightarrow> kern
   \<Rightarrow> 'h stop + 'h sys" where
  "yar_main H strtod L b opts args ws k =
     bind_res (lift_res (GBLSInit H k)) (\<lambda>s.
     case argsParse strtod opts args s of
       (False, s) \<Rightarrow> Inl (Exited 1 s)
     | (True, s) \<Rightarrow>
         assert_stop (g_daemonize (s_gbls s) \<longrightarrow> b_daemon b) ''main'' (\<lambda>_.
         bind_res (main_log b (upd_gbls (\<lambda>g. g\<lparr>g_pid := b_pid b, g_cwd := b_cwd b\<rparr>) s)) (\<lambda>s.
         bind_res (main_mon H b s) (\<lambda>s.
         bind_res (main_fs H b s) (\<lambda>s.
         bind_res (lift_res (main_cmds H strtod s)) (\<lambda>s.
         bind_res (main_bcst H s) (\<lambda>s.
         bind_res (theLoop H strtod L (b_epollfd b) ws s) (\<lambda>(rc, s).
         case rc of
           None \<Rightarrow> Inr s
         | Some ok \<Rightarrow> exit_with H (if ok then 0 else 1) s))))))))"

end
