(* ===== verification/Steps.thy ===== *)
theory Steps
  imports Program
begin

text \<open>
  Reasoning about what a run leaves behind. \<open>fin g\<close> is the state in which an operation ends,
  whether it returns (\<open>g\<close> picks the state out of the result) or exits. The locale \<open>state_rel\<close>
  collects how a reflexive and transitive relation between the states before and after
  carries over sequencing, loops and exits; it serves every relation the operations of the
  program respect.
\<close>

definition fin :: "('a \<Rightarrow> 'h sys) \<Rightarrow> 'h stop + 'a \<Rightarrow> 'h sys option" where
  "fin g r = (case r of Inl (Fault _) \<Rightarrow> None | Inl (Exited _ s) \<Rightarrow> Some s | Inr x \<Rightarrow> Some (g x))"

lemma fin_simps [simp]:
  "fin g (Inl (Fault e)) = None" "fin g (Inl (Exited n s)) = Some s" "fin g (Inr x) = Some (g x)"
  by (simp_all add: fin_def)

lemma fin_lift_res: "fin g (lift_res m) = Some s \<longleftrightarrow> (\<exists>x. m = Inr x \<and> g x = s)"
  by (cases m) auto

lemma fin_bindD:
  "fin g (bind_res m f) = Some s \<Longrightarrow> (\<exists>n. m = Inl (Exited n s)) \<or> (\<exists>x. m = Inr x \<and> fin g (f x) = Some s)"
  by (cases m) (auto simp: fin_def split: stop.splits)

lemma fin_lift_bind:
  "fin g (bind_res (lift_res m) f) = Some s \<longleftrightarrow> (\<exists>x. m = Inr x \<and> fin g (f x) = Some s)"
  by (cases m) auto

lemma fin_assert_stop: "fin g (assert_stop b site f) = Some s \<longleftrightarrow> b \<and> fin g (f ()) = Some s"
  by (simp add: assert_stop_def)

lemmas fin_dest = fin_lift_res fin_lift_bind fin_assert_stop

locale state_rel =
  fixes R :: "'s \<Rightarrow> 's \<Rightarrow> bool"
  assumes refl: "R s s"
    and trans: "R s t \<Longrightarrow> R t u \<Longrightarrow> R s u"
begin

lemma fold_rel:
  assumes "fold_res f xs s = Inr s'" "\<And>x t t'. x \<in> set xs \<Longrightarrow> f x t = Inr t' \<Longrightarrow> R t t'"
  shows "R s s'"
  using fold_res_invariant[OF assms(1), of "R s"] assms(2) refl trans by blast

text \<open>Sequencing, with states that may be reached by an exit of the first part.\<close>

lemma bind_rel:
  assumes "fin g (bind_res m f) = Some s'" "\<And>t. fin h m = Some t \<Longrightarrow> R (ob s) (ob t)"
    "\<And>x. m = Inr x \<Longrightarrow> fin g (f x) = Some s' \<Longrightarrow> R (ob (h x)) (ob s')"
  shows "R (ob s) (ob s')"
proof -
  from fin_bindD[OF assms(1)] consider n where "m = Inl (Exited n s')" | x where "m = Inr x" "fin g (f x) = Some s'"
    by blast
  then show ?thesis
  proof cases
    case 1
    then show ?thesis using assms(2)[of s'] by simp
  next
    case (2 x)
    then show ?thesis using assms(2)[of "h x"] assms(3)[of x] trans by auto
  qed
qed

lemma fold_rel_by:
  assumes "fold_res f xs s = Inr s'" "\<And>x t t'. x \<in> set xs \<Longrightarrow> f x t = Inr t' \<Longrightarrow> R (g t) (g t')"
  shows "R (g s) (g s')"
  using fold_res_invariant[OF assms(1), of "\<lambda>t. R (g s) (g t)"] assms(2) refl trans by blast

end

end
