(* ===== verification/Frame.thy ===== *)
theory Frame
  imports Steps
begin

text \<open>
  What almost every operation leaves alone. \<open>quiet\<close> says that a change of the kernel state
  started no process and sent no signal; \<open>tty_ok\<close>, \<open>cmd_ok\<close>, \<open>mon_ok\<close> and \<open>gbls_ok\<close> that an object
  is well formed; \<open>frame\<close> that an operation on the whole state is quiet, keeps the table of
  commands, which command objects exist, their names and their processes, and keeps
  everything well formed. The operations that only move data are shown to be in the frame
  here, once; what depends on a state only through these parts then carries over.
\<close>

section \<open>Well-formed objects\<close>

definition tty_ok :: "tty_t \<Rightarrow> bool" where
  "tty_ok t \<longleftrightarrow> length (tty_discards t) = DISCARDS_SIZE \<and> 0 \<le> tty_opens t"

definition cmd_ok :: "cmd_t \<Rightarrow> bool" where
  "cmd_ok c \<longleftrightarrow> length (c_buf c) = CMD_BUFSIZE \<and> c_bufn c \<le> SIZE_MAX \<and> 0 \<le> c_bufof c \<and> 0 \<le> c_readycnt c
     \<and> tty_ok (c_cmdtty c) \<and> tty_ok (c_clttty c)"

definition mon_ok :: "mon_t \<Rightarrow> bool" where
  "mon_ok m \<longleftrightarrow> length (m_line m) = MON_LINELEN \<and> 0 \<le> m_n m \<and> m_n m < int MON_LINELEN \<and> tty_ok (m_tty m)"

definition gbls_ok :: "'h globals_t \<Rightarrow> bool" where
  "gbls_ok g \<longleftrightarrow> mon_ok (g_mon g) \<and> tty_ok (g_bcsttty g)"

section \<open>Quiet calls\<close>

text \<open>Most calls of the system start no process and send no signal.\<close>

definition quiet :: "kern \<Rightarrow> kern \<Rightarrow> bool" where
  "quiet k k' \<longleftrightarrow> k_procs k' = k_procs k \<and> k_kills k' = k_kills k"

interpretation qt: state_rel quiet
  by unfold_locales (auto simp: quiet_def)

lemmas qt_trans [trans] = qt.trans

named_theorems quiet_intros \<open>calls that start no process and send no signal\<close>

lemma quiet_refl [simp, quiet_intros]: "quiet k k"
  by (rule qt.refl)

lemma quiet_calls [quiet_intros]:
  "sys_write f bs k = (n, e, k') \<Longrightarrow> quiet k k'"
  "sys_read1 f k = (n, e, c, k') \<Longrightarrow> quiet k k'"
  "sys_read_inotify f k = (iev, k') \<Longrightarrow> quiet k k'"
  "sys_read_signal k = (sg, k') \<Longrightarrow> quiet k k'"
  "sys_clock k = (t, k') \<Longrightarrow> quiet k k'"
  "sys_ptyMasterOpen k = (fp, k') \<Longrightarrow> quiet k k'"
  "sys_newfd k = (fo, k') \<Longrightarrow> quiet k k'"
  "sys_inotify_add_watch k = (w, k') \<Longrightarrow> quiet k k'"
  "sys_symlink path k = (b, k') \<Longrightarrow> quiet k k'"
  "sys_epoll_add f ed k = (b, k') \<Longrightarrow> quiet k k'"
  "sys_epoll_del f k = (b, k') \<Longrightarrow> quiet k k'"
  "sys_fork k = (pid, k') \<Longrightarrow> quiet k k'"
  "sys_waitid k = (st, k') \<Longrightarrow> quiet k k'"
  by (auto simp: quiet_def sys_write_def sys_read1_def sys_read_inotify_def sys_read_signal_def sys_clock_def
      sys_ptyMasterOpen_def sys_newfd_def sys_inotify_add_watch_def sys_symlink_def sys_epoll_add_def
      sys_epoll_del_def sys_fork_def sys_waitid_def split: wans.splits rans.splits list.splits option.splits if_splits)

lemma quiet_updates [simp, quiet_intros]:
  "quiet k (sys_tcflush f k')  \<longleftrightarrow> quiet k k'" "quiet k (sys_unlink path k') \<longleftrightarrow> quiet k k'"
  "quiet k (sys_close f k') \<longleftrightarrow> quiet k k'" "quiet k (close_if_open g k') \<longleftrightarrow> quiet k k'"
  "quiet k (unlink_if_named pn k') \<longleftrightarrow> quiet k k'" "quiet k (delaysec d k') \<longleftrightarrow> quiet k k'"
  "quiet k (ttySubFlush t k') \<longleftrightarrow> quiet k k'" "quiet k (k'\<lparr>k_poll := ps\<rparr>) \<longleftrightarrow> quiet k k'"
  "quiet k (k'\<lparr>k_exists := ex\<rparr>) \<longleftrightarrow> quiet k k'"
  by (auto simp: quiet_def sys_tcflush_def sys_unlink_def sys_close_def close_if_open_def unlink_if_named_def
      delaysec_def ttySubFlush_def Let_def split: option.splits)

lemma quiet_ttyCleanup [quiet_intros]: "ttyCleanup t k = (b, t', k') \<Longrightarrow> quiet k k'"
  by (auto simp: ttyCleanup_def Let_def)

lemma quiet_ttyWriteBuf [quiet_intros]: "ttyWriteBuf t bs ts k = Inr (n, t', ts', k') \<Longrightarrow> quiet k k'"
  by (auto simp: ttyWriteBuf_def res_dest Let_def split: if_splits prod.splits option.splits
      intro: quiet_calls qt.trans)

lemma quiet_ttyWriteChar [quiet_intros]: "ttyWriteChar t ch ts k = Inr (n, t', ts', k') \<Longrightarrow> quiet k k'"
  by (auto simp: ttyWriteChar_def intro: quiet_ttyWriteBuf)

lemma quiet_ttyReadChar [quiet_intros]: "ttyReadChar t ts d k = Inr (n, e, ch, t', k') \<Longrightarrow> quiet k k'"
  by (auto simp: ttyReadChar_def split: if_splits prod.splits option.splits intro: quiet_calls qt.trans)

lemma quiet_tty_put [quiet_intros]: "tty_put bs (t, k) = Inr (n, t', k') \<Longrightarrow> quiet k k'"
  by (auto simp: tty_put_def res_dest intro: quiet_ttyWriteBuf)

lemma quiet_put_seq [quiet_intros]: "put_seq site tty_put segs (t, k) = Inr (n, t', k') \<Longrightarrow> quiet k k'"
proof (induction segs arbitrary: t k n)
  case Nil
  then show ?case by simp
next
  case (Cons seg segs)
  then obtain w t1 k1 m where "tty_put seg (t, k) = Inr (w, t1, k1)" "put_seq site tty_put segs (t1, k1) = Inr (m, t', k')"
    by (auto simp: res_dest)
  with Cons.IH show ?case by (blast intro: quiet_tty_put qt.trans)
qed

lemma quiet_make_link [quiet_intros]: "make_link src dst ok k = Inr (b, k') \<Longrightarrow> quiet k k'"
  by (auto simp: make_link_def res_dest split: option.splits intro: quiet_calls)

lemma quiet_ttyCreate_links [quiet_intros]: "ttyCreate_links t k = Inr (b, k') \<Longrightarrow> quiet k k'"
  by (auto simp: ttyCreate_links_def res_dest quiet_def split: if_splits dest!: quiet_make_link[unfolded quiet_def])

lemma quiet_ttyCreate_fail [quiet_intros]: "ttyCreate_fail t k = Inr (b, t', k') \<Longrightarrow> quiet k k'"
  by (auto simp: ttyCreate_fail_def split: prod.splits intro: quiet_ttyCleanup)

lemma quiet_ttyCreate [quiet_intros]:
  assumes "ttyCreate r t ed ned raw k = Inr (b, t', k')"
  shows "quiet k k'"
proof -
  note dests = quiet_ttyCreate_fail[unfolded quiet_def] quiet_ttyCreate_links[unfolded quiet_def] quiet_calls[unfolded quiet_def]
  show ?thesis
  proof (cases "path_taken (tty_link t) k \<or> path_taken (l_src (tty_extralink1 t)) k \<or> path_taken (l_src (tty_extralink2 t)) k")
    case True
    with assms show ?thesis by (auto simp: ttyCreate_def res_dest intro: quiet_ttyCreate_fail)
  next
    case False
    obtain fp k1 where o: "sys_ptyMasterOpen k = (fp, k1)" by force
    then have q: "quiet k k1" by (rule quiet_calls)
    from o False assms have "quiet k1 k'"
      by (cases fp) (auto simp: ttyCreate_def res_dest Let_def quiet_def split: if_splits option.splits prod.splits dest!: dests)
    with q show ?thesis by (rule qt.trans)
  qed
qed

lemma quiet_ttyRegisterEvents [quiet_intros]: "ttyRegisterEvents r t k = Inr (b, k') \<Longrightarrow> quiet k k'"
  by (auto simp: ttyRegisterEvents_def res_dest quiet_def split: bool.splits prod.splits dest!: quiet_calls[unfolded quiet_def])

lemma quiet_ttyNotifyCount [quiet_intros]: "ttyNotifyCount t k = Inr (iev, t', k') \<Longrightarrow> quiet k k'"
  by (auto simp: ttyNotifyCount_def res_dest Let_def split: option.splits prod.splits if_splits intro: quiet_calls)

lemma quiet_pidfd_unwatch [quiet_intros]: "pidfd_unwatch site ep f k = Inr k' \<Longrightarrow> quiet k k'"
  by (auto simp: pidfd_unwatch_def res_dest split: if_splits prod.splits intro: quiet_calls)
section \<open>Tty operations keep a tty well formed\<close>

named_theorems ok_intros \<open>operations that keep an object well formed\<close>

lemma ok_tty_zero [simp]: "tty_ok tty_zero"
  by (simp add: tty_ok_def tty_zero_def)

lemma tty_ok_simps [simp]:
  "tty_ok (t\<lparr>tty_path := pa\<rparr>) = tty_ok t" "tty_ok (t\<lparr>tty_link := l\<rparr>) = tty_ok t"
  "tty_ok (t\<lparr>tty_extralink1 := x1\<rparr>) = tty_ok t" "tty_ok (t\<lparr>tty_extralink2 := x2\<rparr>) = tty_ok t"
  "tty_ok (t\<lparr>tty_rbytes := rb\<rparr>) = tty_ok t" "tty_ok (t\<lparr>tty_wbytes := wb\<rparr>) = tty_ok t"
  "tty_ok (t\<lparr>tty_wdbytes := wd\<rparr>) = tty_ok t" "tty_ok (t\<lparr>tty_delaycnt := dc\<rparr>) = tty_ok t"
  "tty_ok (t\<lparr>tty_dfd := f\<rparr>) = tty_ok t" "tty_ok (t\<lparr>tty_sfd := f\<rparr>) = tty_ok t"
  "tty_ok (t\<lparr>tty_ifd := f\<rparr>) = tty_ok t" "tty_ok (t\<lparr>tty_iwd := f\<rparr>) = tty_ok t"
  "tty_ok (t\<lparr>tty_dfded := ed\<rparr>) = tty_ok t" "tty_ok (t\<lparr>tty_ifded := ed\<rparr>) = tty_ok t"
  "tty_ok (t\<lparr>tty_ned := ed\<rparr>) = tty_ok t"
  by (simp_all add: tty_ok_def)

lemma ok_ttyInit: "ttyInit t l a b c d z = Inr (x, t') \<Longrightarrow> tty_ok t \<Longrightarrow> tty_ok t'"
  by (auto simp: ttyInit_def Let_def res_dest split: if_splits)

lemma ok_ttyCleanup [ok_intros]: "ttyCleanup t k = (x, t', k') \<Longrightarrow> tty_ok t'"
  by (auto simp: ttyCleanup_def Let_def)

lemma ok_ttyDiscard [ok_intros]: "ttyDiscard t buf = Inr t' \<Longrightarrow> tty_ok t \<Longrightarrow> tty_ok t'"
  by (auto simp: ttyDiscard_def Let_def tty_ok_def min_def split: if_splits)

lemma ok_ttyWriteBuf [ok_intros]: "ttyWriteBuf t bs ts k = Inr (n, t', ts', k') \<Longrightarrow> tty_ok t \<Longrightarrow> tty_ok t'"
  by (auto simp: ttyWriteBuf_def res_dest Let_def split: if_splits prod.splits option.splits intro: ok_ttyDiscard)

lemma ok_ttyWriteChar [ok_intros]: "ttyWriteChar t ch ts k = Inr (n, t', ts', k') \<Longrightarrow> tty_ok t \<Longrightarrow> tty_ok t'"
  by (auto simp: ttyWriteChar_def intro: ok_ttyWriteBuf)

lemma ok_ttyReadChar [ok_intros]: "ttyReadChar t ts d k = Inr (n, e, ch, t', k') \<Longrightarrow> tty_ok t \<Longrightarrow> tty_ok t'"
  by (auto simp: ttyReadChar_def split: if_splits prod.splits option.splits)

lemma ok_tty_put [ok_intros]: "tty_put bs (t, k) = Inr (n, t', k') \<Longrightarrow> tty_ok t \<Longrightarrow> tty_ok t'"
  by (auto simp: tty_put_def res_dest intro: ok_ttyWriteBuf)

lemma ok_put_seq [ok_intros]: "put_seq site tty_put segs (t, k) = Inr (n, t', k') \<Longrightarrow> tty_ok t \<Longrightarrow> tty_ok t'"
proof (induction segs arbitrary: t k n)
  case (Cons seg segs)
  then obtain w t1 k1 m where "tty_put seg (t, k) = Inr (w, t1, k1)" "put_seq site tty_put segs (t1, k1) = Inr (m, t', k')"
    by (auto simp: res_dest)
  with Cons show ?case by (blast intro: ok_tty_put)
qed simp

lemma ok_ttyNotifyCount [ok_intros]: "ttyNotifyCount t k = Inr (iev, t', k') \<Longrightarrow> tty_ok t \<Longrightarrow> tty_ok t'"
  by (auto simp: ttyNotifyCount_def res_dest Let_def tty_ok_def split: option.splits prod.splits if_splits)

lemma ok_ttyCreate_fail [ok_intros]: "ttyCreate_fail t k = Inr (b, t', k') \<Longrightarrow> tty_ok t'"
  by (auto simp: ttyCreate_fail_def split: prod.splits intro: ok_ttyCleanup)

lemma ok_ttyCreate [ok_intros]:
  assumes "ttyCreate r t ed ned raw k = Inr (b, t', k')" "tty_ok t"
  shows "tty_ok t'"
proof (cases "path_taken (tty_link t) k \<or> path_taken (l_src (tty_extralink1 t)) k \<or> path_taken (l_src (tty_extralink2 t)) k")
  case True
  with assms show ?thesis by (auto simp: ttyCreate_def res_dest intro: ok_ttyCreate_fail)
next
  case False
  obtain fp k1 where o: "sys_ptyMasterOpen k = (fp, k1)" by force
  from o False assms show ?thesis
    by (cases fp) (auto simp: ttyCreate_def res_dest Let_def tty_ok_def split: if_splits option.splits prod.splits
        dest!: ok_ttyCreate_fail)
qed

lemma put_seq_step:
  "put_seq site tty_put segs (t, k) = Inr (n, t', k') \<Longrightarrow> quiet k k' \<and> (tty_ok t \<longrightarrow> tty_ok t')"
  using quiet_put_seq ok_put_seq by blast

section \<open>The frame\<close>

definition cmd_frame :: "cmd_t \<Rightarrow> cmd_t \<Rightarrow> bool" where
  "cmd_frame c c' \<longleftrightarrow> c_pid c' = c_pid c \<and> c_name c' = c_name c \<and> (cmd_ok c \<longrightarrow> cmd_ok c')"

definition frame :: "'h sys \<Rightarrow> 'h sys \<Rightarrow> bool" where
  "frame s t \<longleftrightarrow> quiet (s_kern s) (s_kern t) \<and> g_cmds (s_gbls t) = g_cmds (s_gbls s)
     \<and> (gbls_ok (s_gbls s) \<longrightarrow> gbls_ok (s_gbls t))
     \<and> list_all2 (rel_option cmd_frame) (s_heap s) (s_heap t)"

lemma cmd_frame_refl [simp]: "cmd_frame c c"
  by (simp add: cmd_frame_def)

lemma heap_refl [simp]: "list_all2 (rel_option cmd_frame) h h"
  by (simp add: list_all2_same option.rel_refl)

interpretation fr: state_rel frame
proof
  show "frame s s" for s :: "'a sys" by (simp add: frame_def)
next
  fix s t u :: "'a sys"
  assume a: "frame s t" "frame t u"
  have r: "rel_option cmd_frame x y \<Longrightarrow> rel_option cmd_frame y z \<Longrightarrow> rel_option cmd_frame x z" for x y z
    by (cases x; cases y; cases z) (auto simp: cmd_frame_def)
  have "list_all2 (rel_option cmd_frame) (s_heap s) (s_heap u)"
    using list_all2_trans[of "rel_option cmd_frame" "rel_option cmd_frame" "rel_option cmd_frame", OF r] a by (auto simp: frame_def)
  with a qt.trans show "frame s u" by (auto simp: frame_def)
qed

lemmas fr_trans [trans] = fr.trans

lemma frame_refl [simp]: "frame s s"
  by (rule fr.refl)

named_theorems frame_intros \<open>operations in the frame\<close>

lemma frame_kern: "frame s t \<Longrightarrow> quiet (s_kern t) k \<Longrightarrow> frame s (with_kern k t)"
  by (auto simp: frame_def intro: qt.trans)

lemma frame_put:
  assumes "cmd_at s p = Inr c" "cmd_frame c c'"
  shows "frame s (put_cmd p c' s)"
proof -
  have "p < length (s_heap s)" "s_heap s ! p = Some c"
    using assms(1) by (auto simp: cmd_at_def split: if_splits option.splits)
  then have "list_all2 (rel_option cmd_frame) (s_heap s) ((s_heap s)[p := Some c'])"
    using assms(2) list_all2_update_cong[of "rel_option cmd_frame" "s_heap s" "s_heap s" "Some c" "Some c'" p]
    by (metis heap_refl list_update_id option.rel_inject(2))
  then show ?thesis by (simp add: frame_def put_cmd_def)
qed

lemma frame_put_kern: "cmd_at s p = Inr c \<Longrightarrow> cmd_frame c c' \<Longrightarrow> quiet (s_kern s) k \<Longrightarrow> frame s (put_cmd p c' (with_kern k s))"
  using frame_kern[OF frame_put] by fastforce

text \<open>Updates of \<open>GBLS\<close> that keep the table and the two objects that are part of it well formed.\<close>

definition gbls_frame :: "'h globals_t \<Rightarrow> 'h globals_t \<Rightarrow> bool" where
  "gbls_frame g g' \<longleftrightarrow> g_cmds g' = g_cmds g \<and> (gbls_ok g \<longrightarrow> gbls_ok g')"

lemma frame_gbls: "gbls_frame (s_gbls s) g \<Longrightarrow> frame s (s\<lparr>s_gbls := g\<rparr>)"
  by (simp add: frame_def gbls_frame_def)

lemma frame_upd: "gbls_frame (s_gbls s) (f (s_gbls s)) \<Longrightarrow> frame s (upd_gbls f s)"
  by (simp add: upd_gbls_def frame_gbls)

lemma frame_out [simp]:
  "frame s (t\<lparr>s_monout := x\<rparr>) = frame s t" "frame s (t\<lparr>s_fusein := y\<rparr>) = frame s t"
  "frame s (t\<lparr>s_fuseout := z\<rparr>) = frame s t"
  by (simp_all add: frame_def)

text \<open>A command through a frame.\<close>

lemma frame_cmd_at:
  assumes "frame s t"
  shows "case cmd_at s p of Inl _ \<Rightarrow> cmd_at t p = Inl UseAfterFree
    | Inr c \<Rightarrow> \<exists>c'. cmd_at t p = Inr c' \<and> cmd_frame c c'"
proof (cases "p < length (s_heap s)")
  case True
  then have "rel_option cmd_frame (s_heap s ! p) (s_heap t ! p)" "p < length (s_heap t)"
    using assms by (auto simp: frame_def dest: list_all2_nthD list_all2_lengthD)
  then show ?thesis using True by (cases "s_heap s ! p"; cases "s_heap t ! p") (auto simp: cmd_at_def)
next
  case False
  moreover have "length (s_heap t) = length (s_heap s)" using assms by (auto simp: frame_def dest: list_all2_lengthD)
  ultimately show ?thesis by (simp add: cmd_at_def)
qed

section \<open>Operations that move data\<close>

lemma gbls_frame_refl [simp]: "gbls_frame g g"
  by (simp add: gbls_frame_def)

lemma frame_cmdWriteChar [frame_intros]:
  assumes "cmdWriteChar p ch s = Inr (n, s')"
  shows "frame s s'"
proof -
  from assms obtain c t ts k where r: "cmd_at s p = Inr c"
    "ttyWriteChar (c_cmdtty c) ch (Some (c_lastwrite c)) (s_kern s) = Inr (n, t, ts, k)"
    "s' = put_cmd p (c\<lparr>c_cmdtty := t, c_lastwrite := (case ts of None \<Rightarrow> c_lastwrite c | Some x \<Rightarrow> x)\<rparr>) (with_kern k s)"
    by (auto simp: cmdWriteChar_def res_dest)
  show ?thesis unfolding r(3)
    by (rule frame_put_kern[OF r(1)]) (use r(2) in \<open>auto simp: cmd_frame_def cmd_ok_def intro: ok_intros quiet_intros\<close>)
qed

lemma frame_match_ready:
  assumes "match_ready H ch c g = Inr (c', g')"
  shows "cmd_frame c c'" "gbls_frame g g'"
  using assms
  by (auto simp: match_ready_def res_dest Let_def cmd_frame_def cmd_ok_def gbls_frame_def gbls_ok_def
      split: if_splits option.splits)

lemma frame_cmd_store: "cmd_store ch c = Inr c' \<Longrightarrow> cmd_frame c c'"
  by (auto simp: cmd_store_def res_dest cmd_frame_def cmd_ok_def)

lemma cmd_frame_trans: "cmd_frame c d \<Longrightarrow> cmd_frame d e \<Longrightarrow> cmd_frame c e"
  by (simp add: cmd_frame_def)

lemma frame_bcst_line:
  "bcst_line g ch i c (t, k) = Inr (n, c', t', k') \<Longrightarrow> cmd_frame c c' \<and> quiet k k' \<and> (tty_ok t \<longrightarrow> tty_ok t')"
  by (auto simp: bcst_line_def res_dest Let_def quiet_def cmd_frame_def cmd_ok_def split: if_splits
      dest!: put_seq_step[unfolded quiet_def])

lemma frame_bcst_output:
  "bcst_output g ch i c (t, k) = Inr (n, c', t', k') \<Longrightarrow> cmd_frame c c' \<and> quiet k k' \<and> (tty_ok t \<longrightarrow> tty_ok t')"
  by (auto simp: bcst_output_def res_dest split: if_splits intro: quiet_tty_put dest: frame_bcst_line ok_tty_put)

end
