(* ===== verification/FrameOps.thy ===== *)
theory FrameOps
  imports Frame
begin

text \<open>
  The operations of the program that stay in the frame: relaying, registration, messages,
  the toggles of the monitor, creation of ttys, requests to the file system.
\<close>

section \<open>Commands\<close>

lemma frame_cmd_output [frame_intros]:
  assumes "cmd_output H p ch s = Inr (n, s')"
  shows "frame s s'"
proof -
  from assms obtain c c1 g c2 w t k m c3 bt k' where r: "cmd_at s p = Inr c"
    "match_ready H ch c (s_gbls s) = Inr (c1, g)" "cmd_store ch c1 = Inr c2"
    "tty_put [ch] (c_clttty c2, s_kern s) = Inr (w, t, k)"
    "bcst_output g ch (cmdbufNtoI (c_bufn c1)) (c2\<lparr>c_clttty := t\<rparr>) (g_bcsttty g, k) = Inr (m, c3, bt, k')"
    "s' = put_cmd p c3 (with_kern k' (s\<lparr>s_gbls := g\<lparr>g_bcsttty := bt\<rparr>\<rparr>))"
    by (auto simp: cmd_output_def res_dest Let_def split: if_splits)
  note b = frame_bcst_output[OF r(5)]
  have q: "quiet (s_kern s) k'" using quiet_tty_put[OF r(4)] b qt.trans by blast
  have "cmd_frame c2 (c2\<lparr>c_clttty := t\<rparr>)" using ok_tty_put[OF r(4)] by (simp add: cmd_frame_def cmd_ok_def)
  then have c: "cmd_frame c c3" using frame_match_ready(1)[OF r(2)] frame_cmd_store[OF r(3)] b cmd_frame_trans by blast
  have "gbls_frame (s_gbls s) (g\<lparr>g_bcsttty := bt\<rparr>)"
    using frame_match_ready(2)[OF r(2)] b by (auto simp: gbls_frame_def gbls_ok_def)
  from frame_gbls[OF this] have f: "frame s (s\<lparr>s_gbls := g\<lparr>g_bcsttty := bt\<rparr>\<rparr>)" .
  have "frame (s\<lparr>s_gbls := g\<lparr>g_bcsttty := bt\<rparr>\<rparr>) s'" unfolding r(6)
    by (rule frame_put_kern[where c = c]) (use r(1) c q in simp_all)
  with f show ?thesis by (rule fr.trans)
qed

lemma frame_cmdttyProcessOutput [frame_intros]:
  assumes "cmdttyProcessOutput H p s = Inr (n, s')"
  shows "frame s s'"
proof -
  from assms obtain c m e ch t k where r: "cmd_at s p = Inr c"
    "ttyReadChar (c_cmdtty c) None 0 (s_kern s) = Inr (m, e, ch, t, k)"
    "m \<noteq> 0" "(case ch of Some ch \<Rightarrow> cmd_output H p ch (put_cmd p (c\<lparr>c_cmdtty := t\<rparr>) (with_kern k s))
       | None \<Rightarrow> if e \<noteq> E_AGAIN then Inl (NYI ''cmdttyProcessOutput'')
                 else Inr (m, put_cmd p (c\<lparr>c_cmdtty := t\<rparr>) (with_kern k s))) = Inr (n, s')"
    by (auto simp: cmdttyProcessOutput_def res_dest Let_def split: if_splits)
  have "frame s (put_cmd p (c\<lparr>c_cmdtty := t\<rparr>) (with_kern k s))"
    by (rule frame_put_kern[OF r(1)])
       (use r(2) in \<open>auto simp: cmd_frame_def cmd_ok_def intro: quiet_ttyReadChar ok_ttyReadChar\<close>)
  then show ?thesis using r(4) by (auto split: option.splits if_splits intro: fr.trans frame_cmd_output)
qed

lemma frame_drain_fuel: "cmdttyDrain_fuel m H p s = Inr s' \<Longrightarrow> frame s s'"
  by (induction m arbitrary: s) (auto simp: res_dest split: if_splits intro: fr.trans dest!: frame_cmdttyProcessOutput)

lemma frame_cmdttyDrain [frame_intros]: "cmdttyDrain H p s = Inr s' \<Longrightarrow> frame s s'"
  by (auto simp: cmdttyDrain_def res_dest simp del: cmdttyDrain_fuel.simps dest: frame_drain_fuel)

lemma frame_quiet_kern [frame_intros]: "quiet (s_kern s) k \<Longrightarrow> frame s (with_kern k s)"
  by (rule frame_kern[OF fr.refl])

lemma frame_cmdRegisterProcessEvents [frame_intros]:
  "cmdRegisterProcessEvents p ep s = Inr (b, s') \<Longrightarrow> frame s s'"
  by (cases "cmd_at s p"; cases "sys_epoll_add (c_pidfd (projr (cmd_at s p))) (Ed_pidfded p) (s_kern s)")
     (auto simp: cmdRegisterProcessEvents_def res_dest intro!: frame_quiet_kern quiet_calls(10))

lemma frame_cmdRegisterttyEvents [frame_intros]: "cmdRegisterttyEvents p s = Inr (b, s') \<Longrightarrow> frame s s'"
  by (auto simp: cmdRegisterttyEvents_def res_dest quiet_def intro!: frame_quiet_kern
      dest!: quiet_ttyRegisterEvents[unfolded quiet_def])

lemma frame_send_chars [frame_intros]: "send_chars p chs s = Inr s' \<Longrightarrow> frame s s'"
proof (induction chs arbitrary: s)
  case Nil
  then show ?case by (simp add: fr.refl)
next
  case (Cons ch chs)
  then obtain n t where w: "cmdWriteChar p ch s = Inr (n, t)"
    "bind_res (cmd_at t p) (\<lambda>c. send_chars p chs (with_kern (delaysec (c_delay c) (s_kern t)) t)) = Inr s'"
    by (auto simp: bind_res_eq_Inr[of "cmdWriteChar p ch s"] split: if_splits)
  from w(2) obtain c where r: "cmd_at t p = Inr c"
    "send_chars p chs (with_kern (delaysec (c_delay c) (s_kern t)) t) = Inr s'"
    unfolding bind_res_eq_Inr by blast
  have "frame t (with_kern (delaysec (c_delay c) (s_kern t)) t)" by (simp add: frame_quiet_kern)
  with Cons.IH[OF r(2)] frame_cmdWriteChar[OF w(1)] show ?case using fr.trans by blast
qed

lemma frame_send_stopstr [frame_intros]: "send_stopstr p s = Inr s' \<Longrightarrow> frame s s'"
  by (auto simp: send_stopstr_def res_dest fr.refl split: option.splits if_splits
      intro: fr.trans[OF frame_cmdWriteChar frame_send_chars])

lemma frame_drop_ready [frame_intros]:
  assumes "drop_ready site p s = Inr s'"
  shows "frame s s'"
proof -
  from assms obtain c where c: "cmd_at s p = Inr c" by (auto simp: drop_ready_def res_dest)
  show ?thesis
  proof (cases "cmdIsReady (s_gbls s) c")
    case True
    with assms c have s': "s' = upd_gbls decCmdsReadyCnt (put_cmd p (c\<lparr>c_readycnt := 0\<rparr>) s)"
      by (auto simp: drop_ready_def res_dest Let_def simp del: upd_gbls_simps)
    have "frame s (put_cmd p (c\<lparr>c_readycnt := 0\<rparr>) s)"
      by (rule frame_put[OF c]) (simp add: cmd_frame_def cmd_ok_def)
    moreover have "frame t (upd_gbls decCmdsReadyCnt t)" for t :: "'a sys"
      by (rule frame_upd) (simp add: gbls_frame_def gbls_ok_def decCmdsReadyCnt_def)
    ultimately show ?thesis unfolding s' by (rule fr.trans)
  qed (use assms c in \<open>simp add: drop_ready_def fr.refl\<close>)
qed

lemma frame_cmdCreate [frame_intros]:
  assumes "cmdCreate p s = Inr (b, s')"
  shows "frame s s'"
proof -
  from assms obtain c ok t k where r: "cmd_at s p = Inr c"
    "ttyCreate (T_clttty p) (c_clttty c) \<lparr>hdlr = Some H_cmdCltttyEvent, obj = Some (O_cmd p)\<rparr>
       \<lparr>hdlr = Some H_cmdCltttyNotify, obj = Some (O_cmd p)\<rparr> True (s_kern s) = Inr (ok, t, k)"
    by (auto simp: cmdCreate_def res_dest)
  note q = quiet_ttyCreate[OF r(2)] and t = ok_ttyCreate[OF r(2)]
  show ?thesis
  proof (cases ok)
    case False
    with assms r have "s' = put_cmd p (c\<lparr>c_clttty := t\<rparr>) (with_kern k s)" by (auto simp: cmdCreate_def res_dest)
    with r(1) q t show ?thesis by (auto intro!: frame_put_kern simp: cmd_frame_def cmd_ok_def)
  next
    case True
    with assms r obtain t2 k2 where t2: "ttyCreate (T_cmdtty p) (c_cmdtty c)
        \<lparr>hdlr = Some H_cmdCmdttyEvent, obj = Some (O_cmd p)\<rparr> evnt_null True k = Inr (b, t2, k2)"
      "s' = put_cmd p (c\<lparr>c_clttty := t, c_cmdtty := t2\<rparr>) (with_kern k2 s)"
      by (auto simp: cmdCreate_def res_dest)
    have "quiet (s_kern s) k2" using q quiet_ttyCreate[OF t2(1)] by (rule qt.trans)
    then show ?thesis unfolding t2(2) using r(1) t ok_ttyCreate[OF t2(1)]
      by (auto intro!: frame_put_kern simp: cmd_frame_def cmd_ok_def)
  qed
qed

lemma frame_monprintf [simp]: "frame s (monprintf msg t) = frame s t"
  by (simp add: monprintf_def)

lemma frame_eprint_to [simp]: "frame s (eprint_to tomon msg t) = frame s t"
  by (simp add: eprint_to_def)

lemma frame_cmdspecParse [frame_intros]: "cmdspecParse strtod tomon str s = (r, s') \<Longrightarrow> frame s s'"
  by (auto simp: cmdspecParse_def Let_def fr.refl split: option.splits prod.splits if_splits)

lemma frame_update_slowest [frame_intros]: "update_slowest p d s = Inr s' \<Longrightarrow> frame s s'"
  by (auto simp: update_slowest_def res_dest fr.refl gbls_frame_def gbls_ok_def intro!: frame_upd split: option.splits if_splits)

lemma frame_cmdtty_hup [frame_intros]:
  assumes "cmdtty_hup H p ep s = Inr s'"
  shows "frame s s'"
proof -
  from assms obtain c s1 where r: "cmd_at s p = Inr c" "cmdttyDrain H p s = Inr s1"
    by (auto simp: cmdtty_hup_def bind_res_eq_Inr Let_def)
  obtain ok k where e: "sys_epoll_del (tty_dfd (c_cmdtty c)) (s_kern s1) = (ok, k)" by force
  from assms r e have "s' = with_kern (sys_close (tty_dfd (c_cmdtty c)) k) s1"
    by (auto simp: cmdtty_hup_def res_dest Let_def)
  then show ?thesis using frame_kern[OF frame_cmdttyDrain[OF r(2)]] quiet_calls(11)[OF e] by simp
qed

lemma frame_cmdCmdttyEvent [frame_intros]: "cmdCmdttyEvent H p evnts ep s = Inr (rc, s') \<Longrightarrow> frame s s'"
  by (auto simp: cmdCmdttyEvent_def res_dest fr.refl split: if_splits
      intro: fr.trans frame_cmdtty_hup frame_cmdttyProcessOutput)

section \<open>The broadcast tty\<close>

lemma frame_GBLSCmdsWriteChar [frame_intros]:
  assumes "GBLSCmdsWriteChar H ch s = Inr (n, s')"
  shows "frame s s'"
proof -
  have "frame s (snd (n, s'))"
    by (rule fold_res_invariant[OF assms[unfolded GBLSCmdsWriteChar_def], of "\<lambda>x. frame s (snd x)"])
       (auto simp: bind_res_eq_Inr fr.refl split: if_splits elim: fr.trans[OF _ frame_cmdWriteChar])
  then show ?thesis by simp
qed

lemma frame_set_bcst: "(tty_ok (g_bcsttty (s_gbls s)) \<Longrightarrow> tty_ok t) \<Longrightarrow> quiet (s_kern s) k \<Longrightarrow>
  frame s (upd_gbls (\<lambda>g. g\<lparr>g_bcsttty := t\<rparr>) (with_kern k s))"
  by (rule fr.trans[OF frame_quiet_kern frame_upd]) (auto simp: gbls_frame_def gbls_ok_def)

lemma frame_bcstttyEvent [frame_intros]:
  assumes "bcstttyEvent H evnts s = Inr (rc, s')"
  shows "frame s s'"
proof (cases "has EPOLLIN evnts \<and> \<not> (g_readystr (s_gbls s) \<noteq> None
    \<and> g_cmdsreadycnt (s_gbls s) mod 2 ^ 32 < int (hh_count H (g_cmds (s_gbls s))))")
  case False
  with assms show ?thesis by (auto simp: bcstttyEvent_def Let_def fr.refl split: if_splits)
next
  case True
  with assms obtain q slow n e ch t k where r: "cmd_at s q = Inr slow"
    "ttyReadChar (g_bcsttty (s_gbls s)) (Some (c_lastwrite slow)) (c_delay slow) (s_kern s) = Inr (n, e, ch, t, k)"
    "(if n = 0 then Inr (EVNT_HDLR_SUCCESS, upd_gbls (\<lambda>g. g\<lparr>g_bcsttty := t\<rparr>) (with_kern k s))
      else case ch of None \<Rightarrow> Inl UninitRead
        | Some ch \<Rightarrow> bind_res (GBLSCmdsWriteChar H ch (upd_gbls (\<lambda>g. g\<lparr>g_bcsttty := t\<rparr>) (with_kern k s)))
            (\<lambda>(_, s). Inr (EVNT_HDLR_SUCCESS, s))) = Inr (rc, s')"
    by (auto simp: bcstttyEvent_def Let_def bind_res_eq_Inr split: if_splits option.splits)
  have "frame s (upd_gbls (\<lambda>g. g\<lparr>g_bcsttty := t\<rparr>) (with_kern k s))"
    using quiet_ttyReadChar[OF r(2)] ok_ttyReadChar[OF r(2)] by (rule_tac frame_set_bcst)
  with r(3) show ?thesis
    by (auto simp: bind_res_eq_Inr simp del: upd_gbls_simps split: if_splits option.splits
        intro: fr.trans frame_GBLSCmdsWriteChar)
qed

lemma frame_bcstttyCreate [frame_intros]: "bcstttyCreate s = Inr (ok, s') \<Longrightarrow> frame s s'"
  by (auto simp: bcstttyCreate_def bind_res_eq_Inr fr.refl simp del: upd_gbls_simps split: if_splits
      intro!: frame_set_bcst dest: quiet_ttyCreate ok_ttyCreate)

lemma frame_bcstttyRegisterEvents [frame_intros]: "bcstttyRegisterEvents s = Inr s' \<Longrightarrow> frame s s'"
  by (auto simp: bcstttyRegisterEvents_def bind_res_eq_Inr fr.refl split: if_splits
      intro!: frame_quiet_kern quiet_ttyRegisterEvents)

section \<open>The monitor\<close>

lemma frame_drain_cmd [frame_intros]:
  assumes "drain_cmd H p s = Inr s'"
  shows "frame s s'"
proof -
  from assms obtain s1 c where r: "cmdttyDrain H p s = Inr s1" "cmd_at s1 p = Inr c"
    "s' = put_cmd p (c\<lparr>c_bufstart := 0, c_bufn := 0\<rparr>) (with_kern (ttySubFlush (c_clttty c) (s_kern s1)) s1)"
    by (auto simp: drain_cmd_def bind_res_eq_Inr)
  have "frame s1 s'" unfolding r(3) using r(2) by (rule frame_put_kern) (simp_all add: cmd_frame_def cmd_ok_def)
  with frame_cmdttyDrain[OF r(1)] show ?thesis by (rule fr.trans)
qed

lemma frame_monDrain [frame_intros]:
  assumes "monDrain H s = Inr (rc, s')"
  shows "frame s s'"
proof -
  from assms obtain s1 where r: "fold_res (drain_cmd H) (hh_iter H (g_cmds (s_gbls s))) s = Inr s1"
    "s' = with_kern (ttySubFlush (g_bcsttty (s_gbls s1)) (s_kern s1)) s1"
    by (auto simp: monDrain_def bind_res_eq_Inr)
  have "frame s s1" by (rule fr.fold_rel[OF r(1)]) (simp add: frame_drain_cmd)
  then show ?thesis unfolding r(2) by (simp add: frame_kern)
qed

lemma frame_list_cmd [frame_intros]: "list_cmd l d p s = Inr s' \<Longrightarrow> frame s s'"
  by (auto simp: list_cmd_def bind_res_eq_Inr Let_def fr.refl split: if_splits)

lemma frame_monList [frame_intros]: "monList H args s = Inr (rc, s') \<Longrightarrow> frame s s'"
  by (auto simp: monList_def bind_res_eq_Inr elim!: fr.fold_rel intro: frame_list_cmd)

lemma frame_toggles [frame_intros]:
  "frame s (snd (monToggleSilent s))" "frame s (snd (monToggleRestart s))"
  "frame s (snd (monToggleLB s))" "frame s (snd (monTogglePrefix s))" "frame s (snd (monVerbose d s))"
  by (auto simp: monToggleSilent_def monToggleRestart_def monToggleLB_def monTogglePrefix_def monVerbose_def Let_def
      gbls_frame_def gbls_ok_def mon_ok_def intro!: frame_upd)

lemma frame_monGreeting [simp]: "frame s (monGreeting t) = frame s t"
  by (simp add: monGreeting_def)

lemma frame_monusage [simp]: "frame s (monusage t) = frame s t"
proof -
  have "frame s (fold (\<lambda>d s. case mc_usage d of None \<Rightarrow> s | Some u \<Rightarrow> monprintf (f d u) s) ds t) = frame s t" for f ds
    by (induction ds arbitrary: t) (auto split: option.splits)
  then show ?thesis by (simp add: monusage_def)
qed

lemma frame_mon_unknown [simp]: "frame s (mon_unknown w t) = frame s t"
  by (simp add: mon_unknown_def)

lemma frame_put_line: "length l = length (m_line (g_mon (s_gbls s))) \<Longrightarrow> frame s (put_line l s)"
  by (auto simp: put_line_def gbls_frame_def gbls_ok_def mon_ok_def intro!: frame_upd)

lemma frame_set_mon_n:
  "(0 \<le> m_n (g_mon (s_gbls s)) \<Longrightarrow> 0 \<le> n) \<Longrightarrow> n < int MON_LINELEN \<Longrightarrow> frame s (set_mon_n n s)"
  by (auto simp: set_mon_n_def gbls_frame_def gbls_ok_def mon_ok_def intro!: frame_upd)

lemma mon_line_simps [simp]:
  "m_line (g_mon (s_gbls (put_line l s))) = l" "m_line (g_mon (s_gbls (set_mon_n n s))) = m_line (g_mon (s_gbls s))"
  "m_n (g_mon (s_gbls (put_line l s))) = m_n (g_mon (s_gbls s))"
  by (simp_all add: put_line_def set_mon_n_def)

lemma frame_monNotify [frame_intros]: "monNotify ievents s = Inr (rc, s') \<Longrightarrow> frame s s'"
  by (auto simp: monNotify_def fr.refl split: if_splits)

lemma frame_mon_init: "frame s (upd_gbls (\<lambda>g. g\<lparr>g_mon := m\<rparr>) s) \<longleftrightarrow> (gbls_ok (s_gbls s) \<longrightarrow> mon_ok m)"
  by (auto simp: frame_def gbls_ok_def)

lemma frame_monttyCreate [frame_intros]:
  assumes "monttyCreate f s = Inr (ok, s')"
  shows "frame s s'"
proof -
  from assms obtain b t k where r: "ttyCreate T_mon (m_tty (g_mon (s_gbls s)))
      \<lparr>hdlr = Some H_monEvent, obj = Some O_mon\<rparr> \<lparr>hdlr = Some H_monNotify, obj = Some O_mon\<rparr> True (s_kern s) = Inr (b, t, k)"
    "s' = upd_gbls (\<lambda>g. g\<lparr>g_mon := (g_mon g)\<lparr>m_tty := t, m_fileptr := b \<and> f\<rparr>\<rparr>) (with_kern k s)"
    by (auto simp: monttyCreate_def bind_res_eq_Inr simp del: upd_gbls_simps)
  have "frame s (with_kern k s)" using quiet_ttyCreate[OF r(1)] by (rule frame_quiet_kern)
  moreover have "frame (with_kern k s) s'" unfolding r(2)
    by (rule frame_upd) (use ok_ttyCreate[OF r(1)] in \<open>auto simp: gbls_frame_def gbls_ok_def mon_ok_def\<close>)
  ultimately show ?thesis by (rule fr.trans)
qed

lemma mon_ok_init: "tty_ok t \<Longrightarrow> mon_ok (mon_zero\<lparr>m_ed := ed, m_silent := sl, m_tty := t\<rparr>)"
  by (simp add: mon_ok_def mon_zero_def MON_LINELEN_def)

lemma mon_ok_reset: "mon_ok (mon_zero\<lparr>m_ed := ed, m_silent := sl\<rparr>)"
  by (simp add: mon_ok_def mon_zero_def MON_LINELEN_def)

lemma frame_monInit [frame_intros]: "monInit i d s = Inr (Some s') \<Longrightarrow> frame s s'"
  by (auto simp: monInit_def Let_def bind_res_eq_Inr frame_mon_init mon_zero_def split: if_splits option.splits
      intro!: mon_ok_init[unfolded mon_zero_def, simplified] dest!: ok_ttyInit)

section \<open>The loop\<close>

lemma frame_put_tty:
  assumes "tty_at r s = Inr t0" "put_tty r t (with_kern k s) = Inr s'" "quiet (s_kern s) k" "tty_ok t0 \<Longrightarrow> tty_ok t"
  shows "frame s s'"
proof (cases r)
  case T_bcst
  with assms show ?thesis by (auto simp: put_tty_def tty_at_def simp del: upd_gbls_simps intro!: frame_set_bcst)
next
  case T_mon
  with assms(2) have s': "s' = upd_gbls (\<lambda>g. g\<lparr>g_mon := (g_mon g)\<lparr>m_tty := t\<rparr>\<rparr>) (with_kern k s)"
    by (simp add: put_tty_def del: upd_gbls_simps)
  show ?thesis unfolding s'
    by (rule fr.trans[OF frame_quiet_kern[OF assms(3)] frame_upd])
       (use assms(1,4) T_mon in \<open>auto simp: tty_at_def gbls_frame_def gbls_ok_def mon_ok_def\<close>)
next
  case (T_cmdtty p)
  with assms show ?thesis
    by (auto simp: put_tty_def tty_at_def bind_res_eq_Inr cmd_frame_def cmd_ok_def intro!: frame_put_kern)
next
  case (T_clttty p)
  with assms show ?thesis
    by (auto simp: put_tty_def tty_at_def bind_res_eq_Inr cmd_frame_def cmd_ok_def intro!: frame_put_kern)
qed

lemma frame_sigEvent [frame_intros]:
  assumes "sigEvent evnts s = Inr (rc, s')"
  shows "frame s s'"
proof -
  obtain sg k where k: "sys_read_signal (s_kern s) = (sg, k)" by force
  have "frame s (with_kern k s)" using quiet_calls(4)[OF k] by (rule frame_quiet_kern)
  with assms k show ?thesis by (auto simp: sigEvent_def fr.refl split: if_splits option.splits)
qed

lemma frame_fsEvent [frame_intros]: "fsEvent H L evnts s = Inr (rc, s') \<Longrightarrow> frame s s'"
  by (auto simp: fsEvent_def bind_res_eq_Inr fr.refl split: if_splits list.splits)

lemma frame_sigprocRegisterEvents [frame_intros]: "sigprocRegisterEvents ep s = Inr s' \<Longrightarrow> frame s s'"
  by (cases "sys_epoll_add (sg_sfd (g_sigproc (s_gbls s))) Ed_sigproc (s_kern s)")
     (auto simp: sigprocRegisterEvents_def res_dest Let_def frame_quiet_kern quiet_calls(10))

lemma frame_monitorRegisterEvents [frame_intros]: "monitorRegisterEvents s = Inr s' \<Longrightarrow> frame s s'"
  by (auto simp: monitorRegisterEvents_def bind_res_eq_Inr intro!: frame_quiet_kern quiet_ttyRegisterEvents)

lemma frame_fsRegisterEvents [frame_intros]: "fsRegisterEvents s = Inr (b, s') \<Longrightarrow> frame s s'"
  by (cases "sys_epoll_add (fs_fuse_fd (g_fs (s_gbls s))) Ed_fs (s_kern s)")
     (auto simp: fsRegisterEvents_def res_dest Let_def frame_quiet_kern quiet_calls(10))

lemma frame_loop_register [frame_intros]:
  assumes "loop_register H ep s = Inr s'"
  shows "frame s s'"
proof -
  from assms obtain s1 s2 b s3 s4 where r: "sigprocRegisterEvents ep s = Inr s1" "monitorRegisterEvents s1 = Inr s2"
    "fsRegisterEvents s2 = Inr (b, s3)" "bcstttyRegisterEvents s3 = Inr s4"
    "fold_res (\<lambda>p s. bind_res (cmdRegisterttyEvents p s) (\<lambda>(_, s). Inr s)) (hh_iter H (g_cmds (s_gbls s4))) s4 = Inr s'"
    by (auto simp: loop_register_def bind_res_eq_Inr)
  note frame_sigprocRegisterEvents[OF r(1)] also note frame_monitorRegisterEvents[OF r(2)]
  also note frame_fsRegisterEvents[OF r(3)] also note frame_bcstttyRegisterEvents[OF r(4)]
  also have "frame s4 s'" by (rule fr.fold_rel[OF r(5)]) (auto simp: bind_res_eq_Inr intro: frame_cmdRegisterttyEvents)
  finally show ?thesis .
qed

section \<open>Start-up and clean-up\<close>

lemma frame_logopen: "frame s (snd (logopen b d s))"
proof -
  have "frame s (snd (setlogpath d s))"
    by (auto simp: setlogpath_def Let_def fr.refl gbls_frame_def gbls_ok_def intro!: frame_upd)
  moreover have "frame t (upd_gbls (\<lambda>g. g\<lparr>g_logfile := True\<rparr>) (with_kern k t))" if "quiet (s_kern t) k" for k and t :: "'a sys"
    by (rule fr.trans[OF frame_quiet_kern[OF that] frame_upd]) (simp add: gbls_frame_def gbls_ok_def)
  moreover have "frame t (upd_gbls (\<lambda>g. g\<lparr>g_logfile := True\<rparr>) t)" for t :: "'a sys"
    by (rule frame_upd) (simp add: gbls_frame_def gbls_ok_def)
  ultimately show ?thesis
    by (auto simp: logopen_def Let_def simp del: upd_gbls_simps split: option.split intro: fr.trans)
qed

lemma frame_parse_opt: "frame s (snd (parse_opt strtod opt arg s))"
proof -
  have split: "frame s (snd x) \<Longrightarrow> frame s (snd y) \<Longrightarrow> frame s (snd (if b then x else y))" for b and x y :: "bool \<times> 'a sys"
    by simp
  show ?thesis unfolding parse_opt_def
    by (intro split) (auto simp: Let_def fr.refl gbls_frame_def gbls_ok_def intro!: frame_upd split: option.split)
qed

lemma frame_argsParse [frame_intros]:
  assumes "argsParse strtod opts args s = (ok, s')"
  shows "frame s s'"
proof -
  have p: "frame t (snd (parse_opts strtod opts t))" for t :: "'a sys"
  proof (induction opts arbitrary: t)
    case (Cons x xs)
    obtain b1 t1 where o: "parse_opt strtod (fst x) (snd x) t = (b1, t1)" by force
    have "frame t t1" using frame_parse_opt[of t strtod "fst x" "snd x"] by (simp add: o)
    with Cons.IH[of t1] o show ?case by (cases x) (auto intro: fr.trans)
  qed (simp add: fr.refl)
  have u: "frame t (upd_gbls (\<lambda>g. g\<lparr>g_initialcmdspecs := args, g_bcstflg := f g\<rparr>) t)" for f and t :: "'a sys"
    by (rule frame_upd) (simp add: gbls_frame_def gbls_ok_def)
  obtain b t where t: "parse_opts strtod opts s = (b, t)" by force
  have st: "frame s t" using p[of s] by (simp add: t)
  from assms t consider "s' = t"
    | "s' = upd_gbls (\<lambda>g. g\<lparr>g_initialcmdspecs := args, g_bcstflg := length args > 1 \<or> g_bcstflg g\<rparr>) t"
    by (auto simp: argsParse_def split: if_splits)
  then show ?thesis using st u[of t "\<lambda>g. length args > 1 \<or> g_bcstflg g"] fr.trans by cases auto
qed

lemma frame_cleanup_bcst: "frame s (cleanup_bcst s)"
  by (auto simp: cleanup_bcst_def fr.refl simp del: upd_gbls_simps split: prod.split intro!: frame_set_bcst
      intro: quiet_ttyCleanup ok_ttyCleanup)

lemma frame_monCleanup: "frame s (monCleanup s)"
proof -
  obtain b t k where t: "ttyCleanup (m_tty (g_mon (s_gbls s))) (s_kern s) = (b, t, k)" by (metis prod_cases3)
  have "frame s (upd_gbls (\<lambda>g. g\<lparr>g_mon := (g_mon g)\<lparr>m_tty := t, m_n := 0, m_fileptr := False\<rparr>\<rparr>) (with_kern k s))"
    by (rule fr.trans[OF frame_quiet_kern[OF quiet_ttyCleanup[OF t]] frame_upd])
       (use ok_ttyCleanup[OF t] in \<open>auto simp: gbls_frame_def gbls_ok_def mon_ok_def\<close>)
  then show ?thesis by (simp add: monCleanup_def t del: upd_gbls_simps)
qed

lemma frame_cleanup_logfile: "cleanup_logfile s = Inr s' \<Longrightarrow> frame s s'"
  by (auto simp: cleanup_logfile_def Let_def fr.refl gbls_frame_def gbls_ok_def split: if_splits option.splits
      intro!: frame_kern frame_upd)

lemma frame_sigprocCleanup: "frame s (sigprocCleanup s)"
  by (auto simp: sigprocCleanup_def fr.refl gbls_frame_def gbls_ok_def intro!: frame_kern frame_upd)

text \<open>\<open>cleanup\<close>: the broadcast tty, then the commands, then what stays in the frame again.\<close>

lemma cleanup_parts:
  assumes "cleanup H s = Inr s'"
  obtains s1 where "frame s (cleanup_bcst s)"
    "fold_res (cleanup_cmd H) (hh_iter H (g_cmds (s_gbls (cleanup_bcst s)))) (cleanup_bcst s) = Inr s1" "frame s1 s'"
proof -
  from assms obtain s1 b fs s2 g where r: "fold_res (cleanup_cmd H) (hh_iter H (g_cmds (s_gbls (cleanup_bcst s)))) (cleanup_bcst s) = Inr s1"
    "cleanup_logfile (monCleanup (upd_gbls (\<lambda>g. g\<lparr>g_fs := fs\<rparr>) (upd_gbls (\<lambda>g. g\<lparr>g_slowestcmd := None\<rparr>) s1))) = Inr s2"
    "cleanup_logdir (s_gbls s2) = Inr g" "s' = sigprocCleanup (upd_gbls (\<lambda>_. cleanup_strings g) s2)"
    by (auto simp: cleanup_def Let_def bind_res_eq_Inr)
  have "frame s1 (upd_gbls (\<lambda>g. g\<lparr>g_fs := fs\<rparr>) (upd_gbls (\<lambda>g. g\<lparr>g_slowestcmd := None\<rparr>) s1))"
    by (simp only: upd_gbls_simps, rule frame_upd) (simp add: gbls_frame_def gbls_ok_def)
  also note frame_monCleanup also note frame_cleanup_logfile[OF r(2)]
  also have "frame s2 (upd_gbls (\<lambda>_. cleanup_strings g) s2)" using r(3)
    by (intro frame_upd) (auto simp: gbls_frame_def gbls_ok_def cleanup_strings_def cleanup_logdir_def split: option.splits if_splits)
  also note frame_sigprocCleanup
  finally have "frame s1 s'" by (simp add: r(4))
  with frame_cleanup_bcst r(1) show ?thesis by (rule that)
qed

end
