(* ===== verification/LifeCycle.thy ===== *)
theory LifeCycle
  imports FrameOps
begin

text \<open>
  The life of the commands' processes as an abstract machine, and the whole program as a
  refinement of it. An abstract state says which command objects exist and which process
  each of them runs, which processes have been started and which signals sent. A step
  creates a command, starts the process of a command that has none, signals the process a
  command runs, notes that it has ended, or deletes a command without a process.
\<close>

section \<open>The abstract machine\<close>

record life =
  l_cmds  :: "ptr \<Rightarrow> int option option"
  l_procs :: "spawn list"
  l_kills :: "(int \<times> int) list"

text \<open>\<open>pid\<close> is -1 where there is no process.\<close>

definition pid_state :: "int \<Rightarrow> int option" where
  "pid_state pid = (if pid = -1 then None else Some pid)"

inductive life_step :: "life \<Rightarrow> life \<Rightarrow> bool" where
  create: "l_cmds m p = None \<Longrightarrow> life_step m (m\<lparr>l_cmds := (l_cmds m)(p := Some None)\<rparr>)"
| start: "l_cmds m p = Some None \<Longrightarrow>
    life_step m (m\<lparr>l_cmds := (l_cmds m)(p := Some (pid_state (sp_pid sp))), l_procs := l_procs m @ [sp]\<rparr>)"
| signal: "l_cmds m p = Some (Some pid) \<Longrightarrow> sg \<in> {SIGTERM, SIGKILL} \<Longrightarrow>
    life_step m (m\<lparr>l_kills := l_kills m @ [(pid, sg)]\<rparr>)"
| ended: "l_cmds m p = Some (Some pid) \<Longrightarrow> life_step m (m\<lparr>l_cmds := (l_cmds m)(p := Some None)\<rparr>)"
| delete: "l_cmds m p = Some None \<Longrightarrow> life_step m (m\<lparr>l_cmds := (l_cmds m)(p := None)\<rparr>)"

text \<open>Only processes that were started are run or signalled.\<close>

definition life_own :: "life \<Rightarrow> bool" where
  "life_own m \<longleftrightarrow> (\<forall>p pid. l_cmds m p = Some (Some pid) \<longrightarrow> pid \<in> sp_pid ` set (l_procs m))
     \<and> (\<forall>(pid, sg) \<in> set (l_kills m). pid \<in> sp_pid ` set (l_procs m) \<and> sg \<in> {SIGTERM, SIGKILL})"

lemma life_step_own: "life_step m m' \<Longrightarrow> life_own m \<Longrightarrow> life_own m'"
  by (induction rule: life_step.induct)
     (auto simp: life_own_def pid_state_def image_Un split: if_splits)

lemma life_steps_own: "life_step\<^sup>*\<^sup>* m m' \<Longrightarrow> life_own m \<Longrightarrow> life_own m'"
  by (induction rule: rtranclp_induct) (auto intro: life_step_own)

section \<open>The abstraction\<close>

definition life_of :: "'h sys \<Rightarrow> life" where
  "life_of s = \<lparr>l_cmds = (\<lambda>p. case cmd_at s p of Inl _ \<Rightarrow> None | Inr c \<Rightarrow> Some (pid_state (c_pid c))),
     l_procs = k_procs (s_kern s), l_kills = k_kills (s_kern s)\<rparr>"

definition evolves :: "'h sys \<Rightarrow> 'h sys \<Rightarrow> bool" where
  "evolves s s' \<longleftrightarrow> life_step\<^sup>*\<^sup>* (life_of s) (life_of s')"

interpretation ev: state_rel evolves
  by unfold_locales (auto simp: evolves_def)

lemmas ev_trans [trans] = ev.trans

lemma evolves_same: "life_of s' = life_of s \<Longrightarrow> evolves s s'"
  by (simp add: evolves_def)

lemma life_of_with_kern: "quiet (s_kern s) k \<Longrightarrow> life_of (with_kern k s) = life_of s"
  by (simp add: life_of_def quiet_def)

lemma life_of_upd_gbls [simp]: "life_of (upd_gbls f s) = life_of s"
  by (simp add: life_of_def)

lemma life_of_gbls [simp]: "life_of (s\<lparr>s_gbls := g\<rparr>) = life_of s"
  by (simp add: life_of_def)

lemma life_of_out [simp]:
  "life_of (s\<lparr>s_monout := x\<rparr>) = life_of s" "life_of (s\<lparr>s_fusein := y, s_fuseout := z\<rparr>) = life_of s"
  by (simp_all add: life_of_def)

lemma life_of_put:
  assumes "cmd_at s p = Inr c"
  shows "life_of (put_cmd p c' s) = (life_of s)\<lparr>l_cmds := (l_cmds (life_of s))(p := Some (pid_state (c_pid c')))\<rparr>"
  using cmd_at_bound[OF assms] by (auto simp: life_of_def)

lemma l_cmds_life_of: "l_cmds (life_of s) p = (case cmd_at s p of Inl _ \<Rightarrow> None | Inr c \<Rightarrow> Some (pid_state (c_pid c)))"
  by (simp add: life_of_def)

lemma life_of_put_same:
  assumes "cmd_at s p = Inr c" "c_pid c' = c_pid c"
  shows "life_of (put_cmd p c' s) = life_of s"
proof -
  have "(l_cmds (life_of s))(p := Some (pid_state (c_pid c'))) = l_cmds (life_of s)"
    using assms by (intro ext) (simp add: l_cmds_life_of)
  then show ?thesis using life_of_put[OF assms(1), of c'] by simp
qed

text \<open>An update of a command that keeps its process, with quiet calls.\<close>

lemma life_of_put_kern:
  assumes "cmd_at s p = Inr c" "c_pid c' = c_pid c" "quiet (s_kern s) k"
  shows "life_of (put_cmd p c' (with_kern k s)) = life_of s"
  using assms by (simp add: life_of_put_same life_of_with_kern)

text \<open>What stays in the frame leaves the abstract state alone.\<close>

lemma life_frame:
  assumes "frame s t"
  shows "life_of t = life_of s"
proof -
  have "l_cmds (life_of t) p = l_cmds (life_of s) p" for p
    using frame_cmd_at[OF assms, of p] by (auto simp: l_cmds_life_of cmd_frame_def split: sum.splits)
  moreover have "quiet (s_kern s) (s_kern t)" using assms by (simp add: frame_def)
  ultimately show ?thesis by (auto simp: life_of_def quiet_def fun_eq_iff)
qed

end
