(* ===== verification/LifeOps.thy ===== *)
theory LifeOps
  imports LifeCycle
begin

text \<open>
  \<open>cmdStart\<close> and \<open>cmdStop\<close> told from their results, and against the abstract machine: what
  they do is a sequence of its steps.
\<close>

section \<open>Starting and stopping\<close>

text \<open>What \<open>cmdStart\<close> makes: the process, and the command that runs it.\<close>

definition spawn_of :: "cmd_t \<Rightarrow> bool \<Rightarrow> rat \<Rightarrow> kern \<Rightarrow> int \<Rightarrow> spawn" where
  "spawn_of c raw d k cpid = \<lparr>sp_pid = cpid, sp_tty = tty_path (c_cmdtty c), sp_raw = raw,
     sp_delay = (if d > 0 then d else 0), sp_shell = login_shell k, sp_cmdline = the (c_cmdline c)\<rparr>"

definition started :: "ptr \<Rightarrow> int \<Rightarrow> int \<Rightarrow> cmd_t \<Rightarrow> cmd_t" where
  "started p cpid f c = c\<lparr>c_pidfd := f, c_pid := cpid,
     c_pidfded := \<lparr>hdlr = Some H_cmdPidEvent, obj = Some (O_cmd p)\<rparr>, c_readycnt := 0\<rparr>"

lemma started_simps [simp]:
  "c_pid (started p cpid f c) = cpid" "c_pidfd (started p cpid f c) = f" "c_readycnt (started p cpid f c) = 0"
  "c_cmdtty (started p cpid f c) = c_cmdtty c" "c_clttty (started p cpid f c) = c_clttty c"
  "c_name (started p cpid f c) = c_name c"
  by (simp_all add: started_def)

lemma cmdStart_cases:
  assumes "cmdStart p raw epollfd d s = Inr (b, s')"
  obtains (running) c where "cmd_at s p = Inr c" "cmdIsRunning c" "\<not> b" "s' = s"
  | (started) c cpid k f k' where "cmd_at s p = Inr c" "\<not> cmdIsRunning c" "b" "sys_fork (s_kern s) = (Some cpid, k)"
      "c_cmdline c \<noteq> None" "f \<noteq> -1" "epollfd \<noteq> -1"
      "k_procs k' = k_procs (s_kern s) @ [spawn_of c raw d (s_kern s) cpid]" "k_kills k' = k_kills (s_kern s)"
      "s' = put_cmd p (started p cpid f c) (with_kern k' s)"
proof -
  from assms obtain c where c: "cmd_at s p = Inr c" by (auto simp: cmdStart_def res_dest)
  show ?thesis
  proof (cases "cmdIsRunning c")
    case True
    with assms c show ?thesis by (intro running[of c]) (auto simp: cmdStart_def res_dest)
  next
    case False
    obtain pid k where fk: "sys_fork (s_kern s) = (pid, k)" by force
    from assms c False fk obtain cpid line where p: "pid = Some cpid" "c_cmdline c = Some line"
      by (auto simp: cmdStart_def res_dest split: option.splits)
    define k1 where "k1 = k\<lparr>k_procs := k_procs k @ [\<lparr>sp_pid = cpid, sp_tty = tty_path (c_cmdtty c), sp_raw = raw,
                     sp_delay = (if d > 0 then d else 0), sp_shell = login_shell k, sp_cmdline = line\<rparr>]\<rparr>"
    obtain fo k2 where nf: "sys_newfd k1 = (fo, k2)" by force
    define f where "f = (case fo of None \<Rightarrow> -1 | Some f \<Rightarrow> f)"
    from assms c False fk p nf obtain r where reg: "b"
      "cmdRegisterProcessEvents p epollfd (put_cmd p (started p cpid f c) (with_kern k2 s)) = Inr (r, s')"
      by (auto simp: cmdStart_def res_dest Let_def k1_def f_def started_def)
    have bd: "p < length (s_heap s)" using c cmd_at_bound by blast
    obtain ok k3 where ep: "sys_epoll_add f (Ed_pidfded p) k2 = (ok, k3)" by force
    from reg(2) have e: "epollfd \<noteq> -1" "f \<noteq> -1" "s' = with_kern k3 (put_cmd p (started p cpid f c) (with_kern k2 s))"
      using bd ep by (auto simp: cmdRegisterProcessEvents_def res_dest)
    have "quiet (s_kern s) k" "quiet k1 k2" "quiet k2 k3"
      using fk nf ep by (auto intro: quiet_calls)
    moreover have "login_shell k = login_shell (s_kern s)" using fk by (auto simp: sys_fork_def login_shell_def)
    ultimately have "k_procs k3 = k_procs (s_kern s) @ [spawn_of c raw d (s_kern s) cpid]"
      "k_kills k3 = k_kills (s_kern s)" using p(2) by (auto simp: quiet_def k1_def spawn_of_def)
    with e p fk c False reg(1) show ?thesis by (intro started[of c cpid k f k3]) simp_all
  qed
qed

lemma ev_cmdStart:
  assumes "cmdStart p raw epollfd d s = Inr (b, s')"
  shows "evolves s s'"
  using assms
proof (cases rule: cmdStart_cases)
  case running
  then show ?thesis by (simp add: ev.refl)
next
  case (started c cpid k f k')
  have "l_cmds (life_of s) p = Some None"
    using started(1,2) by (simp add: l_cmds_life_of pid_state_def cmdIsRunning_def)
  from life_step.start[OF this, of "spawn_of c raw d (s_kern s) cpid"] have "life_step (life_of s) (life_of s')"
    using started by (simp add: life_of_put spawn_of_def) (simp add: life_of_def)
  then show ?thesis by (auto simp: evolves_def)
qed

text \<open>The signals \<open>cmdStop\<close> sends: \<open>SIGTERM\<close>, then a \<open>SIGKILL\<close> for every timeout.\<close>

fun timeouts :: "poll_ans list \<Rightarrow> nat" where
  "timeouts [] = 0"
| "timeouts (P_ready # as) = 0"
| "timeouts (P_timeout # as) = Suc (timeouts as)"
| "timeouts (a # as) = timeouts as"

lemma kill_wait_result:
  "kill_wait as c k = Inr k' \<Longrightarrow> k_procs k' = k_procs k
    \<and> k_kills k' = k_kills k @ replicate (timeouts as) (c_pid c, SIGKILL)
    \<and> k_open k' = k_open k \<and> k_epoll k' = k_epoll k \<and> k_out k' = k_out k"
  by (induction as c k rule: kill_wait.induct)
     (auto simp: res_dest sys_kill_def split: prod.splits if_splits)

lemma kill_cmd_result:
  assumes "kill_cmd c k = Inr (status, k')"
  shows "k_procs k' = k_procs k"
    "k_kills k' = k_kills k @ (c_pid c, SIGTERM) # replicate (timeouts (k_poll k)) (c_pid c, SIGKILL)"
    "k_open k' = (k_open k)(c_pidfd c := False)" "k_epoll k' = (k_epoll k)(c_pidfd c := None)" "k_out k' = k_out k"
proof -
  obtain ok k1 where k1: "sys_kill (c_pid c) SIGTERM k = (ok, k1)" by force
  with assms obtain k2 where r0: "ok" "kill_wait (k_poll k1) c k1 = Inr k2"
    "(case sys_waitid k2 of (None, k) \<Rightarrow> Inl (Assert ''cmdStop'') | (Some st, k) \<Rightarrow> Inr (st, sys_close (c_pidfd c) k))
      = Inr (status, k')" by (auto simp: kill_cmd_def res_dest)
  obtain w k3 where "sys_waitid k2 = (w, k3)" by force
  with r0 have r: "ok" "kill_wait (k_poll k1) c k1 = Inr k2" "sys_waitid k2 = (Some status, k3)"
    "k' = sys_close (c_pidfd c) k3" by (auto split: option.splits)
  have k1': "k_kills k1 = k_kills k @ [(c_pid c, SIGTERM)]" "k_procs k1 = k_procs k" "k_poll k1 = k_poll k"
    "k_open k1 = k_open k" "k_epoll k1 = k_epoll k" "k_out k1 = k_out k"
    using k1 r(1) by (auto simp: sys_kill_def split: if_splits)
  have "k3 = tick k2" using r(3) by (simp add: sys_waitid_def)
  with kill_wait_result[OF r(2)] k1' r(4) show "k_procs k' = k_procs k"
    "k_kills k' = k_kills k @ (c_pid c, SIGTERM) # replicate (timeouts (k_poll k)) (c_pid c, SIGKILL)"
    "k_open k' = (k_open k)(c_pidfd c := False)" "k_epoll k' = (k_epoll k)(c_pidfd c := None)" "k_out k' = k_out k"
    by (simp_all add: sys_close_def)
qed

lemma life_steps_kill:
  assumes "l_cmds m p = Some (Some pid)" "set ks \<subseteq> {(pid, SIGTERM), (pid, SIGKILL)}"
  shows "life_step\<^sup>*\<^sup>* m (m\<lparr>l_kills := l_kills m @ ks\<rparr>)"
  using assms(2)
proof (induction ks rule: rev_induct)
  case Nil
  then show ?case by simp
next
  case (snoc x ks)
  then obtain sg where x: "x = (pid, sg)" "sg \<in> {SIGTERM, SIGKILL}" by auto
  have "life_step (m\<lparr>l_kills := l_kills m @ ks\<rparr>)
    ((m\<lparr>l_kills := l_kills m @ ks\<rparr>)\<lparr>l_kills := l_kills (m\<lparr>l_kills := l_kills m @ ks\<rparr>) @ [(pid, sg)]\<rparr>)"
    by (rule life_step.signal[of _ p]) (use assms(1) x(2) in simp_all)
  then have "life_step (m\<lparr>l_kills := l_kills m @ ks\<rparr>) (m\<lparr>l_kills := l_kills m @ ks @ [x]\<rparr>)" by (simp add: x(1))
  with snoc show ?case by (auto intro: rtranclp.rtrancl_into_rtrancl)
qed

text \<open>A command whose process is gone; the signals sent meanwhile went to that process.\<close>

lemma ev_ended:
  assumes c: "cmd_at s p = Inr c" and c': "c_pid c' = -1"
    and k: "k_procs k = k_procs (s_kern s)" "k_kills k = k_kills (s_kern s) @ ks"
    and ks: "set ks \<subseteq> {(c_pid c, SIGTERM), (c_pid c, SIGKILL)}" "c_pid c = -1 \<Longrightarrow> ks = []"
  shows "evolves s (put_cmd p c' (with_kern k s))"
proof (cases "c_pid c = -1")
  case True
  have "life_of (put_cmd p c' (with_kern k s)) = life_of s"
    using c c' True k ks(2) by (intro life_of_put_kern[OF c]) (simp_all add: quiet_def)
  then show ?thesis by (rule evolves_same)
next
  case False
  let ?m = "(life_of s)\<lparr>l_kills := l_kills (life_of s) @ ks\<rparr>"
  have run: "l_cmds (life_of s) p = Some (Some (c_pid c))" using c False by (simp add: l_cmds_life_of pid_state_def)
  then have "life_step ?m (?m\<lparr>l_cmds := (l_cmds ?m)(p := Some None)\<rparr>)" by (intro life_step.ended) simp
  moreover have "?m\<lparr>l_cmds := (l_cmds ?m)(p := Some None)\<rparr> = life_of (put_cmd p c' (with_kern k s))"
    using c c' k by (simp add: life_of_put) (simp add: life_of_def pid_state_def)
  ultimately show ?thesis using life_steps_kill[OF run ks(1)] unfolding evolves_def
    by (metis rtranclp.rtrancl_into_rtrancl)
qed

text \<open>What \<open>cmdStop\<close> does, told from its result.\<close>

definition stopped :: "int \<Rightarrow> cmd_t \<Rightarrow> cmd_t" where
  "stopped status c = c\<lparr>c_exitstatus := status, c_pidfd := -1, c_pid := -1\<rparr>"

lemma stopped_simps [simp]:
  "c_pid (stopped st c) = -1" "c_pidfd (stopped st c) = -1" "c_exitstatus (stopped st c) = st"
  "c_cmdtty (stopped st c) = c_cmdtty c" "c_clttty (stopped st c) = c_clttty c" "c_name (stopped st c) = c_name c"
  "c_readycnt (stopped st c) = c_readycnt c"
  by (simp_all add: stopped_def)

definition stop_signals :: "int \<Rightarrow> kern \<Rightarrow> (int \<times> int) list" where
  "stop_signals pid k = (pid, SIGTERM) # replicate (timeouts (k_poll k)) (pid, SIGKILL)"

lemma cmdStop_cases:
  assumes "cmdStop p ep force s = Inr (b, s')"
  obtains (not_running) c where "cmd_at s p = Inr c" "\<not> cmdIsRunning c" "\<not> b" "s' = s"
  | (busy) c where "cmd_at s p = Inr c" "cmdIsRunning c" "\<not> force" "cmd_idle c s = Inr False" "\<not> b" "s' = s"
  | (stopped) c s1 s2 c2 k1 status k2 where "cmd_at s p = Inr c" "cmdIsRunning c" "force \<or> cmd_idle c s = Inr True" "b"
      "send_stopstr p s = Inr s1" "drop_ready ''cmdStop'' p s1 = Inr s2" "cmd_at s2 p = Inr c2"
      "pidfd_unwatch ''cmdStop'' ep (c_pidfd c2) (s_kern s2) = Inr k1" "kill_cmd c2 k1 = Inr (status, k2)"
      "s' = put_cmd p (stopped status c2) (with_kern k2 s2)"
proof -
  from assms obtain c where c: "cmd_at s p = Inr c" by (auto simp: cmdStop_def res_dest)
  show ?thesis
  proof (cases "cmdIsRunning c")
    case False
    with assms c show ?thesis by (intro not_running[of c]) (auto simp: cmdStop_def)
  next
    case True
    with assms c obtain go where go: "(if force then Inr True else cmd_idle c s) = Inr go"
      "(if \<not> go then Inr (False, s)
       else bind_res (send_stopstr p s) (\<lambda>s.
         bind_res (drop_ready ''cmdStop'' p s) (\<lambda>s.
         bind_res (cmd_at s p) (\<lambda>c.
         bind_res (pidfd_unwatch ''cmdStop'' ep (c_pidfd c) (s_kern s)) (\<lambda>k.
         bind_res (kill_cmd c k) (\<lambda>(status, k).
         Inr (True, put_cmd p (c\<lparr>c_exitstatus := status, c_pidfd := -1, c_pid := -1\<rparr>) (with_kern k s)))))))) = Inr (b, s')"
      by (auto simp: cmdStop_def bind_res_eq_Inr[of "if force then Inr True else cmd_idle c s"])
    show ?thesis
    proof (cases go)
      case False
      with True c go show ?thesis by (intro busy[of c]) (auto split: if_splits)
    next
      case gt: True
      with go(2) obtain s1 s2 c2 k1 status k2 where r: "send_stopstr p s = Inr s1" "drop_ready ''cmdStop'' p s1 = Inr s2"
        "cmd_at s2 p = Inr c2" "pidfd_unwatch ''cmdStop'' ep (c_pidfd c2) (s_kern s2) = Inr k1"
        "kill_cmd c2 k1 = Inr (status, k2)" "b" "s' = put_cmd p (LifeOps.stopped status c2) (with_kern k2 s2)"
        by (auto simp: bind_res_eq_Inr stopped_def)
      with True c go(1) gt show ?thesis by (intro stopped[of c s1 s2 c2 k1 status k2]) (auto split: if_splits)
    qed
  qed
qed

lemma ev_cmdStop:
  assumes "cmdStop p ep force s = Inr (b, s')"
  shows "evolves s s'"
  using assms
proof (cases rule: cmdStop_cases)
  case (stopped c s1 s2 c2 k1 status k2)
  have same: "life_of s2 = life_of s" using life_frame[OF frame_send_stopstr[OF stopped(5)]] life_frame[OF frame_drop_ready[OF stopped(6)]] by simp
  then have "l_cmds (life_of s2) p = l_cmds (life_of s) p" by simp
  then have "c_pid c2 \<noteq> -1" using stopped(1,2,7)
    by (auto simp: l_cmds_life_of cmdIsRunning_def pid_state_def split: if_splits)
  moreover have "quiet (s_kern s2) k1" using stopped(8) by (rule quiet_pidfd_unwatch)
  ultimately have "evolves s2 s'"
    unfolding stopped(10) using kill_cmd_result[OF stopped(9)] stopped(7)
    by (intro ev_ended[where ks = "stop_signals (c_pid c2) k1"]) (auto simp: quiet_def stop_signals_def)
  then show ?thesis using same by (simp add: evolves_def)
qed (simp_all add: ev.refl)

end
