(* ===== verification/ProgRel.thy ===== *)
theory ProgRel
  imports FrameOps
begin

text \<open>
  The composition of the program, for any relation between the states before and after. The
  locale \<open>program_rel\<close> asks for a reflexive and transitive relation that holds for what stays in
  the frame, for starting and stopping a command, for the death of its process, for adding and
  deleting commands and for the clean-up; its lemmas carry the relation to every handler, to
  the monitor, to the event loop and to \<open>main\<close>, through every exit.
\<close>

locale program_rel = state_rel R for R :: "'h sys \<Rightarrow> 'h sys \<Rightarrow> bool" +
  fixes H :: "'h hashops"
  assumes in_frame: "frame s t \<Longrightarrow> R s t"
    and start: "cmdStart p raw ep d s = Inr (b, s') \<Longrightarrow> R s s'"
    and stop: "cmdStop p ep force s = Inr (b, s') \<Longrightarrow> R s s'"
    and reap: "cmd_reap p ep s = Inr s' \<Longrightarrow> R s s'"
    and add: "GBLSAddCmd H strtod tomon str s = Inr (r, s') \<Longrightarrow> R s s'"
    and del: "hh_find H (g_cmds (s_gbls s)) name = Some p \<Longrightarrow> cleanup_cmd H p s = Inr s' \<Longrightarrow> R s s'"
    and orphan: "cmd_at s p = Inr c \<Longrightarrow> c_name c = Some name \<Longrightarrow> hh_find H (g_cmds (s_gbls s)) name = None \<Longrightarrow>
      cmdCleanup p s = Inr (b, s') \<Longrightarrow> R s s'"
    and clean: "cleanup H s = Inr s' \<Longrightarrow> R s s'"
begin

lemmas rel_bind = bind_rel[where ob = "\<lambda>s. s"]

lemma rel_upd: "gbls_frame (s_gbls s) (f (s_gbls s)) \<Longrightarrow> R s (upd_gbls f s)"
  by (rule in_frame[OF frame_upd])

lemma rel_exit_with: "exit_with H n s = Inl (Exited m s') \<Longrightarrow> R s s'" "exit_with H n s \<noteq> Inr x"
  by (auto simp: exit_with_def bind_res_eq_Inl bind_res_eq_Inr lift_res_eq_Inl lift_res_eq_Inr intro: clean)

lemma rel_cleanup_and_exit: "cleanup_and_exit H s = Inl (Exited m s') \<Longrightarrow> R s s'" "cleanup_and_exit H s \<noteq> Inr x"
  by (auto simp: cleanup_and_exit_def bind_res_eq_Inl bind_res_eq_Inr lift_res_eq_Inl lift_res_eq_Inr rel_exit_with(2)
      intro: clean rel_exit_with(1) trans)

lemma rel_exit:
  "fin g (exit_with H n s) = Some s' \<Longrightarrow> R s s'" "fin g (cleanup_and_exit H s) = Some s' \<Longrightarrow> R s s'"
  by (auto simp: fin_def rel_exit_with(2) rel_cleanup_and_exit(2) split: sum.splits stop.splits
      dest: rel_exit_with(1) rel_cleanup_and_exit(1))

lemma rel_cmd_delete_on_exit:
  assumes "fin snd (cmd_delete_on_exit H p s) = Some s'"
  shows "R s s'"
proof -
  from assms obtain c name b s1 where r: "cmd_at s p = Inr c" "c_name c = Some name" "cmdCleanup p s = Inr (b, s1)"
    by (auto simp: cmd_delete_on_exit_def fin_dest Let_def split: option.splits)
  show ?thesis
  proof (cases "hh_find H (g_cmds (s_gbls s)) name")
    case None
    with assms r have "s' = s1" by (simp add: cmd_delete_on_exit_def)
    with orphan[OF r(1,2) None r(3)] show ?thesis by simp
  next
    case (Some q)
    with assms r obtain s2 where d: "q = p" "free_cmd p (upd_gbls (\<lambda>g. g\<lparr>g_cmds := hh_del H (g_cmds g) p\<rparr>) s1) = Inr s2"
      "fin snd (if hh_count H (g_cmds (s_gbls s2)) = 0 \<and> g_exitonidle (s_gbls s2)
            then cleanup_and_exit H s2 else Inr (EVNT_HDLR_SUCCESS, s2)) = Some s'"
      by (auto simp: cmd_delete_on_exit_def fin_dest)
    have "cleanup_cmd H p s = Inr s2" using r(3) d(2) by (simp add: cleanup_cmd_def)
    with Some d(1) have "R s s2" by (auto intro: del)
    moreover have "R s2 s'" using d(3) by (auto split: if_splits intro: rel_exit refl)
    ultimately show ?thesis by (rule trans)
  qed
qed

lemma rel_cmd_restart:
  assumes "cmd_restart p ep s = Inr s'"
  shows "R s s'"
proof -
  from assms obtain c where c: "cmd_at s p = Inr c" by (auto simp: cmd_restart_def bind_res_eq_Inr)
  show ?thesis
  proof (cases "g_restart (s_gbls s) \<and> c_restart c")
    case True
    with assms c obtain ok s1 c1 where r: "cmdStart p True ep (if c_exitstatus c = 0 then g_restartcmddelay (s_gbls s)
        else g_errrestartcmddelay (s_gbls s)) s = Inr (ok, s1)" "cmd_at s1 p = Inr c1"
      "s' = put_cmd p (c1\<lparr>c_restartcnt := c_restartcnt c1 + 1\<rparr>) s1"
      by (auto simp: cmd_restart_def res_dest)
    have "R s1 s'" unfolding r(3) by (rule in_frame[OF frame_put[OF r(2)]]) (simp add: cmd_frame_def cmd_ok_def)
    with start[OF r(1)] show ?thesis by (rule trans)
  next
    case False
    with assms c show ?thesis by (simp add: cmd_restart_def refl)
  qed
qed

lemma rel_cmdPidEvent:
  assumes "fin snd (cmdPidEvent H p evnts ep s) = Some s'"
  shows "R s s'"
proof (cases "has EPOLLIN evnts")
  case False
  with assms show ?thesis by (simp add: cmdPidEvent_def fin_dest refl)
next
  case True
  with assms obtain s1 c where r: "cmd_reap p ep s = Inr s1" "cmd_at s1 p = Inr c"
    "fin snd (if c_deleteonexit c then cmd_delete_on_exit H p s1
        else bind_res (lift_res (cmd_restart p ep s1)) (\<lambda>s.
          assert_stop (clear EPOLLIN evnts = 0) ''cmdPidEvent'' (\<lambda>_. Inr (EVNT_HDLR_SUCCESS, s)))) = Some s'"
    by (auto simp: cmdPidEvent_def fin_dest)
  have "R s1 s'" using r(3)
    by (auto simp: fin_dest split: if_splits intro: rel_cmd_delete_on_exit rel_cmd_restart)
  with reap[OF r(1)] show ?thesis by (rule trans)
qed

lemma rel_cmdCltttyEvent:
  assumes "cmdCltttyEvent p evnts ep s = Inr (rc, s')"
  shows "R s s'"
proof -
  from assms obtain c where c: "cmd_at s p = Inr c" by (auto simp: cmdCltttyEvent_def res_dest)
  show ?thesis
  proof (cases "has EPOLLIN evnts \<and> cmdIsReady (s_gbls s) c")
    case False
    with assms c show ?thesis by (auto simp: cmdCltttyEvent_def res_dest refl)
  next
    case True
    with assms c obtain n e ch t k where r: "ttyReadChar (c_clttty c) (Some (c_lastwrite c)) (c_delay c) (s_kern s) = Inr (n, e, ch, t, k)"
      by (auto simp: cmdCltttyEvent_def res_dest)
    let ?s1 = "put_cmd p (c\<lparr>c_clttty := t\<rparr>) (with_kern k s)"
    have "frame s ?s1" using c quiet_ttyReadChar[OF r] ok_ttyReadChar[OF r]
      by (auto intro!: frame_put_kern simp: cmd_frame_def cmd_ok_def)
    then have l1: "R s ?s1" by (rule in_frame)
    show ?thesis
    proof (cases "n = 0")
      case True': True
      with assms c True r have "s' = ?s1" by (simp add: cmdCltttyEvent_def res_dest)
      with l1 show ?thesis by simp
    next
      case False
      with assms c True r obtain x m s2 b where w: "cmdWriteChar p x ?s1 = Inr (m, s2)" "cmdStop p ep False s2 = Inr (b, s')"
        by (auto simp: cmdCltttyEvent_def res_dest split: option.splits if_splits)
      from trans[OF trans[OF l1 in_frame[OF frame_cmdWriteChar[OF w(1)]]] stop[OF w(2)]] show ?thesis .
    qed
  qed
qed

lemma rel_cmdCltttyNotify: "cmdCltttyNotify p ievents ep s = Inr (rc, s') \<Longrightarrow> R s s'"
  by (auto simp: cmdCltttyNotify_def bind_res_eq_Inr split: if_splits intro: start stop)

lemma rel_bcstttyNotify: "bcstttyNotify H ievents ep s = Inr (rc, s') \<Longrightarrow> R s s'"
  by (auto simp: bcstttyNotify_def bind_res_eq_Inr Let_def split: if_splits
      elim!: fold_rel intro: start stop)

text \<open>The monitor.\<close>

lemma rel_monIdleExit:
  assumes "fin snd (monIdleExit H s) = Some s'"
  shows "R s s'"
proof -
  let ?s1 = "upd_gbls (\<lambda>g. g\<lparr>g_exitonidle := True, g_cmddelonexit := True\<rparr>) s"
  have "R s ?s1" by (rule rel_upd) (simp add: gbls_frame_def gbls_ok_def)
  moreover have "R ?s1 s'"
  proof (cases "hh_count H (g_cmds (s_gbls ?s1)) = 0")
    case True
    with assms show ?thesis by (auto simp: monIdleExit_def Let_def intro: rel_exit)
  next
    case False
    with assms have f: "fold_res (\<lambda>p s. bind_res (cmd_at s p) (\<lambda>c. Inr (put_cmd p (c\<lparr>c_deleteonexit := True\<rparr>) s)))
      (hh_iter H (g_cmds (s_gbls ?s1))) ?s1 = Inr s'"
      by (auto simp: monIdleExit_def Let_def fin_dest)
    show ?thesis
      by (rule fold_rel[OF f]) (auto simp: bind_res_eq_Inr cmd_frame_def cmd_ok_def intro!: in_frame frame_put)
  qed
  ultimately show ?thesis by (rule trans)
qed

lemma rel_bcstttyCreate_or_exit:
  assumes "fin (\<lambda>s. s) (bcstttyCreate_or_exit H s) = Some s'"
  shows "R s s'"
proof -
  from assms obtain ok s1 where r: "bcstttyCreate s = Inr (ok, s1)"
    "fin (\<lambda>s. s) (if ok then Inr s1 else exit_with H 1 s1) = Some s'"
    by (auto simp: bcstttyCreate_or_exit_def fin_dest)
  have "R s1 s'" using r(2) by (auto split: if_splits intro: rel_exit refl)
  with in_frame[OF frame_bcstttyCreate[OF r(1)]] show ?thesis by (rule trans)
qed

lemma rel_mon_add_bcst:
  assumes "fin (\<lambda>s. s) (mon_add_bcst H p ep s) = Some s'"
  shows "R s s'"
proof (cases "\<not> g_bcstflg (s_gbls s) \<and> hh_count H (g_cmds (s_gbls s)) > 1")
  case True
  let ?s1 = "upd_gbls (\<lambda>g. g\<lparr>g_bcstflg := True\<rparr>) s"
  have "R s ?s1" by (rule rel_upd) (simp add: gbls_frame_def gbls_ok_def)
  moreover from assms True
  have "fin (\<lambda>s. s) (bind_res (bcstttyCreate_or_exit H ?s1) (\<lambda>s. lift_res (bcstttyRegisterEvents s))) = Some s'"
    by (simp add: mon_add_bcst_def)
  then have "R ?s1 s'"
    by (rule rel_bind[where h = "\<lambda>s. s"])
       (auto simp: fin_dest intro: rel_bcstttyCreate_or_exit in_frame frame_bcstttyRegisterEvents)
  ultimately show ?thesis by (rule trans)
next
  case False
  with assms show ?thesis
    by (auto simp: mon_add_bcst_def fin_dest split: if_splits intro: start refl)
qed

lemma rel_msg: "R s t \<Longrightarrow> R s (monprintf m t)"
  by (rule trans, assumption, rule in_frame) simp

lemma rel_outcome: "R s (monGreeting (monprintf m s))"
  by (rule in_frame) simp

lemma rel_monAdd:
  assumes "fin snd (monAdd H strtod args ep s) = Some s'"
  shows "R s s'"
proof (cases "args = 0")
  case True
  with assms show ?thesis by (auto simp: monAdd_def intro: rel_msg refl)
next
  case False
  with assms obtain str r s1 where a: "GBLSAddCmd H strtod True str s = Inr (r, s1)"
    "fin snd (case r of None \<Rightarrow> Inr (-1 :: int, monprintf (''failed to add '' @ str @ [newline]) s1)
        | Some p \<Rightarrow>
            bind_res (lift_res (cmdRegisterttyEvents p s1)) (\<lambda>(ok, s).
            if \<not> ok then Inr (-1, monprintf (''failed to register ttyEvents ('' @ str @ '')'' @ [newline]) s)
            else bind_res (mon_add_bcst H p ep s) (\<lambda>s. Inr (0, s)))) = Some s'"
    by (auto simp: monAdd_def fin_dest)
  have "R s1 s'"
  proof (cases r)
    case None
    with a show ?thesis by (auto intro: rel_msg refl)
  next
    case (Some p)
    with a(2) obtain ok s2 where b: "cmdRegisterttyEvents p s1 = Inr (ok, s2)"
      "fin snd (if \<not> ok then Inr (-1 :: int, monprintf (''failed to register ttyEvents ('' @ str @ '')'' @ [newline]) s2)
            else bind_res (mon_add_bcst H p ep s2) (\<lambda>s. Inr (0, s))) = Some s'"
      by (auto simp: fin_dest)
    have "R s2 s'"
    proof (cases ok)
      case True
      with b(2) have "fin snd (bind_res (mon_add_bcst H p ep s2) (\<lambda>s. Inr (0::int, s))) = Some s'" by simp
      then show ?thesis by (rule rel_bind[where h = "\<lambda>s. s"]) (auto intro: rel_mon_add_bcst refl)
    next
      case False
      with b(2) show ?thesis by (auto intro: rel_msg refl)
    qed
    with in_frame[OF frame_cmdRegisterttyEvents[OF b(1)]] show ?thesis by (rule trans)
  qed
  with add[OF a(1)] show ?thesis by (rule trans)
qed

lemma rel_monDel:
  assumes "fin snd (monDel H args s) = Some s'"
  shows "R s s'"
proof (cases "args = 0")
  case True
  with assms show ?thesis by (auto simp: monDel_def intro: rel_msg refl)
next
  case False
  with assms obtain name where n: "mon_arg args s = Inr name" by (auto simp: monDel_def fin_dest)
  show ?thesis
  proof (cases "hh_find H (g_cmds (s_gbls s)) name")
    case None
    with assms False n show ?thesis by (auto simp: monDel_def intro: rel_msg refl)
  next
    case (Some p)
    with assms False n obtain s1 where r: "cleanup_cmd H p s = Inr s1"
      "fin snd (if hh_count H (g_cmds (s_gbls s1)) = 0 \<and> g_exitonidle (s_gbls s1)
            then cleanup_and_exit H s1 else Inr (0 :: int, s1)) = Some s'"
      by (auto simp: monDel_def fin_dest)
    have "R s1 s'" using r(2) by (auto split: if_splits intro: rel_exit refl)
    with del[OF Some r(1)] show ?thesis by (rule trans)
  qed
qed

lemma rel_mon_dispatch:
  assumes "fin snd (mon_dispatch H strtod cmd args ep s) = Some s'"
  shows "R s s'"
  using assms
  by (cases cmd) (auto simp: mon_dispatch_def fin_dest
      intro: refl rel_monDel rel_monAdd rel_monIdleExit rel_exit in_frame[OF frame_monDrain] in_frame[OF frame_monList]
        in_frame[OF frame_toggles(1)] in_frame[OF frame_toggles(2)] in_frame[OF frame_toggles(3)]
        in_frame[OF frame_toggles(4)] in_frame[OF frame_toggles(5)])

lemma rel_monProcess:
  assumes "fin (\<lambda>s. s) (monProcess H strtod ep s) = Some s'"
  shows "R s s'"
proof (cases "m_n (g_mon (s_gbls s)) \<le> 0")
  case True
  with assms show ?thesis by (simp add: monProcess_def refl)
next
  case False
  let ?line = "m_line (g_mon (s_gbls s))"
  from assms False obtain i blank where w: "word_end ?line = Some (i, blank)"
    by (auto simp: monProcess_def Let_def split: option.splits)
  define s1 where "s1 = (if blank then put_line (?line[i := nul]) s else s)"
  have s1: "R s s1" by (auto simp: s1_def intro!: refl in_frame frame_put_line)
  have "R s1 s'"
  proof (cases "find (\<lambda>d. strncmp_eq (take i ?line) (mc_name d) (i + 1)) MonCmds")
    case None
    with assms False w have "s' = mon_unknown (take i ?line) s1"
      by (simp add: monProcess_def Let_def s1_def)
    then show ?thesis by (simp add: in_frame)
  next
    case (Some d)
    with assms False w have "fin (\<lambda>s. s) (bind_res (mon_dispatch H strtod (mc_cmd d) (if blank then i + 1 else 0) ep s1)
        (\<lambda>(rc, s). Inr (monGreeting (monprintf ((if rc = 0 then ''OK'' else ''FAILED'') @ [newline]) s)))) = Some s'"
      by (simp add: monProcess_def Let_def s1_def)
    then show ?thesis by (rule rel_bind[where h = snd]) (auto intro: rel_mon_dispatch rel_outcome)
  qed
  with s1 show ?thesis by (rule trans)
qed

lemma rel_monEvent:
  assumes "fin snd (monEvent H strtod evnts ep s) = Some s'"
  shows "R s s'"
proof (cases "has EPOLLIN evnts")
  case False
  with assms show ?thesis by (simp add: monEvent_def refl)
next
  case True
  obtain n e ch k where rd: "sys_read1 (tty_dfd (m_tty (g_mon (s_gbls s)))) (s_kern s) = (n, e, ch, k)"
    by (metis prod_cases4)
  have q: "frame s (with_kern k s)" using quiet_calls(2)[OF rd] by (rule frame_quiet_kern)
  from assms True rd obtain c where c: "ch = Some c" by (auto simp: monEvent_def Let_def fin_dest split: option.splits)
  let ?m = "m_n (g_mon (s_gbls s))" and ?l = "(m_line (g_mon (s_gbls s)))[nat (m_n (g_mon (s_gbls s))) := c]"
  have f1: "frame s (put_line ?l (with_kern k s))" using q by (rule fr.trans) (simp add: frame_put_line)
  show ?thesis
  proof (cases "c = newline")
    case False
    with assms True rd c have s': "s' = set_mon_n (?m + 1) (put_line ?l (with_kern k s))" "?m + 1 < int MON_LINELEN"
      by (auto simp: monEvent_def Let_def fin_dest split: if_splits)
    show ?thesis unfolding s'(1) using s'(2) by (auto intro!: in_frame fr.trans[OF f1] frame_set_mon_n)
  next
    case nl: True
    let ?s1 = "put_line (?l[nat ?m := nul]) (set_mon_n (?m + 1) (put_line ?l (with_kern k s)))"
    from assms True rd c nl have p: "?m + 1 < int MON_LINELEN" "fin snd (bind_res (monProcess H strtod ep ?s1)
             (\<lambda>s. Inr (EVNT_HDLR_SUCCESS, set_mon_n 0 s))) = Some s'"
      by (auto simp: monEvent_def Let_def fin_dest split: if_splits)
    have "frame s (set_mon_n (?m + 1) (put_line ?l (with_kern k s)))"
      using p(1) by (intro fr.trans[OF f1] frame_set_mon_n) simp_all
    then have "frame s ?s1" by (rule fr.trans) (simp add: frame_put_line)
    then have "R s ?s1" by (rule in_frame)
    moreover from p(2) have "R ?s1 s'"
      by (rule rel_bind[where h = "\<lambda>s. s"])
         (auto simp: MON_LINELEN_def intro: rel_monProcess in_frame[OF frame_set_mon_n])
    ultimately show ?thesis by (rule trans)
  qed
qed

end

end
