(* ===== verification/ProgLoop.thy ===== *)
theory ProgLoop
  imports ProgRel
begin

text \<open>
  The event loop and \<open>main\<close> for a relation the operations respect: the end of what \<open>program_rel\<close>
  promises.
\<close>

context program_rel
begin

section \<open>The loop\<close>

lemma rel_call_ned:
  assumes "call_ned H ned ievents ep s = Inr s'"
  shows "R s s'"
  using assms
  by (auto simp: call_ned_def bind_res_eq_Inr split: option.splits evnthdlr_t.splits objref.splits ttyref.splits
      intro: refl rel_cmdCltttyNotify rel_bcstttyNotify in_frame[OF frame_monNotify])

lemma rel_ttyNotifyEvent:
  assumes "ttyNotifyEvent H r evnts ep s = Inr (rc, s')"
  shows "R s s'"
proof (cases "has EPOLLIN evnts")
  case False
  with assms show ?thesis by (simp add: ttyNotifyEvent_def res_dest refl)
next
  case True
  with assms obtain t iev t' k s1 where r: "tty_at r s = Inr t" "ttyNotifyCount t (s_kern s) = Inr (iev, t', k)"
    "put_tty r t' (with_kern k s) = Inr s1" "call_ned H (tty_ned t') iev ep s1 = Inr s'"
    by (auto simp: ttyNotifyEvent_def res_dest)
  have "frame s s1" using r(1,3) quiet_ttyNotifyCount[OF r(2)] ok_ttyNotifyCount[OF r(2)] by (rule frame_put_tty)
  from trans[OF in_frame[OF this] rel_call_ned[OF r(4)]] show ?thesis .
qed

lemma rel_call_hdlr:
  assumes "fin snd (call_hdlr H strtod L ed evnts ep s) = Some s'"
  shows "R s s'"
  using assms
  by (auto simp: call_hdlr_def fin_dest split: option.splits evnthdlr_t.splits objref.splits ttyref.splits
      intro: rel_ttyNotifyEvent rel_cmdPidEvent rel_cmdCltttyEvent rel_monEvent
        in_frame[OF frame_cmdCmdttyEvent] in_frame[OF frame_bcstttyEvent] in_frame[OF frame_sigEvent]
        in_frame[OF frame_fsEvent])

lemma rel_dispatch_events:
  "fin snd (dispatch_events H strtod L ep es s) = Some s' \<Longrightarrow> R s s'"
proof (induction es arbitrary: s)
  case Nil
  then show ?case by (simp add: refl)
next
  case (Cons x es)
  obtain e evnts where x: "x = (e, evnts)" by force
  from Cons.prems obtain ed where ed: "ed_at e s = Inr ed"
    "fin snd (bind_res (call_hdlr H strtod L ed evnts ep s) (\<lambda>(erc, s).
     case erc of
       EVNT_HDLR_EXIT_LOOP \<Rightarrow> Inr (Some True, s)
     | EVNT_HDLR_FAILED \<Rightarrow> Inr (Some False, s)
     | EVNT_HDLR_SUCCESS \<Rightarrow> dispatch_events H strtod L ep es s)) = Some s'"
    by (auto simp: x fin_dest)
  from ed(2) show ?case
    by (rule rel_bind[where h = snd]) (auto split: evnthdlrrc_t.splits intro: rel_call_hdlr Cons.IH refl)
qed

lemma rel_loop_rounds:
  "fin snd (loop_rounds H strtod L ep ws s) = Some s' \<Longrightarrow> R s s'"
proof (induction ws arbitrary: s)
  case (Cons w ws)
  show ?case
  proof (cases w)
    case (EP_events es)
    with Cons.prems have "fin snd (bind_res (dispatch_events H strtod L ep es s) (\<lambda>(rc, s).
       case rc of None \<Rightarrow> loop_rounds H strtod L ep ws s | Some b \<Rightarrow> Inr (Some b, s))) = Some s'" by simp
    then show ?thesis
      by (rule rel_bind[where h = snd]) (auto split: option.splits intro: rel_dispatch_events Cons.IH refl)
  qed (use Cons in \<open>simp_all add: refl\<close>)
qed (simp add: refl)

lemma rel_theLoop: "fin snd (theLoop H strtod L ep ws s) = Some s' \<Longrightarrow> R s s'"
  by (auto simp: theLoop_def fin_dest split: if_splits
      intro: refl trans in_frame[OF frame_loop_register] rel_loop_rounds)

section \<open>Start-up\<close>

lemma rel_set:
  "R s (upd_gbls (\<lambda>g. g\<lparr>g_logdir := d\<rparr>) s)" "R s (upd_gbls (\<lambda>g. g\<lparr>g_monttylinkdir := d\<rparr>) s)"
  "R s (upd_gbls (\<lambda>g. g\<lparr>g_fsmntptdir := d\<rparr>) s)" "R s (upd_gbls (\<lambda>g. g\<lparr>g_fs := fs\<rparr>) s)"
  "R s (upd_gbls (\<lambda>g. g\<lparr>g_pid := n, g_cwd := d\<rparr>) s)"
  "R s (upd_gbls (\<lambda>g. g\<lparr>g_mon := mon_zero\<lparr>m_ed := ed, m_silent := sl\<rparr>\<rparr>) s)"
  by (auto intro!: rel_upd simp: gbls_frame_def gbls_ok_def mon_ok_reset)

lemma rel_main_log:
  assumes "fin (\<lambda>s. s) (main_log b s) = Some s'"
  shows "R s s'"
proof (cases "g_uselog (s_gbls s) \<or> g_daemonize (s_gbls s)")
  case True
  with assms obtain d where "s' = snd (logopen b d (upd_gbls (\<lambda>g. g\<lparr>g_logdir := d\<rparr>) s))"
    by (auto simp: main_log_def fin_dest Let_def case_prod_beta simp del: upd_gbls_simps split: if_splits)
  then show ?thesis using rel_set(1) in_frame[OF frame_logopen] trans by blast
qed (use assms in \<open>simp add: main_log_def refl\<close>)

lemma rel_main_mon:
  assumes "fin (\<lambda>s. s) (main_mon H b s) = Some s'"
  shows "R s s'"
proof -
  from assms obtain d r where r: "monInit True d (upd_gbls (\<lambda>g. g\<lparr>g_monttylinkdir := d\<rparr>) s) = Inr r"
    "fin (\<lambda>s. s) (case r of
          None \<Rightarrow> exit_with H 1 (upd_gbls (\<lambda>g. g\<lparr>g_mon :=
                    mon_zero\<lparr>m_ed := \<lparr>hdlr = Some H_monEvent, obj = Some O_mon\<rparr>, m_silent := True\<rparr>\<rparr>)
                    (upd_gbls (\<lambda>g. g\<lparr>g_monttylinkdir := d\<rparr>) s))
        | Some s \<Rightarrow> bind_res (lift_res (monttyCreate (b_fdopen b) s)) (\<lambda>(ok, s).
            if ok then Inr s else exit_with H 1 s)) = Some s'"
    by (auto simp: main_mon_def fin_dest Let_def simp del: upd_gbls_simps)
  have "R (upd_gbls (\<lambda>g. g\<lparr>g_monttylinkdir := d\<rparr>) s) s'"
  proof (cases r)
    case None
    with r(2) show ?thesis using trans[OF rel_set(6) rel_exit(1)] by (simp del: upd_gbls_simps)
  next
    case (Some s1)
    with r obtain ok s2 where m: "monttyCreate (b_fdopen b) s1 = Inr (ok, s2)"
      "fin (\<lambda>s. s) (if ok then Inr s2 else exit_with H 1 s2) = Some s'" by (auto simp: fin_dest)
    have "R s2 s'" using m(2) by (auto split: if_splits intro: rel_exit refl)
    with in_frame[OF frame_monttyCreate[OF m(1)]] have "R s1 s'" by (rule trans)
    with in_frame[OF frame_monInit[OF r(1)[unfolded Some]]] show ?thesis by (rule trans)
  qed
  with rel_set(2) show ?thesis by (rule trans)
qed

lemma rel_main_fs:
  assumes "fin (\<lambda>s. s) (main_fs H b s) = Some s'"
  shows "R s s'"
proof -
  from assms obtain d where d: "or_cwd (g_fsmntptdir (s_gbls s)) (s_gbls s) = Inr d"
    by (auto simp: main_fs_def fin_dest)
  let ?s1 = "upd_gbls (\<lambda>g. g\<lparr>g_fsmntptdir := d\<rparr>) s"
  have fs: "R ?s1 (upd_gbls (\<lambda>g. g\<lparr>g_fs := fs\<rparr>) ?s1)" for fs by (rule rel_set(4))
  have "R ?s1 s'"
  proof (cases "fsMountPoint d (g_pid (s_gbls ?s1))")
    case None
    have n: "R ?s1 (upd_gbls (\<lambda>g. g\<lparr>g_fs := (fsInit (g_fs g) None)\<lparr>fs_ed := evnt_null\<rparr>\<rparr>) ?s1)"
      by (rule rel_upd) (simp add: gbls_frame_def gbls_ok_def)
    from None assms d have "fin (\<lambda>s. s) (exit_with H 1
      (upd_gbls (\<lambda>g. g\<lparr>g_fs := (fsInit (g_fs g) None)\<lparr>fs_ed := evnt_null\<rparr>\<rparr>) ?s1)) = Some s'"
      by (simp add: main_fs_def Let_def)
    from trans[OF n rel_exit(1)[OF this]] show ?thesis .
  next
    case (Some m)
    with assms d obtain ok fs1 where
      "fin (\<lambda>s. s) (if ok then Inr (upd_gbls (\<lambda>g. g\<lparr>g_fs := fs1\<rparr>) ?s1)
         else exit_with H 1 (upd_gbls (\<lambda>g. g\<lparr>g_fs := fs1\<rparr>) ?s1)) = Some s'"
      by (auto simp: main_fs_def fin_dest Let_def simp del: upd_gbls_simps)
    then have "R (upd_gbls (\<lambda>g. g\<lparr>g_fs := fs1\<rparr>) ?s1) s'" by (cases ok) (auto intro: rel_exit refl simp del: upd_gbls_simps)
    with fs show ?thesis by (rule trans)
  qed
  with rel_set(3) show ?thesis by (rule trans)
qed

lemma rel_main_cmds:
  assumes "fin (\<lambda>s. s) (lift_res (main_cmds H strtod s)) = Some s'"
  shows "R s s'"
proof -
  from assms have m: "main_cmds H strtod s = Inr s'" by (simp add: fin_dest)
  show ?thesis by (rule fold_rel[OF m[unfolded main_cmds_def]]) (auto simp: res_dest intro: add)
qed

lemma rel_main_bcst:
  assumes "fin (\<lambda>s. s) (main_bcst H s) = Some s'"
  shows "R s s'"
proof -
  from assms obtain l b t where r: "ttyInit (g_bcsttty (s_gbls s)) (Some l)
                     (Some (take (PATH_MAX - 1) (l @ ''.mon''))) (tty_link (m_tty (g_mon (s_gbls s))))
                     (Some (take (PATH_MAX - 1) (l @ ''.fs''))) (fs_mntpt (g_fs (s_gbls s))) True = Inr (b, t)"
    "fin (\<lambda>s. s) (bcstttyCreate_or_exit H (upd_gbls (\<lambda>g. g\<lparr>g_bcstttylink := Some l, g_bcsttty := t\<rparr>) s)) = Some s'"
    by (auto simp: main_bcst_def fin_dest Let_def simp del: upd_gbls_simps)
  have "R s (upd_gbls (\<lambda>g. g\<lparr>g_bcstttylink := Some l, g_bcsttty := t\<rparr>) s)"
    by (rule rel_upd) (use ok_ttyInit[OF r(1)] in \<open>auto simp: gbls_frame_def gbls_ok_def\<close>)
  from trans[OF this rel_bcstttyCreate_or_exit[OF r(2)]] show ?thesis .
qed

theorem rel_yar_main:
  assumes "fin (\<lambda>s. s) (yar_main H strtod L b opts args ws k) = Some s'"
  shows "\<exists>s. GBLSInit H k = Inr s \<and> R s s'"
proof -
  from assms obtain s where s: "GBLSInit H k = Inr s" by (auto simp: yar_main_def fin_lift_bind)
  obtain ok s1 where a: "argsParse strtod opts args s = (ok, s1)" by force
  have "R s1 s'"
  proof (cases ok)
    case False
    with assms s a show ?thesis by (simp add: yar_main_def refl)
  next
    case True
    let ?s2 = "upd_gbls (\<lambda>g. g\<lparr>g_pid := b_pid b, g_cwd := b_cwd b\<rparr>) s1"
    have ex: "fin (\<lambda>s. s) (case rc of None \<Rightarrow> Inr t | Some ok \<Rightarrow> exit_with H (if ok then 0 else 1) t) = Some s'
      \<Longrightarrow> R t s'" for rc t
      by (auto split: option.splits intro: rel_exit refl)
    from assms s a True have "fin (\<lambda>s. s) (bind_res (main_log b ?s2) (\<lambda>s.
         bind_res (main_mon H b s) (\<lambda>s.
         bind_res (main_fs H b s) (\<lambda>s.
         bind_res (lift_res (main_cmds H strtod s)) (\<lambda>s.
         bind_res (main_bcst H s) (\<lambda>s.
         bind_res (theLoop H strtod L (b_epollfd b) ws s) (\<lambda>(rc, s).
         case rc of
           None \<Rightarrow> Inr s
         | Some ok \<Rightarrow> exit_with H (if ok then 0 else 1) s))))))) = Some s'"
      by (simp add: yar_main_def fin_dest del: upd_gbls_simps)
    then have "R ?s2 s'"
      by (elim rel_bind[where h = "\<lambda>s. s", OF _ rel_main_log] rel_bind[where h = "\<lambda>s. s", OF _ rel_main_mon]
          rel_bind[where h = "\<lambda>s. s", OF _ rel_main_fs] rel_bind[where h = "\<lambda>s. s", OF _ rel_main_cmds]
          rel_bind[where h = "\<lambda>s. s", OF _ rel_main_bcst] rel_bind[where h = snd, OF _ rel_theLoop])
         (simp_all add: ex case_prod_beta)
    with rel_set(5) show ?thesis by (rule trans)
  qed
  with in_frame[OF frame_argsParse[OF a]] have "R s s'" by (rule trans)
  with s show ?thesis by blast
qed

end

end
