(* ===== verification/LifeHandlers.thy ===== *)
theory LifeHandlers
  imports LifeOps ProgLoop
begin

text \<open>
  Making and removing commands, the death of a process and the clean-up against the abstract
  machine; the interpretation of \<open>program_rel\<close> carries this to the handlers, the monitor, the
  loop and \<open>main\<close>: whatever happens, in whatever order, is a sequence of its steps.
\<close>

section \<open>Making and removing commands\<close>

lemma ev_cmdCleanup:
  assumes "cmdCleanup p s = Inr (b, s')"
  shows "evolves s s'" "l_cmds (life_of s') p = Some None"
proof -
  from assms obtain b1 s1 c where r: "cmdStop p (-1) True s = Inr (b1, s1)" "cmd_at s1 p = Inr c"
    by (auto simp: cmdCleanup_def res_dest)
  obtain x t k where t1: "ttyCleanup (c_cmdtty c) (s_kern s1) = (x, t, k)" by (metis prod_cases3)
  obtain y u k' where t2: "ttyCleanup (c_clttty c) k = (y, u, k')" by (metis prod_cases3)
  from assms r t1 t2 obtain c' where s': "s' = put_cmd p c' (with_kern k' s1)" "c_pid c' = -1"
    by (auto simp: cmdCleanup_def)
  have "quiet (s_kern s1) k'" using quiet_ttyCleanup[OF t1] quiet_ttyCleanup[OF t2] by (rule qt.trans)
  then have "evolves s1 s'" unfolding s'(1) using r(2) s'(2)
    by (intro ev_ended[where ks = "[]"]) (auto simp: quiet_def)
  with ev_cmdStop[OF r(1)] show "evolves s s'" by (rule ev.trans)
  show "l_cmds (life_of s') p = Some None"
    using r(2) cmd_at_bound[OF r(2)] s' by (simp add: l_cmds_life_of pid_state_def)
qed

lemma ev_free_cmd:
  assumes "free_cmd p s = Inr s'" "l_cmds (life_of s) p = Some None"
  shows "evolves s s'"
proof -
  have b: "p < length (s_heap s)" "s' = s\<lparr>s_heap := (s_heap s)[p := None]\<rparr>"
    using assms(1) by (simp_all add: free_cmd_def split: if_splits)
  then have "cmd_at s' q = (if q = p then Inl UseAfterFree else cmd_at s q)" for q
    by (auto simp: cmd_at_def)
  then have "life_of s' = (life_of s)\<lparr>l_cmds := (l_cmds (life_of s))(p := None)\<rparr>"
    using b(2) by (auto simp: life_of_def)
  then show ?thesis using life_step.delete[OF assms(2)] by (simp add: evolves_def)
qed

lemma ev_cleanup_cmd:
  assumes "cleanup_cmd H p s = Inr s'"
  shows "evolves s s'"
proof -
  from assms obtain b s1 where r: "cmdCleanup p s = Inr (b, s1)"
    "free_cmd p (upd_gbls (\<lambda>g. g\<lparr>g_cmds := hh_del H (g_cmds g) p\<rparr>) s1) = Inr s'"
    by (auto simp: cleanup_cmd_def bind_res_eq_Inr)
  have "evolves (upd_gbls (\<lambda>g. g\<lparr>g_cmds := hh_del H (g_cmds g) p\<rparr>) s1) s'"
    by (rule ev_free_cmd[OF r(2)]) (simp add: ev_cmdCleanup(2)[OF r(1)])
  then have "evolves s1 s'" by (simp add: evolves_def)
  with ev_cmdCleanup(1)[OF r(1)] show ?thesis by (rule ev.trans)
qed

lemma pid_cmdInit: "cmdInit this cs nm cl d ttylink lg iz g = Inr (ok, c) \<Longrightarrow> ok \<and> c_pid c = -1"
  by (auto simp: cmdInit_def Let_def res_dest split: if_splits option.splits)

lemma ev_add_new_cmd:
  assumes "add_new_cmd H cstr cs s = Inr (r, s')"
  shows "evolves s s'"
proof -
  let ?p = "length (s_heap s)" let ?s0 = "s\<lparr>s_heap := s_heap s @ [Some cmd_zero]\<rparr>"
  from assms obtain ok c where i: "cmdInit cmd_zero (Some cstr) (Some (cs_name cs)) (Some (cs_cmdline cs)) (cs_delay cs)
      (cs_ttylink cs) (cs_log cs) False (s_gbls s) = Inr (ok, c)"
    by (auto simp: add_new_cmd_def malloc_cmd_def bind_res_eq_Inr)
  let ?s1 = "put_cmd ?p c ?s0"
  have s1: "?s1 = s\<lparr>s_heap := s_heap s @ [Some c]\<rparr>" by (simp add: put_cmd_def)
  have at: "cmd_at ?s1 q = (if q = ?p then Inr c else cmd_at s q)" for q
    unfolding s1 by (auto simp: cmd_at_def nth_append)
  have "l_cmds (life_of s) ?p = None" by (simp add: l_cmds_life_of cmd_at_def)
  moreover have "life_of ?s1 = (life_of s)\<lparr>l_cmds := (l_cmds (life_of s))(?p := Some None)\<rparr>"
    using pid_cmdInit[OF i] unfolding life_of_def at by (auto simp: pid_state_def)
  ultimately have e1: "evolves s ?s1" using life_step.create by (auto simp: evolves_def)
  from assms i pid_cmdInit[OF i] obtain b s2 where cr: "cmdCreate ?p ?s1 = Inr (b, s2)"
    by (auto simp: add_new_cmd_def malloc_cmd_def bind_res_eq_Inr)
  have e2: "evolves s s2" using e1 life_frame[OF frame_cmdCreate[OF cr]] by (simp add: evolves_def)
  show ?thesis
  proof (cases b)
    case True
    with assms i pid_cmdInit[OF i] cr obtain s3 where "update_slowest ?p (cs_delay cs) s2 = Inr s3"
      "s' = upd_gbls (\<lambda>g. g\<lparr>g_cmds := hh_add H (g_cmds g) (cs_name cs) ?p\<rparr>) s3"
      by (auto simp: add_new_cmd_def malloc_cmd_def bind_res_eq_Inr)
    then show ?thesis using e2 life_frame[OF frame_update_slowest] by (fastforce simp: evolves_def)
  next
    case False
    with assms i pid_cmdInit[OF i] cr obtain x s3 where d: "cmdCleanup ?p s2 = Inr (x, s3)" "free_cmd ?p s3 = Inr s'"
      by (auto simp: add_new_cmd_def malloc_cmd_def bind_res_eq_Inr)
    have "evolves s3 s'" using d(2) ev_cmdCleanup(2)[OF d(1)] by (rule ev_free_cmd)
    then show ?thesis using e2 ev_cmdCleanup(1)[OF d(1)] ev.trans by blast
  qed
qed

lemma ev_GBLSAddCmd:
  assumes "GBLSAddCmd H strtod tomon cstr s = Inr (r, s')"
  shows "evolves s s'"
proof -
  obtain cs s1 where p: "cmdspecParse strtod tomon cstr s = (cs, s1)" by force
  note same = life_frame[OF frame_cmdspecParse[OF p]]
  have "evolves s1 s'"
  proof (cases cs)
    case None
    with assms p show ?thesis by (simp add: GBLSAddCmd_def ev.refl)
  next
    case (Some spec)
    have e: "evolves s1 (eprint_to tomon msg s1)" for msg by (simp add: evolves_same life_frame)
    from assms p Some show ?thesis
      by (cases "hh_find H (g_cmds (s_gbls s1)) (cs_name spec)")
         (auto simp: GBLSAddCmd_def bind_res_eq_Inr intro: ev_add_new_cmd e)
  qed
  then show ?thesis using same by (simp add: evolves_def)
qed

section \<open>Clean-up and exit\<close>

lemma ev_cleanup:
  assumes "cleanup H s = Inr s'"
  shows "evolves s s'"
proof -
  obtain s1 where r: "frame s (cleanup_bcst s)"
    "fold_res (cleanup_cmd H) (hh_iter H (g_cmds (s_gbls (cleanup_bcst s)))) (cleanup_bcst s) = Inr s1" "frame s1 s'"
    using assms by (rule cleanup_parts)
  have "evolves (cleanup_bcst s) s1" using r(2) ev_cleanup_cmd by (rule ev.fold_rel) simp_all
  then show ?thesis using life_frame[OF r(1)] life_frame[OF r(3)] by (simp add: evolves_def)
qed

text \<open>The death of a process.\<close>

lemma ev_cmd_reap:
  assumes "cmd_reap p ep s = Inr s'"
  shows "evolves s s'"
proof -
  obtain w k where w: "sys_waitid (s_kern s) = (w, k)" by force
  from assms w obtain c status k1 where r: "cmd_at s p = Inr c" "w = Some status"
    "pidfd_unwatch ''cmdPidEvent'' ep (c_pidfd c) k = Inr k1"
    "drop_ready ''cmdPidEvent'' p (put_cmd p (c\<lparr>c_exitstatus := status, c_pidfd := -1, c_pid := -1\<rparr>) (with_kern k1 s)) = Inr s'"
    by (auto simp: cmd_reap_def bind_res_eq_Inr split: option.splits)
  have "quiet (s_kern s) k1" using quiet_calls(13)[OF w] quiet_pidfd_unwatch[OF r(3)] by (rule qt.trans)
  then have "evolves s (put_cmd p (c\<lparr>c_exitstatus := status, c_pidfd := -1, c_pid := -1\<rparr>) (with_kern k1 s))"
    using r(1) by (intro ev_ended[where ks = "[]"]) (auto simp: quiet_def)
  then show ?thesis using life_frame[OF frame_drop_ready[OF r(4)]] by (simp add: evolves_def)
qed

section \<open>The program\<close>

text \<open>The abstract machine follows the program through every handler and every exit.\<close>

interpretation lf: program_rel evolves H for H :: "'h hashops"
proof
  show "evolves s t" if "frame s t" for s t :: "'h sys" using life_frame[OF that] by (rule evolves_same)
qed (auto intro: ev_cmdStart ev_cmdStop ev_cmd_reap ev_GBLSAddCmd ev_cleanup_cmd ev_cmdCleanup(1) ev_cleanup)

lemma GBLSInit_life:
  assumes "GBLSInit H k = Inr s"
  shows "life_of s = \<lparr>l_cmds = \<lambda>_. None, l_procs = k_procs k, l_kills = k_kills k\<rparr>"
proof -
  have none: "l_cmds (life_of t) = (\<lambda>_. None)" if "s_heap t = []" for t :: "'a sys"
    using that by (auto simp: life_of_def cmd_at_def)
  from assms obtain t s1 sp k1 where r: "monInit False None (upd_gbls (\<lambda>g. g\<lparr>g_bcsttty := t, g_fs := fsInit (g_fs g) None\<rparr>)
       \<lparr>s_gbls = (gbls_zero (hh_empty H))\<lparr>g_pid := -1, g_restart := True, g_restartcmddelay := 5, g_errrestartcmddelay := 10\<rparr>,
        s_heap = [], s_kern = k, s_monout = [], s_fusein = [], s_fuseout = []\<rparr>) = Inr (Some s1)"
    "sigprocInit (g_sigproc (s_gbls s1)) (s_kern s1) = Inr (sp, k1)"
    "s = upd_gbls (\<lambda>g. g\<lparr>g_sigproc := sp\<rparr>) (with_kern k1 s1)"
    by (auto simp: GBLSInit_def Let_def bind_res_eq_Inr simp del: upd_gbls_simps split: option.splits)
  obtain f k2 where nf: "sys_newfd (s_kern s1) = (f, k2)" by force
  have "quiet (s_kern s1) k1" using r(2) nf quiet_calls(7)[OF nf] by (auto simp: sigprocInit_def res_dest split: option.splits)
  then have "life_of s = life_of s1" unfolding r(3) by (simp add: life_of_with_kern)
  with life_frame[OF frame_monInit[OF r(1)]] none show ?thesis by (simp add: life_of_def cmd_at_def)
qed

end
