(* ===== verification/TypeInv.thy ===== *)
theory TypeInv
  imports LifeHandlers
begin

text \<open>
  The types the program relies on but C does not check: every buffer has its size, the counts
  are within their ranges, the table of commands has every name and every address once, and
  its entries are exactly the command objects in use, under the names they carry. All of
  this holds from the start to the end of every run.
\<close>

section \<open>The invariant\<close>

text \<open>
  An address is either in use, by a command with a name that the table has with this address,
  or not in the table.
\<close>

definition entry_ok :: "('h \<Rightarrow> (string \<times> ptr) list) \<Rightarrow> 'h sys \<Rightarrow> ptr \<Rightarrow> bool" where
  "entry_ok items s p \<longleftrightarrow>
     (case cmd_at s p of
        Inl _ \<Rightarrow> \<forall>n. (n, p) \<notin> set (items (g_cmds (s_gbls s)))
      | Inr c \<Rightarrow> \<exists>n. c_name c = Some n \<and> (n, p) \<in> set (items (g_cmds (s_gbls s))))"

definition all_ok :: "('h \<Rightarrow> (string \<times> ptr) list) \<Rightarrow> 'h sys \<Rightarrow> bool" where
  "all_ok items s \<longleftrightarrow> gbls_ok (s_gbls s) \<and> (\<forall>p c. cmd_at s p = Inr c \<longrightarrow> cmd_ok c)
     \<and> items_ok (items (g_cmds (s_gbls s))) \<and> (\<forall>p. entry_ok items s p)"

text \<open>The invariant with the addresses \<open>P\<close> left out, for a command that is being made or removed.\<close>

definition ok_but :: "('h \<Rightarrow> (string \<times> ptr) list) \<Rightarrow> ptr set \<Rightarrow> 'h sys \<Rightarrow> bool" where
  "ok_but items P s \<longleftrightarrow> gbls_ok (s_gbls s) \<and> (\<forall>p c. cmd_at s p = Inr c \<longrightarrow> cmd_ok c)
     \<and> items_ok (items (g_cmds (s_gbls s))) \<and> (\<forall>p. p \<notin> P \<longrightarrow> entry_ok items s p)"

lemma all_ok_but: "all_ok items s = ok_but items {} s"
  by (simp add: all_ok_def ok_but_def)

lemma entry_cong:
  "cmd_at t p = cmd_at s p \<Longrightarrow>
    (\<And>n. (n, p) \<in> set (items (g_cmds (s_gbls t))) \<longleftrightarrow> (n, p) \<in> set (items (g_cmds (s_gbls s)))) \<Longrightarrow>
    entry_ok items t p = entry_ok items s p"
  by (auto simp: entry_ok_def split: sum.split)

lemma entry_listed: "entry_ok items s p \<Longrightarrow> (n, p) \<in> set (items (g_cmds (s_gbls s))) \<Longrightarrow> \<exists>c. cmd_at s p = Inr c"
  by (auto simp: entry_ok_def split: sum.splits)

lemma entry_named: "entry_ok items s p \<Longrightarrow> cmd_at s p = Inr c \<Longrightarrow>
  \<exists>n. c_name c = Some n \<and> (n, p) \<in> set (items (g_cmds (s_gbls s)))"
  by (simp add: entry_ok_def)

lemma ok_but_listed: "ok_but items P s \<Longrightarrow> p \<notin> P \<Longrightarrow> p \<ge> length (s_heap s) \<Longrightarrow> (n, p) \<notin> set (items (g_cmds (s_gbls s)))"
  using entry_listed[of items s p n] cmd_at_bound[of s p] by (force simp: ok_but_def)

lemma ok_but_mono: "ok_but items P s \<Longrightarrow> P \<subseteq> Q \<Longrightarrow> ok_but items Q s"
  unfolding ok_but_def by blast

text \<open>What keeps the table, the names and the well-formedness keeps the invariant.\<close>

definition keep :: "'h sys \<Rightarrow> 'h sys \<Rightarrow> bool" where
  "keep s t \<longleftrightarrow> g_cmds (s_gbls t) = g_cmds (s_gbls s) \<and> (gbls_ok (s_gbls s) \<longrightarrow> gbls_ok (s_gbls t))
     \<and> (\<forall>p. case cmd_at s p of Inl _ \<Rightarrow> \<exists>e. cmd_at t p = Inl e
            | Inr c \<Rightarrow> \<exists>c'. cmd_at t p = Inr c' \<and> c_name c' = c_name c \<and> (cmd_ok c \<longrightarrow> cmd_ok c'))"

interpretation kp: state_rel keep
proof
  show "keep s s" for s :: "'a sys" by (auto simp: keep_def split: sum.split)
  show "keep s u" if a: "keep s t" "keep t u" for s t u :: "'a sys"
  proof -
    have "case cmd_at s p of Inl _ \<Rightarrow> \<exists>e. cmd_at u p = Inl e
            | Inr c \<Rightarrow> \<exists>c'. cmd_at u p = Inr c' \<and> c_name c' = c_name c \<and> (cmd_ok c \<longrightarrow> cmd_ok c')" for p
      using a[unfolded keep_def, THEN conjunct2, THEN conjunct2, THEN spec[of _ p]]
      by (auto split: sum.splits)
    with a show ?thesis by (auto simp: keep_def)
  qed
qed

lemma keep_frame: "frame s t \<Longrightarrow> keep s t"
  using frame_cmd_at[of s t] unfolding keep_def
  by (fastforce simp: frame_def cmd_frame_def split: sum.splits)

lemma keep_put: "cmd_at s p = Inr c \<Longrightarrow> c_name c' = c_name c \<Longrightarrow> (cmd_ok c \<Longrightarrow> cmd_ok c') \<Longrightarrow>
  keep s (put_cmd p c' (with_kern k s))"
  using cmd_at_bound[of s p c] by (auto simp: keep_def split: sum.split)

lemma keep_at: "keep s t \<Longrightarrow> cmd_at s p = Inr c \<Longrightarrow> \<exists>c'. cmd_at t p = Inr c' \<and> c_name c' = c_name c"
  by (drule keep_def[THEN iffD1, THEN conjunct2, THEN conjunct2, THEN spec[of _ p]]) auto

lemma keep_at_back: "keep s t \<Longrightarrow> cmd_at t p = Inr c' \<Longrightarrow>
  \<exists>c. cmd_at s p = Inr c \<and> c_name c' = c_name c \<and> (cmd_ok c \<longrightarrow> cmd_ok c')"
  by (drule keep_def[THEN iffD1, THEN conjunct2, THEN conjunct2, THEN spec[of _ p]])
    (cases "cmd_at s p"; auto)

lemma entry_keep:
  assumes "keep s t"
  shows "entry_ok items t p = entry_ok items s p"
proof (cases "cmd_at s p")
  case (Inl e)
  with assms[unfolded keep_def, THEN conjunct2, THEN conjunct2, THEN spec[of _ p]] assms show ?thesis
    by (auto simp: entry_ok_def keep_def)
next
  case (Inr c)
  from keep_at[OF assms Inr] assms Inr show ?thesis by (auto simp: entry_ok_def keep_def)
qed

lemma ok_keep:
  assumes "keep s t" "ok_but items P s"
  shows "ok_but items P t"
proof -
  have "g_cmds (s_gbls t) = g_cmds (s_gbls s)" "gbls_ok (s_gbls t)" using assms by (auto simp: keep_def ok_but_def)
  moreover have "cmd_ok c'" if "cmd_at t p = Inr c'" for p c'
    using keep_at_back[OF assms(1) that] assms(2) by (auto simp: ok_but_def)
  ultimately show ?thesis using assms(2) by (auto simp: ok_but_def entry_keep[OF assms(1)])
qed

lemma ok_put:
  assumes "ok_but items P s" "cmd_at s p = Inr c" "cmd_ok c'" "p \<in> P"
  shows "ok_but items P (put_cmd p c' (with_kern k s))"
proof -
  have "entry_ok items (put_cmd p c' (with_kern k s)) q" if "q \<notin> P" for q
  proof -
    have "entry_ok items s q" "q \<noteq> p" using that assms(1,4) by (auto simp: ok_but_def)
    then show ?thesis using cmd_at_bound[OF assms(2)] by (subst entry_cong[of _ _ s]) simp_all
  qed
  then show ?thesis using assms cmd_at_bound[OF assms(2)] by (auto simp: ok_but_def)
qed

section \<open>Starting, stopping, cleaning up\<close>

lemma keep_cmdStart:
  assumes "cmdStart p raw ep d s = Inr (b, s')"
  shows "keep s s'"
  using assms
proof (cases rule: cmdStart_cases)
  case (started c cpid k f k')
  show ?thesis unfolding started(10)
    by (rule keep_put[OF started(1)]) (simp_all add: cmd_ok_def started_def)
qed (simp add: kp.refl)

lemma keep_cmdStop:
  assumes "cmdStop p ep force s = Inr (b, s')"
  shows "keep s s'"
  using assms
proof (cases rule: cmdStop_cases)
  case (stopped c s1 s2 c2 k1 status k2)
  have "keep s s2" using kp.trans[OF keep_frame keep_frame] frame_send_stopstr[OF stopped(5)] frame_drop_ready[OF stopped(6)] by blast
  moreover have "keep s2 s'" unfolding stopped(10)
    by (rule keep_put[OF stopped(7)]) (simp_all add: cmd_ok_def stopped_def)
  ultimately show ?thesis by (rule kp.trans)
qed (simp_all add: kp.refl)

lemma keep_cmd_reap:
  assumes "cmd_reap p ep s = Inr s'"
  shows "keep s s'"
proof -
  obtain w k where w: "sys_waitid (s_kern s) = (w, k)" by force
  from assms w obtain c status k1 where r: "cmd_at s p = Inr c"
    "drop_ready ''cmdPidEvent'' p (put_cmd p (c\<lparr>c_exitstatus := status, c_pidfd := -1, c_pid := -1\<rparr>) (with_kern k1 s)) = Inr s'"
    by (auto simp: cmd_reap_def bind_res_eq_Inr split: option.splits)
  have "keep s (put_cmd p (c\<lparr>c_exitstatus := status, c_pidfd := -1, c_pid := -1\<rparr>) (with_kern k1 s))"
    by (rule keep_put[OF r(1)]) (simp_all add: cmd_ok_def)
  with keep_frame[OF frame_drop_ready[OF r(2)]] show ?thesis using kp.trans by blast
qed

text \<open>A command that is cleaned up stays well formed but loses its name.\<close>

lemma ok_cmdCleanup:
  assumes "cmdCleanup p s = Inr (b, s')" "ok_but items {p} s"
  shows "ok_but items {p} s'" "g_cmds (s_gbls s') = g_cmds (s_gbls s)"
proof -
  from assms(1) obtain b1 s1 c where r: "cmdStop p (-1) True s = Inr (b1, s1)" "cmd_at s1 p = Inr c"
    by (auto simp: cmdCleanup_def res_dest)
  obtain x t k where t1: "ttyCleanup (c_cmdtty c) (s_kern s1) = (x, t, k)" by (metis prod_cases3)
  obtain y u k' where t2: "ttyCleanup (c_clttty c) k = (y, u, k')" by (metis prod_cases3)
  have s1: "keep s s1" "ok_but items {p} s1" using keep_cmdStop[OF r(1)] ok_keep assms(2) by blast+
  then have "cmd_ok c" using r(2) by (simp add: ok_but_def)
  then obtain c' where s': "s' = put_cmd p c' (with_kern k' s1)" "cmd_ok c'"
    using assms(1) r t1 t2 ok_ttyCleanup[OF t1] ok_ttyCleanup[OF t2] by (auto simp: cmdCleanup_def cmd_ok_def)
  show "ok_but items {p} s'" unfolding s'(1) by (rule ok_put[OF s1(2) r(2) s'(2)]) simp
  show "g_cmds (s_gbls s') = g_cmds (s_gbls s)" using s1(1) by (simp add: s'(1) keep_def)
qed

lemma cmd_at_free: "free_cmd p s = Inr s' \<Longrightarrow> cmd_at s' q = (if q = p then Inl UseAfterFree else cmd_at s q)"
  by (auto simp: free_cmd_def cmd_at_def split: if_splits)

lemma gbls_free: "free_cmd p s = Inr s' \<Longrightarrow> s_gbls s' = s_gbls s"
  by (auto simp: free_cmd_def split: if_splits)

text \<open>Freeing a command that is not in the table.\<close>

lemma ok_free:
  assumes "free_cmd p s = Inr s'" "ok_but items {p} s" "\<And>n. (n, p) \<notin> set (items (g_cmds (s_gbls s)))"
  shows "ok_but items {} s'"
proof -
  have "entry_ok items s' q" for q
  proof (cases "q = p")
    case True
    with assms(3) show ?thesis by (simp add: entry_ok_def cmd_at_free[OF assms(1)] gbls_free[OF assms(1)])
  next
    case False
    with assms(2) show ?thesis
      by (subst entry_cong[of _ _ s]) (simp_all add: ok_but_def cmd_at_free[OF assms(1)] gbls_free[OF assms(1)])
  qed
  with assms(2) show ?thesis by (auto simp: ok_but_def cmd_at_free[OF assms(1)] gbls_free[OF assms(1)] split: if_splits)
qed

lemma ok_cmdInit:
  assumes "cmdInit this cs (Some nm) cl d ttylink lg False g = Inr (ok, c)"
  shows "cmd_ok c" "c_name c = Some nm"
  using assms
  by (auto simp: cmdInit_def Let_def res_dest cmd_ok_def cmd_zero_def split: if_splits option.splits dest: ok_ttyInit)

section \<open>The table\<close>

definition keeps_ok :: "('h \<Rightarrow> (string \<times> ptr) list) \<Rightarrow> 'h sys \<Rightarrow> 'h sys \<Rightarrow> bool" where
  "keeps_ok items s t \<longleftrightarrow> (all_ok items s \<longrightarrow> all_ok items t)"

lemma keeps_keep: "keep s t \<Longrightarrow> keeps_ok items s t"
  by (auto simp: keeps_ok_def all_ok_but intro: ok_keep)

context uthash
begin

lemma ok_cleanup_cmd:
  assumes "cleanup_cmd H p s = Inr s'" "ok_but items {} s" "p \<in> set (hh_iter H (g_cmds (s_gbls s)))"
  shows "ok_but items {} s'"
    and "hh_iter H (g_cmds (s_gbls s')) = filter (\<lambda>q. q \<noteq> p) (hh_iter H (g_cmds (s_gbls s)))"
proof -
  from assms(1) obtain b s1 where r: "cmdCleanup p s = Inr (b, s1)"
    "free_cmd p (upd_gbls (\<lambda>g. g\<lparr>g_cmds := hh_del H (g_cmds g) p\<rparr>) s1) = Inr s'"
    by (auto simp: cleanup_cmd_def bind_res_eq_Inr)
  let ?s2 = "upd_gbls (\<lambda>g. g\<lparr>g_cmds := hh_del H (g_cmds g) p\<rparr>) s1"
  note c = ok_cmdCleanup[OF r(1) ok_but_mono[OF assms(2)], simplified]
  have p: "p \<in> set (hh_iter H (g_cmds (s_gbls s1)))" using assms(3) c(2) by simp
  then have i: "items (hh_del H (g_cmds (s_gbls s1)) p) = filter (\<lambda>(_, q). q \<noteq> p) (items (g_cmds (s_gbls s1)))"
    by (intro items_del) (simp add: iter_items)
  have "items_ok (items (hh_del H (g_cmds (s_gbls s1)) p))" using c(1) p by (intro ok_del) (simp_all add: ok_but_def)
  moreover have "entry_ok items ?s2 q = entry_ok items s1 q" if "q \<noteq> p" for q
    using that by (intro entry_cong) (simp_all add: i)
  ultimately have "ok_but items {p} ?s2" using c(1) by (auto simp: ok_but_def gbls_ok_def)
  with r(2) show "ok_but items {} s'" by (rule ok_free) (auto simp: i)
  show "hh_iter H (g_cmds (s_gbls s')) = filter (\<lambda>q. q \<noteq> p) (hh_iter H (g_cmds (s_gbls s)))"
    using iter_del[OF p] c(2) by (simp add: gbls_free[OF r(2)])
qed

lemma ok_cleanup_all:
  "fold_res (cleanup_cmd H) ps s = Inr s' \<Longrightarrow> ok_but items {} s \<Longrightarrow> distinct ps
    \<Longrightarrow> set ps \<subseteq> set (hh_iter H (g_cmds (s_gbls s))) \<Longrightarrow> ok_but items {} s'"
proof (induction ps arbitrary: s)
  case (Cons p ps)
  then obtain s1 where r: "cleanup_cmd H p s = Inr s1" "fold_res (cleanup_cmd H) ps s1 = Inr s'"
    by (auto simp: bind_res_eq_Inr)
  have "p \<in> set (hh_iter H (g_cmds (s_gbls s)))" using Cons.prems(4) by simp
  note c = ok_cleanup_cmd[OF r(1) Cons.prems(2) this]
  show ?case by (rule Cons.IH[OF r(2) c(1)]) (use Cons.prems c(2) in auto)
qed simp

lemma keeps_cleanup:
  assumes "cleanup H s = Inr s'"
  shows "keeps_ok items s s'"
proof -
  obtain s1 where r: "frame s (cleanup_bcst s)"
    "fold_res (cleanup_cmd H) (hh_iter H (g_cmds (s_gbls (cleanup_bcst s)))) (cleanup_bcst s) = Inr s1" "frame s1 s'"
    using assms by (rule cleanup_parts)
  have "ok_but items {} s1" if "ok_but items {} s"
  proof -
    have b: "ok_but items {} (cleanup_bcst s)" using keep_frame[OF r(1)] that by (rule ok_keep)
    then have "distinct (hh_iter H (g_cmds (s_gbls (cleanup_bcst s))))" by (simp add: iter_items ok_but_def items_ok_def)
    from ok_cleanup_all[OF r(2) b this] show ?thesis by simp
  qed
  then show ?thesis using ok_keep[OF keep_frame[OF r(3)]] by (auto simp: keeps_ok_def all_ok_but)
qed

lemma keeps_delete:
  assumes "hh_find H (g_cmds (s_gbls s)) name = Some p" "cleanup_cmd H p s = Inr s'"
  shows "keeps_ok items s s'"
proof -
  have "p \<in> set (hh_iter H (g_cmds (s_gbls s)))" if "ok_but items {} s"
    using that assms(1) by (force simp: ok_but_def find_Some_iff iter_items)
  then show ?thesis using ok_cleanup_cmd(1)[OF assms(2)] by (auto simp: keeps_ok_def all_ok_but)
qed

text \<open>A command in use that is not in the table does not arise.\<close>

lemma keeps_orphan:
  assumes "cmd_at s p = Inr c" "c_name c = Some name" "hh_find H (g_cmds (s_gbls s)) name = None"
  shows "keeps_ok items s s'"
proof -
  have "\<not> ok_but items {} s"
  proof
    assume ok: "ok_but items {} s"
    then have "entry_ok items s p" by (simp add: ok_but_def)
    from entry_named[OF this assms(1)] assms(2) have "(name, p) \<in> set (items (g_cmds (s_gbls s)))" by simp
    with ok assms(3) show False by (force simp: ok_but_def find_None_iff)
  qed
  then show ?thesis by (simp add: keeps_ok_def all_ok_but)
qed

lemma keeps_add_new:
  assumes "add_new_cmd H cstr cs s = Inr (r, s')" "hh_find H (g_cmds (s_gbls s)) (cs_name cs) = None"
  shows "keeps_ok items s s'"
proof -
  let ?p = "length (s_heap s)" let ?s0 = "s\<lparr>s_heap := s_heap s @ [Some cmd_zero]\<rparr>"
  from assms(1) obtain ok c where i: "cmdInit cmd_zero (Some cstr) (Some (cs_name cs)) (Some (cs_cmdline cs)) (cs_delay cs)
      (cs_ttylink cs) (cs_log cs) False (s_gbls s) = Inr (ok, c)"
    by (auto simp: add_new_cmd_def malloc_cmd_def bind_res_eq_Inr)
  let ?s1 = "put_cmd ?p c ?s0"
  have s1: "?s1 = s\<lparr>s_heap := s_heap s @ [Some c]\<rparr>" by (simp add: put_cmd_def)
  have at: "cmd_at ?s1 q = (if q = ?p then Inr c else cmd_at s q)" for q
    unfolding s1 by (auto simp: cmd_at_def nth_append)
  from assms(1) i pid_cmdInit[OF i] obtain b s2 where cr: "cmdCreate ?p ?s1 = Inr (b, s2)"
    by (auto simp: add_new_cmd_def malloc_cmd_def bind_res_eq_Inr)
  have k: "keep ?s1 s2" using frame_cmdCreate[OF cr] by (rule keep_frame)
  have "ok_but items {} s'" if ok: "ok_but items {} s"
  proof -
    have new: "(n, ?p) \<notin> set (items (g_cmds (s_gbls s)))" for n using ok by (rule ok_but_listed) simp_all
    have "entry_ok items ?s1 q" if "q \<noteq> ?p" for q
      using that ok by (subst entry_cong[of _ _ s]) (simp_all add: at ok_but_def)
    with ok have ok1: "ok_but items {?p} ?s1" using ok_cmdInit(1)[OF i] by (auto simp: ok_but_def at)
    show ?thesis
    proof (cases b)
      case True
      with assms(1) i pid_cmdInit[OF i] cr obtain s3 where a: "update_slowest ?p (cs_delay cs) s2 = Inr s3"
        "s' = upd_gbls (\<lambda>g. g\<lparr>g_cmds := hh_add H (g_cmds g) (cs_name cs) ?p\<rparr>) s3"
        by (auto simp: add_new_cmd_def malloc_cmd_def bind_res_eq_Inr)
      have k3: "keep ?s1 s3" using k keep_frame[OF frame_update_slowest[OF a(1)]] by (rule kp.trans)
      then have t: "g_cmds (s_gbls s3) = g_cmds (s_gbls s)" by (simp add: keep_def)
      obtain c' where c': "cmd_at s3 ?p = Inr c'" "c_name c' = Some (cs_name cs)"
        using keep_at[OF k3, of ?p c] ok_cmdInit[OF i] at by auto
      have "items_ok (items (g_cmds (s_gbls s)))" using ok by (simp add: ok_but_def)
      moreover have "?p \<notin> set (hh_iter H (g_cmds (s_gbls s)))" using new by (auto simp: iter_items)
      ultimately have add: "items_ok (items (hh_add H (g_cmds (s_gbls s)) (cs_name cs) ?p))"
        "items (hh_add H (g_cmds (s_gbls s)) (cs_name cs) ?p) = items (g_cmds (s_gbls s)) @ [(cs_name cs, ?p)]"
        using ok_add assms(2) by blast+
      have ok3: "ok_but items {?p} s3" using k3 ok1 by (rule ok_keep)
      have "entry_ok items s' q" for q
      proof (cases "q = ?p")
        case True
        with c' add(2) show ?thesis unfolding a(2) by (simp add: entry_ok_def t)
      next
        case False
        with ok3 show ?thesis unfolding a(2) by (subst entry_cong[of _ _ s3]) (auto simp: t add(2) ok_but_def)
      qed
      with ok3 add(1) show ?thesis unfolding a(2) by (auto simp: ok_but_def gbls_ok_def t)
    next
      case False
      with assms(1) i pid_cmdInit[OF i] cr obtain x s3 where d: "cmdCleanup ?p s2 = Inr (x, s3)" "free_cmd ?p s3 = Inr s'"
        by (auto simp: add_new_cmd_def malloc_cmd_def bind_res_eq_Inr)
      note c = ok_cmdCleanup[OF d(1) ok_keep[OF k ok1]]
      show ?thesis by (rule ok_free[OF d(2) c(1)]) (use new k c(2) in \<open>simp add: keep_def\<close>)
    qed
  qed
  then show ?thesis by (simp add: keeps_ok_def all_ok_but)
qed

lemma keeps_GBLSAddCmd:
  assumes "GBLSAddCmd H strtod tomon cstr s = Inr (r, s')"
  shows "keeps_ok items s s'"
proof -
  obtain cs s1 where p: "cmdspecParse strtod tomon cstr s = (cs, s1)" by force
  have "keeps_ok items s s1" using frame_cmdspecParse[OF p] by (intro keeps_keep keep_frame)
  moreover have "keeps_ok items s1 s'"
  proof (cases cs)
    case None
    with assms p show ?thesis by (simp add: GBLSAddCmd_def keeps_ok_def)
  next
    case (Some spec)
    have e: "keeps_ok items s1 (eprint_to tomon msg s1)" for msg by (intro keeps_keep keep_frame) simp
    from assms p Some show ?thesis
      by (cases "hh_find H (g_cmds (s_gbls s1)) (cs_name spec)")
         (auto simp: GBLSAddCmd_def bind_res_eq_Inr intro: keeps_add_new e)
  qed
  ultimately show ?thesis by (simp add: keeps_ok_def)
qed

end

text \<open>Every table that is one gives the composition of the program for its invariant.\<close>

sublocale uthash \<subseteq> tp: program_rel "keeps_ok items" H
proof
  show "keeps_ok items s s" for s by (simp add: keeps_ok_def)
  show "keeps_ok items s t \<Longrightarrow> keeps_ok items t u \<Longrightarrow> keeps_ok items s u" for s t u by (simp add: keeps_ok_def)
qed (auto intro: keeps_keep keep_frame keep_cmdStart keep_cmdStop keep_cmd_reap keeps_GBLSAddCmd keeps_delete keeps_orphan
      keeps_cleanup)

context uthash
begin

lemma keeps_yar_main:
  "fin (\<lambda>s. s) (yar_main H strtod L b opts args ws k) = Some s' \<Longrightarrow> \<exists>s. GBLSInit H k = Inr s \<and> keeps_ok items s s'"
  by (rule tp.rel_yar_main)

end

lemma GBLSInit_ok:
  assumes "uthash H items" "GBLSInit H k = Inr s"
  shows "all_ok items s" "items (g_cmds (s_gbls s)) = []"
proof -
  have z: "g_bcsttty (gbls_zero h) = tty_zero" for h :: 'a by (simp add: gbls_zero_def)
  from assms(2) obtain b t s1 sp k1 where r: "ttyInit tty_zero None None None None None True = Inr (b, t)"
    "monInit False None (upd_gbls (\<lambda>g. g\<lparr>g_bcsttty := t, g_fs := fsInit (g_fs g) None\<rparr>)
       \<lparr>s_gbls = (gbls_zero (hh_empty H))\<lparr>g_pid := -1, g_restart := True, g_restartcmddelay := 5, g_errrestartcmddelay := 10\<rparr>,
        s_heap = [], s_kern = k, s_monout = [], s_fusein = [], s_fuseout = []\<rparr>) = Inr (Some s1)"
    "s = upd_gbls (\<lambda>g. g\<lparr>g_sigproc := sp\<rparr>) (with_kern k1 s1)"
    by (auto simp: GBLSInit_def Let_def bind_res_eq_Inr z simp del: upd_gbls_simps split: option.splits)
  let ?s0 = "upd_gbls (\<lambda>g. g\<lparr>g_bcsttty := t, g_fs := fsInit (g_fs g) None\<rparr>)
       \<lparr>s_gbls = (gbls_zero (hh_empty H))\<lparr>g_pid := -1, g_restart := True, g_restartcmddelay := 5, g_errrestartcmddelay := 10\<rparr>,
        s_heap = [], s_kern = k, s_monout = [], s_fusein = [], s_fuseout = []\<rparr>"
  have "cmd_at ?s0 p \<noteq> Inr c" for p c by (simp add: cmd_at_def)
  moreover have "entry_ok items ?s0 p" for p
    using uthash.items_empty[OF assms(1)] by (simp add: entry_ok_def cmd_at_def gbls_zero_def)
  moreover have "gbls_ok (s_gbls ?s0)" using ok_ttyInit[OF r(1)]
    by (simp add: gbls_ok_def gbls_zero_def mon_ok_def mon_zero_def MON_LINELEN_def)
  ultimately have "ok_but items {} ?s0"
    using uthash.items_empty[OF assms(1)] by (simp add: ok_but_def gbls_zero_def)
  moreover have "keep s1 s" unfolding r(3) by (auto simp: keep_def gbls_ok_def split: sum.split)
  then have k: "keep ?s0 s" by (rule kp.trans[OF keep_frame[OF frame_monInit[OF r(2)]]])
  ultimately show "all_ok items s" unfolding all_ok_but by (blast intro: ok_keep)
  show "items (g_cmds (s_gbls s)) = []"
    using k uthash.items_empty[OF assms(1)] by (simp add: keep_def gbls_zero_def)
qed

lemma whole_ok:
  assumes "uthash H items" "fin (\<lambda>s. s) (yar_main H strtod L b opts args ws k) = Some s'"
  shows "all_ok items s'"
proof -
  from uthash.keeps_yar_main[OF assms] obtain s where "GBLSInit H k = Inr s" "keeps_ok items s s'" by blast
  with GBLSInit_ok(1)[OF assms(1)] show ?thesis by (auto simp: keeps_ok_def)
qed

end
