(* ===== verification/CmdRelay.thy ===== *)
theory CmdRelay
  imports Cmd
begin

text \<open>
  The relay against its specification. The circular buffer holds the line in progress, as
  much of it as fits; with line buffering the broadcast tty receives whole lines, each with
  its prefix and cut to its last 4096 bytes, while the client tty receives every byte.
\<close>

section \<open>Specification\<close>

text \<open>The line in progress and what the broadcast tty gets, for one character and for many.\<close>

definition next_pend :: "string \<Rightarrow> char \<Rightarrow> string" where
  "next_pend pend ch = (if ch = newline then [] else pend @ [ch])"

definition line_out :: "string \<Rightarrow> string \<Rightarrow> char \<Rightarrow> string" where
  "line_out pre pend ch = (if ch = newline then pre @ lastn CMD_BUFSIZE (pend @ [ch]) else [])"

fun lines_out :: "string \<Rightarrow> string \<Rightarrow> string \<Rightarrow> string" where
  "lines_out pre pend [] = []"
| "lines_out pre pend (ch # chs) = line_out pre pend ch @ lines_out pre (next_pend pend ch) chs"

lemma lines_out_append:
  "lines_out pre pend (xs @ ys) = lines_out pre pend xs @ lines_out pre (fold (\<lambda>ch p. next_pend p ch) xs pend) ys"
  by (induction xs arbitrary: pend) auto

text \<open>A whole line: no newline but the last character.\<close>

lemma lines_out_line:
  "newline \<notin> set l \<Longrightarrow> lines_out pre pend (l @ newline # rest) =
     pre @ lastn CMD_BUFSIZE (pend @ l @ [newline]) @ lines_out pre [] rest"
  by (induction l arbitrary: pend) (auto simp: line_out_def next_pend_def)

section \<open>The buffer\<close>

definition line_buf :: "cmd_t \<Rightarrow> string \<Rightarrow> bool" where
  "line_buf c pend \<longleftrightarrow> length (c_buf c) = CMD_BUFSIZE \<and> c_bufn c = c_bufstart c + length pend
     \<and> c_bufof c = int (length pend div CMD_BUFSIZE)
     \<and> (\<forall>j < length pend. length pend \<le> j + CMD_BUFSIZE \<longrightarrow>
          c_buf c ! ((c_bufstart c + j) mod CMD_BUFSIZE) = pend ! j)"

lemma CMD_BUFSIZE_pos: "0 < CMD_BUFSIZE"
  by (simp add: CMD_BUFSIZE_def)

lemma line_buf_store:
  assumes "line_buf c pend" "cmd_store ch c = Inr c'"
  shows "length (c_buf c') = CMD_BUFSIZE" "c_bufn c' = c_bufstart c' + length (pend @ [ch])"
    "c_bufstart c' = c_bufstart c" "c_bufof c' = c_bufof c"
    "\<forall>j < length (pend @ [ch]). length (pend @ [ch]) \<le> j + CMD_BUFSIZE \<longrightarrow>
       c_buf c' ! ((c_bufstart c' + j) mod CMD_BUFSIZE) = (pend @ [ch]) ! j"
proof -
  note l = assms(1)[unfolded line_buf_def]
  have c': "c' = c\<lparr>c_buf := (c_buf c)[cmdbufNtoI (c_bufn c) := ch], c_bufn := c_bufn c + 1\<rparr>"
    using assms(2) by (simp add: cmd_store_def res_dest)
  show "length (c_buf c') = CMD_BUFSIZE" "c_bufn c' = c_bufstart c' + length (pend @ [ch])"
    "c_bufstart c' = c_bufstart c" "c_bufof c' = c_bufof c"
    using l by (simp_all add: c')
  show "\<forall>j < length (pend @ [ch]). length (pend @ [ch]) \<le> j + CMD_BUFSIZE \<longrightarrow>
       c_buf c' ! ((c_bufstart c' + j) mod CMD_BUFSIZE) = (pend @ [ch]) ! j"
  proof (intro allI impI)
    fix j assume j: "j < length (pend @ [ch])" "length (pend @ [ch]) \<le> j + CMD_BUFSIZE"
    let ?i = "(c_bufstart c + length pend) mod CMD_BUFSIZE" let ?j = "(c_bufstart c + j) mod CMD_BUFSIZE"
    have buf: "c_buf c' = (c_buf c)[?i := ch]" using l by (simp add: c' cmdbufNtoI_def)
    show "c_buf c' ! ((c_bufstart c' + j) mod CMD_BUFSIZE) = (pend @ [ch]) ! j"
    proof (cases "j = length pend")
      case True
      have "c_bufstart c' = c_bufstart c" by (simp add: c')
      with True show ?thesis using l CMD_BUFSIZE_pos by (simp add: buf)
    next
      case False
      then have lt: "j < length pend" using j(1) by simp
      have "?j \<noteq> ?i"
      proof
        assume e: "?j = ?i"
        have "c_bufstart c + j \<le> c_bufstart c + length pend"
          "c_bufstart c + length pend < c_bufstart c + j + CMD_BUFSIZE"
          using lt j(2) by auto
        from mod_eq_close[OF e this] lt show False by simp
      qed
      then have "c_buf c' ! ?j = c_buf c ! ?j" using nth_list_update_neq[of ?i ?j "c_buf c" ch] by (simp only: buf)
      moreover have "c_buf c ! ?j = pend ! j" using l lt j(2) by simp
      moreover have "c_bufstart c' = c_bufstart c" by (simp add: c')
      ultimately show ?thesis using lt by (simp add: nth_append)
    qed
  qed
qed

text \<open>Stretches of a ring.\<close>

lemma ring_read:
  assumes "length buf = m" "a < m" "n \<le> m"
  shows "(if a + n \<le> m then take n (drop a buf) else drop a buf @ take (a + n - m) buf) =
    map (\<lambda>k. buf ! ((a + k) mod m)) [0..<n]"
proof (cases "a + n \<le> m")
  case True
  then show ?thesis using assms by (auto intro!: nth_equalityI)
next
  case False
  have "(drop a buf @ take (a + n - m) buf) ! k = buf ! ((a + k) mod m)" if "k < n" for k
  proof (cases "a + k < m")
    case True
    then have "k < length buf - a" using assms by simp
    then show ?thesis using True assms by (simp add: nth_append)
  next
    case False
    then have "(a + k) mod m = a + k - m" using assms that by (simp add: le_mod_geq)
    moreover have "\<not> k < length buf - a" "k - (length buf - a) = a + k - m" using assms False by auto
    ultimately show ?thesis using assms that False by (simp add: nth_append)
  qed
  then show ?thesis using False assms by (intro nth_equalityI) auto
qed

lemma lastn_map: "n \<le> length xs \<Longrightarrow> lastn n xs = map (\<lambda>k. xs ! (length xs - n + k)) [0..<n]"
  by (auto simp: lastn_def intro!: nth_equalityI)

lemma line_segs_concat:
  "c_bufof c = 0 \<Longrightarrow> cmdbufNtoI (c_bufstart c) \<le> e \<Longrightarrow>
     concat (line_segs c e) = take (e - cmdbufNtoI (c_bufstart c) + 1) (drop (cmdbufNtoI (c_bufstart c)) (c_buf c))"
  "c_bufof c = 0 \<Longrightarrow> \<not> cmdbufNtoI (c_bufstart c) \<le> e \<Longrightarrow>
     concat (line_segs c e) = drop (cmdbufNtoI (c_bufstart c)) (c_buf c) @ take (e + 1) (c_buf c)"
  by (simp_all add: line_segs_def Let_def)

text \<open>What is written for a line that ends with the character just stored.\<close>

lemma line_segs_lastn:
  assumes buf: "length (c_buf c) = CMD_BUFSIZE" and ne: "line \<noteq> []"
    and at: "\<forall>j < length line. length line \<le> j + CMD_BUFSIZE \<longrightarrow>
       c_buf c ! ((c_bufstart c + j) mod CMD_BUFSIZE) = line ! j"
    and of: "c_bufof c = 0 \<longleftrightarrow> length line < CMD_BUFSIZE"
  shows "concat (line_segs c ((c_bufstart c + (length line - 1)) mod CMD_BUFSIZE)) = lastn CMD_BUFSIZE line"
proof -
  let ?M = CMD_BUFSIZE let ?L = "length line" let ?last = "(c_bufstart c + (?L - 1)) mod ?M"
  have L: "0 < ?L" using ne by simp
  note M = CMD_BUFSIZE_pos
  show ?thesis
  proof (cases "c_bufof c = 0")
    case True
    then have lt: "?L < ?M" using of by simp
    let ?a = "c_bufstart c mod ?M"
    have am: "?a < ?M" using M by simp
    have e: "?last = (?a + (?L - 1)) mod ?M" by (simp add: mod_add_left_eq)
    have case1: "?last = ?a + (?L - 1)" if "?a + ?L \<le> ?M"
      unfolding e by (rule mod_less) (use that L in linarith)
    have case2: "?last + ?M = ?a + (?L - 1)" if "\<not> ?a + ?L \<le> ?M"
    proof -
      have "?a + (?L - 1) - ?M < ?M" using lt am L by linarith
      moreover have "?M \<le> ?a + (?L - 1)" using that L by linarith
      ultimately show ?thesis unfolding e by (simp add: le_mod_geq)
    qed
    have "concat (line_segs c ?last) =
        (if ?a + ?L \<le> ?M then take ?L (drop ?a (c_buf c)) else drop ?a (c_buf c) @ take (?a + ?L - ?M) (c_buf c))"
    proof (cases "?a + ?L \<le> ?M")
      case c: True
      then have "?a \<le> ?last" "?last - ?a + 1 = ?L" using case1 L by linarith+
      with c line_segs_concat(1)[OF True, of ?last] show ?thesis by (simp only: cmdbufNtoI_def if_True)
    next
      case c: False
      then have "\<not> ?a \<le> ?last" "?last + 1 = ?a + ?L - ?M" using case2 lt am L by linarith+
      with c line_segs_concat(2)[OF True, of ?last] show ?thesis by (simp only: cmdbufNtoI_def if_False not_False_eq_True)
    qed
    also have "\<dots> = map (\<lambda>k. c_buf c ! ((?a + k) mod ?M)) [0..<?L]"
      using lt am buf by (intro ring_read) auto
    also have "\<dots> = map (\<lambda>k. line ! k) [0..<?L]"
      using at lt by (intro map_cong refl) (auto simp: mod_add_left_eq)
    also have "\<dots> = lastn ?M line" using lt by (simp add: map_nth)
    finally show ?thesis .
  next
    case False
    then have ge: "?M \<le> ?L" using of by simp
    let ?a = "(?last + 1) mod ?M"
    have em: "?last < ?M" using M by simp
    have "concat (line_segs c ?last) =
        (if ?a + ?M \<le> ?M then take ?M (drop ?a (c_buf c)) else drop ?a (c_buf c) @ take (?a + ?M - ?M) (c_buf c))"
    proof (cases "?last + 1 < ?M")
      case True
      with False show ?thesis by (simp add: line_segs_def)
    next
      case e: False
      then have "?last + 1 = ?M" using em by simp
      with False buf show ?thesis by (simp add: line_segs_def)
    qed
    also have "\<dots> = map (\<lambda>k. c_buf c ! ((?a + k) mod ?M)) [0..<?M]"
      using M buf by (intro ring_read) auto
    also have "\<dots> = map (\<lambda>k. line ! (?L - ?M + k)) [0..<?M]"
    proof (intro map_cong refl)
      fix k assume k: "k \<in> set [0..<?M]"
      have "(?a + k) mod ?M = (c_bufstart c + (?L - 1) + 1 + k) mod ?M"
        by (simp add: mod_simps)
      also have "c_bufstart c + (?L - 1) + 1 + k = (c_bufstart c + (?L - ?M + k)) + ?M"
        using ge L by simp
      finally have "(?a + k) mod ?M = (c_bufstart c + (?L - ?M + k)) mod ?M" by simp
      moreover have "c_buf c ! ((c_bufstart c + (?L - ?M + k)) mod ?M) = line ! (?L - ?M + k)"
        by (rule at[rule_format]) (use k ge in auto)
      ultimately show "c_buf c ! ((?a + k) mod ?M) = line ! (?L - ?M + k)" by (simp only:)
    qed
    also have "\<dots> = lastn ?M line" using ge by (simp add: lastn_map)
    finally show ?thesis .
  qed
qed

section \<open>The relay\<close>

text \<open>
  A command whose client tty and broadcast tty both have readers that keep up, in line
  buffered mode and past its ready string: \<open>rf\<close>, \<open>cf\<close> and \<open>bf\<close> are the descriptors of its
  own, the client's and the broadcast tty, \<open>pre\<close> the prefix and \<open>pend\<close> the line in progress.
\<close>

definition relaying :: "'h sys \<Rightarrow> ptr \<Rightarrow> fd \<Rightarrow> fd \<Rightarrow> fd \<Rightarrow> string \<Rightarrow> string \<Rightarrow> bool" where
  "relaying s p rf cf bf pre pend \<longleftrightarrow> (\<exists>c. cmd_at s p = Inr c
     \<and> tty_dfd (c_cmdtty c) = rf \<and> tty_dfd (c_clttty c) = cf \<and> tty_dfd (g_bcsttty (s_gbls s)) = bf \<and> cf \<noteq> bf
     \<and> tty_opens (c_clttty c) \<noteq> 0 \<and> tty_opens (g_bcsttty (s_gbls s)) \<noteq> 0
     \<and> writes_accepted (s_kern s) \<and> (\<forall>n. k_clock (s_kern s) n \<noteq> None) \<and> k_rans (s_kern s) = (\<lambda>_. RAgain)
     \<and> (g_readystrlen (s_gbls s) \<noteq> 0 \<longrightarrow> g_readystrlen (s_gbls s) \<le> c_readycnt c)
     \<and> g_bcstflg (s_gbls s) \<and> g_linebufferbcst (s_gbls s)
     \<and> concat (prefix_segs (s_gbls s) c) = pre \<and> line_buf c pend)"

definition bufn_at :: "'h sys \<Rightarrow> ptr \<Rightarrow> nat" where
  "bufn_at s p = (case cmd_at s p of Inl _ \<Rightarrow> 0 | Inr c \<Rightarrow> c_bufn c)"

lemma put_seq_listening:
  assumes "tty_opens t \<noteq> 0" "writes_accepted k"
  shows "\<exists>t' k'. put_seq site tty_put segs (t, k) = Inr (int (length (concat segs)), t', k')
    \<and> k_out k' = (k_out k)(tty_dfd t := k_out k (tty_dfd t) @ concat segs)
    \<and> tty_dfd t' = tty_dfd t \<and> tty_opens t' = tty_opens t
    \<and> k_inq k' = k_inq k \<and> k_wans k' = k_wans k \<and> k_rans k' = k_rans k \<and> k_clock k' = k_clock k"
proof -
  have "tty_listening (t, k) (length (concat segs) + 0)" using assms by (simp add: tty_listening_def)
  from open_tty.put_seq_takes[OF this, of site] obtain t' k' where
    p: "put_seq site tty_put segs (t, k) = Inr (int (length (concat segs)), t', k')"
      "k_out k' (tty_dfd t') = k_out k (tty_dfd t) @ concat segs" "tty_frame (t', k') = tty_frame (t, k)"
    by auto
  note f = tty_frame_eqD[OF p(3)]
  have "k_out k' = (k_out k)(tty_dfd t := k_out k (tty_dfd t) @ concat segs)"
    using p(2) f(1,8) by (auto simp: fun_eq_iff)
  then show ?thesis using p(1) f by blast
qed

text \<open>The broadcast half on a character, for a buffer that holds the line with it.\<close>

lemma bcst_line_step:
  assumes buf: "length (c_buf c) = CMD_BUFSIZE" "c_bufn c = c_bufstart c + length (pend @ [ch])"
    "c_bufof c = int (length pend div CMD_BUFSIZE)"
    "\<forall>j < length (pend @ [ch]). length (pend @ [ch]) \<le> j + CMD_BUFSIZE \<longrightarrow>
       c_buf c ! ((c_bufstart c + j) mod CMD_BUFSIZE) = (pend @ [ch]) ! j"
    and i: "i = (c_bufstart c + length pend) mod CMD_BUFSIZE"
    and t: "tty_opens t \<noteq> 0" "writes_accepted k"
  shows "\<exists>n a b t' k'. bcst_line g ch i c (t, k) = Inr (n, c\<lparr>c_bufof := a, c_bufstart := b\<rparr>, t', k') \<and> 0 \<le> n
    \<and> line_buf (c\<lparr>c_bufof := a, c_bufstart := b\<rparr>) (next_pend pend ch)
    \<and> k_out k' = (k_out k)(tty_dfd t := k_out k (tty_dfd t) @ line_out (concat (prefix_segs g c)) pend ch)
    \<and> tty_dfd t' = tty_dfd t \<and> tty_opens t' = tty_opens t
    \<and> k_inq k' = k_inq k \<and> k_wans k' = k_wans k \<and> k_rans k' = k_rans k \<and> k_clock k' = k_clock k"
proof -
  let ?L = "length (pend @ [ch])" let ?M = CMD_BUFSIZE
  have wrap: "cmdbufNtoI (c_bufn c) = cmdbufNtoI (c_bufstart c) \<longleftrightarrow> ?L mod ?M = 0"
    by (simp add: cmdbufNtoI_def buf(2) mod_eq_dvd_iff_nat mod_eq_0_iff_dvd)
  define c1 where "c1 = (if cmdbufNtoI (c_bufn c) = cmdbufNtoI (c_bufstart c)
      then c\<lparr>c_bufof := c_bufof c + 1\<rparr> else c)"
  have of1: "c_bufof c1 = int (?L div ?M)"
    by (simp add: c1_def wrap buf(3) div_Suc del: cmdbufNtoI_def)
  have c1: "c_buf c1 = c_buf c" "c_bufn c1 = c_bufn c" "c_bufstart c1 = c_bufstart c"
    "prefix_segs g c1 = prefix_segs g c"
    by (auto simp: c1_def prefix_segs_def split: option.split)
  show ?thesis
  proof (cases "ch = newline")
    case False
    let ?r = "c\<lparr>c_bufof := c_bufof c1, c_bufstart := c_bufstart c\<rparr>"
    have e: "?r = c1" by (simp add: c1_def)
    have lb: "line_buf ?r (next_pend pend ch)"
      unfolding e using False buf of1 by (simp add: line_buf_def c1 next_pend_def)
    have bl: "bcst_line g ch i c (t, k) = Inr (0, ?r, t, k)"
      unfolding e using False by (simp add: bcst_line_def c1_def)
    show ?thesis
      by (rule exI[of _ 0], rule exI[of _ "c_bufof c1"], rule exI[of _ "c_bufstart c"],
          rule exI[of _ t], rule exI[of _ k]) (use False lb bl in \<open>simp add: line_out_def\<close>)
  next
    case True
    from put_seq_listening[OF t, of "''cmdttyProcessOutput''" "prefix_segs g c1"] obtain t1 k1 where p:
      "put_seq ''cmdttyProcessOutput'' tty_put (prefix_segs g c1) (t, k) =
         Inr (int (length (concat (prefix_segs g c1))), t1, k1)"
      "k_out k1 = (k_out k)(tty_dfd t := k_out k (tty_dfd t) @ concat (prefix_segs g c1))"
      "tty_dfd t1 = tty_dfd t" "tty_opens t1 = tty_opens t"
      "k_inq k1 = k_inq k" "k_wans k1 = k_wans k" "k_rans k1 = k_rans k" "k_clock k1 = k_clock k"
      by blast
    have t1: "tty_opens t1 \<noteq> 0" "writes_accepted k1" using t p by (simp_all add: writes_accepted_def)
    from put_seq_listening[OF t1, of "''cmdttyProcessOutput''" "line_segs c1 i"] obtain t2 k2 where q:
      "put_seq ''cmdttyProcessOutput'' tty_put (line_segs c1 i) (t1, k1) =
         Inr (int (length (concat (line_segs c1 i))), t2, k2)"
      "k_out k2 = (k_out k1)(tty_dfd t1 := k_out k1 (tty_dfd t1) @ concat (line_segs c1 i))"
      "tty_dfd t2 = tty_dfd t1" "tty_opens t2 = tty_opens t1"
      "k_inq k2 = k_inq k1" "k_wans k2 = k_wans k1" "k_rans k2 = k_rans k1" "k_clock k2 = k_clock k1"
      by blast
    have "concat (line_segs c1 ((c_bufstart c1 + (?L - 1)) mod ?M)) = lastn ?M (pend @ [ch])"
    proof (rule line_segs_lastn)
      show "c_bufof c1 = 0 \<longleftrightarrow> ?L < ?M"
        using CMD_BUFSIZE_pos by (simp add: of1 div_eq_0_iff)
    qed (use buf in \<open>simp_all add: c1\<close>)
    then have seg: "concat (line_segs c1 i) = lastn ?M (pend @ [ch])" by (simp add: i c1)
    let ?c2 = "c\<lparr>c_bufof := 0, c_bufstart := c_bufn c\<rparr>"
    have bl: "bcst_line g ch i c (t, k) = Inr (int (length (concat (line_segs c1 i))), ?c2, t2, k2)"
      using True p(1) q(1) by (simp add: bcst_line_def c1_def[symmetric] Let_def) (simp add: c1_def)
    have lb: "line_buf ?c2 []" using buf(1) by (simp add: line_buf_def)
    have out: "k_out k2 = (k_out k)(tty_dfd t := k_out k (tty_dfd t) @
        line_out (concat (prefix_segs g c)) pend ch)"
      using True by (simp add: q(2) p(2,3) seg c1 line_out_def)
    show ?thesis
      by (rule exI[of _ "int (length (concat (line_segs c1 i)))"], rule exI[of _ 0],
          rule exI[of _ "c_bufn c"], rule exI[of _ t2], rule exI[of _ k2])
         (use True bl lb out p(3-8) q(3-8) in \<open>simp add: next_pend_def\<close>)
  qed
qed

lemma ttyReadChar_pending:
  assumes "\<forall>n. k_clock k n \<noteq> None" "k_inq k (tty_dfd t) = ch # chs"
  shows "\<exists>k'. ttyReadChar t None d k = Inr (1, E_OK, Some ch, t\<lparr>tty_rbytes := tty_rbytes t + 1\<rparr>, k')
    \<and> k_inq k' = (k_inq k)(tty_dfd t := chs) \<and> k_out k' = k_out k \<and> k_wans k' = k_wans k
    \<and> k_rans k' = k_rans k \<and> k_clock k' = k_clock k"
  using assms by (auto simp: ttyReadChar_def sys_clock_def sys_read1_def split: option.split)

lemma match_ready_past:
  "(g_readystrlen g \<noteq> 0 \<longrightarrow> g_readystrlen g \<le> c_readycnt c) \<Longrightarrow> match_ready H ch c g = Inr (c, g)"
  by (auto simp: match_ready_def)

lemma prefix_segs_cong:
  "c_bcstprefix c = c_bcstprefix c' \<Longrightarrow> c_bcstprefixlen c = c_bcstprefixlen c' \<Longrightarrow>
   g_prefixbcst g = g_prefixbcst g' \<Longrightarrow> prefix_segs g c = prefix_segs g' c'"
  by (auto simp: prefix_segs_def split: option.split)

lemma cmd_output_step:
  assumes c: "cmd_at s p = Inr c" and r: "relaying s p rf cf bf pre pend" and b: "c_bufn c < SIZE_MAX"
  shows "\<exists>n s'. cmd_output H p ch s = Inr (n, s') \<and> 0 < n \<and> relaying s' p rf cf bf pre (next_pend pend ch)
    \<and> k_inq (s_kern s') = k_inq (s_kern s) \<and> bufn_at s' p = Suc (bufn_at s p)
    \<and> k_out (s_kern s') = (k_out (s_kern s))(cf := k_out (s_kern s) cf @ [ch],
         bf := k_out (s_kern s) bf @ line_out pre pend ch)"
proof -
  let ?g = "s_gbls s" let ?k = "s_kern s" let ?i = "cmdbufNtoI (c_bufn c)"
  have rl: "tty_dfd (c_cmdtty c) = rf" "tty_dfd (c_clttty c) = cf" "tty_dfd (g_bcsttty ?g) = bf" "cf \<noteq> bf"
    "tty_opens (c_clttty c) \<noteq> 0" "tty_opens (g_bcsttty ?g) \<noteq> 0" "writes_accepted ?k"
    "\<forall>n. k_clock ?k n \<noteq> None" "k_rans ?k = (\<lambda>_. RAgain)"
    "g_readystrlen ?g \<noteq> 0 \<longrightarrow> g_readystrlen ?g \<le> c_readycnt c" "g_bcstflg ?g" "g_linebufferbcst ?g"
    "concat (prefix_segs ?g c) = pre" "line_buf c pend"
    using r by (simp_all add: relaying_def c)
  let ?c1 = "c\<lparr>c_buf := (c_buf c)[?i := ch], c_bufn := c_bufn c + 1\<rparr>"
  have st: "cmd_store ch c = Inr ?c1" using b by (simp add: cmd_store_def)
  note buf = line_buf_store[OF rl(14) st]
  obtain t k where w: "tty_put [ch] (c_clttty c, ?k) = Inr (1, t, k)" "tty_dfd t = cf" "tty_opens t \<noteq> 0"
    "writes_accepted k" "k_clock k = k_clock ?k" "k_rans k = k_rans ?k" "k_inq k = k_inq ?k"
    "k_out k = (k_out ?k)(cf := k_out ?k cf @ [ch])"
    using tty_put_listening[OF rl(5,7), of "[ch]"] rl(2,5,7) by simp
  let ?c2 = "?c1\<lparr>c_clttty := t\<rparr>"
  have seg: "prefix_segs ?g ?c2 = prefix_segs ?g c" by (rule prefix_segs_cong) simp_all
  have i: "?i = (c_bufstart ?c2 + length pend) mod CMD_BUFSIZE"
    using rl(14) by (simp add: line_buf_def cmdbufNtoI_def)
  have b2: "length (c_buf ?c2) = CMD_BUFSIZE" "c_bufn ?c2 = c_bufstart ?c2 + length (pend @ [ch])"
    "c_bufof ?c2 = int (length pend div CMD_BUFSIZE)"
    "\<forall>j < length (pend @ [ch]). length (pend @ [ch]) \<le> j + CMD_BUFSIZE \<longrightarrow>
       c_buf ?c2 ! ((c_bufstart ?c2 + j) mod CMD_BUFSIZE) = (pend @ [ch]) ! j"
    using buf rl(14) by (simp_all add: line_buf_def)
  have out: "concat (prefix_segs ?g ?c2) = pre" by (simp only: seg rl(13))
  from bcst_line_step[OF b2 i rl(6) w(4), of ?g, unfolded out rl(3)] obtain n a d t' k' where o:
    "bcst_line ?g ch ?i ?c2 (g_bcsttty ?g, k) = Inr (n, ?c2\<lparr>c_bufof := a, c_bufstart := d\<rparr>, t', k')" "0 \<le> n"
    "line_buf (?c2\<lparr>c_bufof := a, c_bufstart := d\<rparr>) (next_pend pend ch)"
    "k_out k' = (k_out k)(bf := k_out k bf @ line_out pre pend ch)"
    "tty_dfd t' = bf" "tty_opens t' = tty_opens (g_bcsttty ?g)" "k_inq k' = k_inq k" "k_wans k' = k_wans k"
    "k_rans k' = k_rans k" "k_clock k' = k_clock k"
    by blast
  let ?c3 = "?c2\<lparr>c_bufof := a, c_bufstart := d\<rparr>"
  let ?s' = "put_cmd p ?c3 (with_kern k' (s\<lparr>s_gbls := ?g\<lparr>g_bcsttty := t'\<rparr>\<rparr>))"
  have pl: "p < length (s_heap s)" using c by (rule cmd_at_bound)
  have at: "cmd_at ?s' p = Inr ?c3" using pl by simp
  have res: "cmd_output H p ch s = Inr (1 + n, ?s')"
    using rl(10-12) st w(1) o(1) by (simp add: cmd_output_def c match_ready_past bcst_output_def)
  have "prefix_segs (s_gbls ?s') ?c3 = prefix_segs ?g c" by (rule prefix_segs_cong) simp_all
  then have "relaying ?s' p rf cf bf pre (next_pend pend ch)"
    unfolding relaying_def at using rl w o by (simp add: writes_accepted_def)
  moreover have "bufn_at ?s' p = Suc (bufn_at s p)" unfolding bufn_at_def at c by simp
  moreover have "k_out k' = (k_out ?k)(cf := k_out ?k cf @ [ch], bf := k_out ?k bf @ line_out pre pend ch)"
    using o(4) w(8) rl(4) by simp
  ultimately show ?thesis
    using res o(2,7) w(7) by (intro exI[of _ "1 + n"] exI[of _ ?s']) simp
qed

text \<open>One pass over the command's output, with a character waiting and without.\<close>

lemma cmdttyProcessOutput_step:
  assumes r: "relaying s p rf cf bf pre pend" and q: "k_inq (s_kern s) rf = ch # chs" and b: "bufn_at s p < SIZE_MAX"
  shows "\<exists>n s'. cmdttyProcessOutput H p s = Inr (n, s') \<and> 0 < n \<and> relaying s' p rf cf bf pre (next_pend pend ch)
    \<and> k_inq (s_kern s') rf = chs \<and> bufn_at s' p = Suc (bufn_at s p)
    \<and> k_out (s_kern s') = (k_out (s_kern s))(cf := k_out (s_kern s) cf @ [ch],
         bf := k_out (s_kern s) bf @ line_out pre pend ch)"
proof -
  obtain c where c: "cmd_at s p = Inr c" "tty_dfd (c_cmdtty c) = rf" "\<forall>n. k_clock (s_kern s) n \<noteq> None"
    using r by (auto simp: relaying_def)
  from ttyReadChar_pending[OF c(3), of "c_cmdtty c" ch chs] q c(2) obtain k where k:
    "ttyReadChar (c_cmdtty c) None 0 (s_kern s) =
       Inr (1, E_OK, Some ch, (c_cmdtty c)\<lparr>tty_rbytes := tty_rbytes (c_cmdtty c) + 1\<rparr>, k)"
    "k_inq k = (k_inq (s_kern s))(rf := chs)" "k_out k = k_out (s_kern s)" "k_wans k = k_wans (s_kern s)"
    "k_rans k = k_rans (s_kern s)" "k_clock k = k_clock (s_kern s)" by blast
  let ?c = "c\<lparr>c_cmdtty := (c_cmdtty c)\<lparr>tty_rbytes := tty_rbytes (c_cmdtty c) + 1\<rparr>\<rparr>"
  let ?s = "put_cmd p ?c (with_kern k s)"
  have at: "cmd_at ?s p = Inr ?c" using cmd_at_bound[OF c(1)] by simp
  have seg: "prefix_segs (s_gbls s) ?c = prefix_segs (s_gbls s) c" by (rule prefix_segs_cong) simp_all
  have r': "relaying ?s p rf cf bf pre pend"
    using r unfolding relaying_def at c(1) by (simp add: k seg writes_accepted_def line_buf_def)
  have b': "c_bufn ?c < SIZE_MAX" using b by (simp add: bufn_at_def c(1))
  from cmd_output_step[OF at r' b', of H ch] obtain n s' where
    "cmd_output H p ch ?s = Inr (n, s')" "0 < n" "relaying s' p rf cf bf pre (next_pend pend ch)"
    "k_inq (s_kern s') = k_inq k" "bufn_at s' p = Suc (bufn_at ?s p)"
    "k_out (s_kern s') = (k_out k)(cf := k_out k cf @ [ch], bf := k_out k bf @ line_out pre pend ch)"
    by auto
  moreover have "bufn_at ?s p = bufn_at s p" unfolding bufn_at_def at c(1) by simp
  ultimately show ?thesis
    using k by (auto simp: cmdttyProcessOutput_def c(1))
qed

lemma cmdttyProcessOutput_empty:
  assumes r: "relaying s p rf cf bf pre pend" and q: "k_inq (s_kern s) rf = []"
  shows "\<exists>s'. cmdttyProcessOutput H p s = Inr (-1, s') \<and> relaying s' p rf cf bf pre pend
    \<and> k_inq (s_kern s') = k_inq (s_kern s) \<and> k_out (s_kern s') = k_out (s_kern s)"
proof -
  let ?k = "s_kern s"
  obtain c where c: "cmd_at s p = Inr c" "tty_dfd (c_cmdtty c) = rf" "\<forall>n. k_clock ?k n \<noteq> None"
    "k_rans ?k = (\<lambda>_. RAgain)"
    using r by (auto simp: relaying_def)
  then obtain now where now: "k_clock ?k (k_tick ?k) = Some now" by blast
  have rd: "ttyReadChar (c_cmdtty c) None 0 ?k = Inr (-1, E_AGAIN, None, c_cmdtty c, tick (tick ?k))"
    using q c(2,4) now by (simp add: ttyReadChar_def sys_clock_def sys_read1_def)
  let ?s = "put_cmd p c (with_kern (tick (tick ?k)) s)"
  have at: "cmd_at ?s p = Inr c" using cmd_at_bound[OF c(1)] by simp
  have "relaying ?s p rf cf bf pre pend"
    using r unfolding relaying_def at c(1) by (simp add: writes_accepted_def)
  moreover have "cmdttyProcessOutput H p s = Inr (-1, ?s)"
    using rd by (simp add: cmdttyProcessOutput_def c(1))
  ultimately show ?thesis by (intro exI[of _ ?s]) simp
qed

lemma drain_fuel_relays:
  assumes "relaying s p rf cf bf pre pend" "k_inq (s_kern s) rf = xs" "bufn_at s p + length xs \<le> SIZE_MAX"
    and "length xs < m"
  shows "\<exists>s'. cmdttyDrain_fuel m H p s = Inr s'
    \<and> relaying s' p rf cf bf pre (fold (\<lambda>ch pd. next_pend pd ch) xs pend)
    \<and> k_inq (s_kern s') rf = []
    \<and> k_out (s_kern s') = (k_out (s_kern s))(cf := k_out (s_kern s) cf @ xs,
         bf := k_out (s_kern s) bf @ lines_out pre pend xs)"
  using assms
proof (induction xs arbitrary: s pend m)
  case Nil
  then obtain n where m: "m = Suc n" by (cases m) auto
  from cmdttyProcessOutput_empty[OF Nil.prems(1,2), of H] Nil.prems(2) show ?case
    by (auto simp: m)
next
  case (Cons ch xs)
  then obtain n where m: "m = Suc n" "length xs < n" by (cases m) auto
  have cf: "cf \<noteq> bf" using Cons.prems(1) by (auto simp: relaying_def)
  have "bufn_at s p < SIZE_MAX" using Cons.prems(3) by simp
  from cmdttyProcessOutput_step[OF Cons.prems(1,2) this, of H] obtain i s1 where s1:
    "cmdttyProcessOutput H p s = Inr (i, s1)" "0 < i" "relaying s1 p rf cf bf pre (next_pend pend ch)"
    "k_inq (s_kern s1) rf = xs" "bufn_at s1 p = Suc (bufn_at s p)"
    "k_out (s_kern s1) = (k_out (s_kern s))(cf := k_out (s_kern s) cf @ [ch],
         bf := k_out (s_kern s) bf @ line_out pre pend ch)"
    by blast
  have "bufn_at s1 p + length xs \<le> SIZE_MAX" using Cons.prems(3) s1(5) by simp
  from Cons.IH[OF s1(3,4) this m(2)] obtain s' where
    "cmdttyDrain_fuel n H p s1 = Inr s'"
    "relaying s' p rf cf bf pre (fold (\<lambda>ch pd. next_pend pd ch) xs (next_pend pend ch))"
    "k_inq (s_kern s') rf = []"
    "k_out (s_kern s') = (k_out (s_kern s1))(cf := k_out (s_kern s1) cf @ xs,
         bf := k_out (s_kern s1) bf @ lines_out pre (next_pend pend ch) xs)" by blast
  then show ?case
    using s1 cf by (intro exI[of _ s']) (auto simp: m(1) fun_eq_iff)
qed

section \<open>The drain ends\<close>

lemma tty_put_inq: "tty_put bs (t, k) = Inr (n, t', k') \<Longrightarrow> k_inq k' = k_inq k"
  by (auto simp: tty_put_def ttyWriteBuf_def sys_write_def bind_res_eq_Inr
      split: if_splits wans.splits option.splits)

lemma put_seq_inq: "put_seq site tty_put segs (t, k) = Inr (n, t', k') \<Longrightarrow> k_inq k' = k_inq k"
proof (induction segs arbitrary: t k n)
  case (Cons seg segs)
  then obtain m t1 k1 j where "tty_put seg (t, k) = Inr (m, t1, k1)"
    "put_seq site tty_put segs (t1, k1) = Inr (j, t', k')"
    by (auto simp: res_dest)
  then show ?case using Cons.IH tty_put_inq by metis
qed simp

lemma no_fuel_put:
  "tty_put bs tk \<noteq> Inl OutOfFuel" "put_seq site tty_put segs tk \<noteq> Inl OutOfFuel"
proof -
  show a: "tty_put bs tk \<noteq> Inl OutOfFuel" for bs tk
    by (cases tk) (auto simp: tty_put_def ttyWriteBuf_def ttyDiscard_def sys_write_def sys_clock_def Let_def
        bind_res_eq_Inl split: if_splits wans.splits option.splits)
  show "put_seq site tty_put segs tk \<noteq> Inl OutOfFuel"
    using a by (induction segs arbitrary: tk) (auto simp: bind_res_eq_Inl assert_res_def)
qed

lemma bcst_output_inq:
  assumes "bcst_output g ch i c (t, k) = Inr (n, c', t', k')"
  shows "k_inq k' = k_inq k \<and> c_cmdtty c' = c_cmdtty c"
  using assms
  by (auto simp: bcst_output_def bcst_line_def Let_def bind_res_eq_Inr split: if_splits
      dest!: tty_put_inq put_seq_inq)

lemma cmd_output_inq:
  assumes "cmd_output H p ch s = Inr (n, s')" "cmd_at s p = Inr c"
  shows "\<exists>c'. cmd_at s' p = Inr c' \<and> c_cmdtty c' = c_cmdtty c \<and> k_inq (s_kern s') = k_inq (s_kern s)"
proof -
  from assms obtain c1 g c2 m t k j c3 t' k' where
    1: "match_ready H ch c (s_gbls s) = Inr (c1, g)" and 2: "cmd_store ch c1 = Inr c2"
    and 3: "tty_put [ch] (c_clttty c2, s_kern s) = Inr (m, t, k)"
    and 4: "bcst_output g ch (cmdbufNtoI (c_bufn c1)) (c2\<lparr>c_clttty := t\<rparr>) (g_bcsttty g, k) = Inr (j, c3, t', k')"
    and 5: "s' = put_cmd p c3 (with_kern k' (s\<lparr>s_gbls := g\<lparr>g_bcsttty := t'\<rparr>\<rparr>))"
    by (auto simp: cmd_output_def bind_res_eq_Inr Let_def split: if_splits)
  have "c_cmdtty c1 = c_cmdtty c" using 1
    by (auto simp: match_ready_def res_dest Let_def split: if_splits option.splits)
  moreover have "c_cmdtty c2 = c_cmdtty c1" using 2 by (auto simp: cmd_store_def res_dest)
  ultimately show ?thesis
    using bcst_output_inq[OF 4] tty_put_inq[OF 3] cmd_at_bound[OF assms(2)] by (simp add: 5)
qed

lemma cmdttyProcessOutput_consumes:
  assumes "cmdttyProcessOutput H p s = Inr (n, s')" "n > 0" "cmd_at s p = Inr c"
  shows "\<exists>c' ch. cmd_at s' p = Inr c' \<and> tty_dfd (c_cmdtty c') = tty_dfd (c_cmdtty c)
    \<and> k_inq (s_kern s) (tty_dfd (c_cmdtty c)) = ch # k_inq (s_kern s') (tty_dfd (c_cmdtty c))"
proof -
  from assms(1,3) obtain r e ch t k where
    rd: "ttyReadChar (c_cmdtty c) None 0 (s_kern s) = Inr (r, e, ch, t, k)" and "r \<noteq> 0"
    and rest: "(case ch of Some ch \<Rightarrow> cmd_output H p ch (put_cmd p (c\<lparr>c_cmdtty := t\<rparr>) (with_kern k s))
        | None \<Rightarrow> if e \<noteq> E_AGAIN then Inl (NYI ''cmdttyProcessOutput'')
                  else Inr (r, put_cmd p (c\<lparr>c_cmdtty := t\<rparr>) (with_kern k s))) = Inr (n, s')"
    by (auto simp: cmdttyProcessOutput_def bind_res_eq_Inr Let_def split: if_splits)
  have r: "(ch = None \<longrightarrow> r \<le> 0) \<and> (\<forall>x. ch = Some x \<longrightarrow> tty_dfd t = tty_dfd (c_cmdtty c)
      \<and> k_inq (s_kern s) (tty_dfd (c_cmdtty c)) = x # k_inq k (tty_dfd (c_cmdtty c)))"
    using rd by (auto simp: ttyReadChar_def sys_clock_def sys_read1_def
        split: option.splits list.splits rans.splits if_splits)
  show ?thesis
  proof (cases ch)
    case None
    then show ?thesis using rest r assms(2) by (auto split: if_splits)
  next
    case (Some x)
    then have o: "cmd_output H p x (put_cmd p (c\<lparr>c_cmdtty := t\<rparr>) (with_kern k s)) = Inr (n, s')"
      using rest by simp
    have "cmd_at (put_cmd p (c\<lparr>c_cmdtty := t\<rparr>) (with_kern k s)) p = Inr (c\<lparr>c_cmdtty := t\<rparr>)"
      using cmd_at_bound[OF assms(3)] by simp
    from cmd_output_inq[OF o this] r Some show ?thesis by auto
  qed
qed

lemma cmdttyProcessOutput_no_fuel: "cmdttyProcessOutput H p s \<noteq> Inl OutOfFuel"
proof -
  have "match_ready H ch c g \<noteq> Inl OutOfFuel" for ch c and g :: "'a globals_t"
    by (auto simp: match_ready_def assert_res_def Let_def split: option.splits)
  moreover have "cmd_store ch c \<noteq> Inl OutOfFuel" for ch c
    by (simp add: cmd_store_def assert_res_def)
  moreover have "bcst_output g ch i c tk \<noteq> Inl OutOfFuel" for g :: "'a globals_t" and ch i c tk
    using no_fuel_put by (auto simp: bcst_output_def bcst_line_def bind_res_eq_Inl Let_def)
  ultimately have "cmd_output H p ch t \<noteq> Inl OutOfFuel" for ch and t :: "'a sys"
    using no_fuel_put(1) by (auto simp: cmd_output_def cmd_at_def bind_res_eq_Inl Let_def split: option.splits)
  moreover have "ttyReadChar t ts d k \<noteq> Inl OutOfFuel" for t ts d k
    by (auto simp: ttyReadChar_def Let_def split: option.splits prod.splits)
  ultimately show ?thesis
    by (auto simp: cmdttyProcessOutput_def cmd_at_def bind_res_eq_Inl Let_def split: option.splits)
qed

lemma drain_fuel_enough:
  "cmd_at s p = Inr c \<Longrightarrow> length (k_inq (s_kern s) (tty_dfd (c_cmdtty c))) < m \<Longrightarrow>
   cmdttyDrain_fuel m H p s \<noteq> Inl OutOfFuel"
proof (induction m arbitrary: s c)
  case (Suc m)
  show ?case
  proof
    assume o: "cmdttyDrain_fuel (Suc m) H p s = Inl OutOfFuel"
    then obtain n s1 where s1: "cmdttyProcessOutput H p s = Inr (n, s1)" "n > 0"
      "cmdttyDrain_fuel m H p s1 = Inl OutOfFuel"
      using cmdttyProcessOutput_no_fuel[of H p s] by (auto simp: bind_res_eq_Inl split: if_splits)
    from cmdttyProcessOutput_consumes[OF s1(1,2) Suc.prems(1)] Suc.prems(2) obtain c1 where
      "cmd_at s1 p = Inr c1" "length (k_inq (s_kern s1) (tty_dfd (c_cmdtty c1))) < m"
      by auto
    from Suc.IH[OF this] s1(3) show False by simp
  qed
qed simp


text \<open>A system with one command, its client tty and the broadcast tty open.\<close>

definition demo_tty :: "fd \<Rightarrow> string \<Rightarrow> tty_t" where
  "demo_tty f l = tty_clean\<lparr>tty_dfd := f, tty_sfd := f + 100, tty_link := Some l, tty_opens := 1\<rparr>"

definition demo_cmd :: cmd_t where
  "demo_cmd = cmd_zero\<lparr>c_cmdtty := (demo_tty 10 [])\<lparr>tty_link := None\<rparr>, c_clttty := demo_tty 11 ''/w/a'',
     c_name := Some ''a'', c_cmdline := Some ''cat'', c_bcstprefix := Some ''a: '', c_bcstprefixlen := 3,
     c_pid := -1, c_pidfd := -1, c_restart := True\<rparr>"

definition demo_gbls :: "(string \<times> ptr) list globals_t" where
  "demo_gbls = (gbls_zero [(''a'', 0)])\<lparr>g_bcsttty := demo_tty 12 ''/w/bcsttty'', g_slowestcmd := Some 0,
     g_bcstflg := True, g_linebufferbcst := True, g_prefixbcst := True, g_restart := True\<rparr>"

definition demo_sys :: "string \<Rightarrow> (string \<times> ptr) list sys" where
  "demo_sys inp = \<lparr>s_gbls = demo_gbls, s_heap = [Some demo_cmd],
     s_kern = kern0\<lparr>k_inq := (\<lambda>f. if f = 10 then inp else [])\<rparr>, s_monout = [], s_fusein = [], s_fuseout = []\<rparr>"

lemma demo_relaying: "relaying (demo_sys inp) 0 10 11 12 ''a: '' []"
  by (simp add: relaying_def demo_sys_def cmd_at_def demo_cmd_def demo_gbls_def demo_tty_def gbls_zero_def
      tty_clean_def tty_zero_def kern0_def writes_accepted_def prefix_segs_def line_buf_def cmd_zero_def)

text \<open>C4: the relay, for output of any length. With both ttys read and line buffering on,
  draining a command hands every byte to the client tty in order, and to the broadcast tty
  exactly the complete lines, each preceded by the command's prefix and each, if it is longer
  than the 4096-byte buffer, cut to its last 4096 bytes; what is left of the last line stays
  in the circular buffer. The command's output queue is empty afterwards.\<close>

theorem cmdttyDrain_relays:
  assumes "relaying s p rf cf bf pre pend" "k_inq (s_kern s) rf = xs" "bufn_at s p + length xs \<le> SIZE_MAX"
  shows "\<exists>s'. cmdttyDrain H p s = Inr s'
    \<and> k_out (s_kern s') cf = k_out (s_kern s) cf @ xs
    \<and> k_out (s_kern s') bf = k_out (s_kern s) bf @ lines_out pre pend xs
    \<and> k_inq (s_kern s') rf = []
    \<and> relaying s' p rf cf bf pre (fold (\<lambda>ch pd. next_pend pd ch) xs pend)"
proof -
  obtain c where c: "cmd_at s p = Inr c" "tty_dfd (c_cmdtty c) = rf" and cf: "cf \<noteq> bf"
    using assms(1) by (auto simp: relaying_def)
  from drain_fuel_relays[OF assms, of "Suc (length xs)" H] c cf assms(2) show ?thesis
    by (auto simp: cmdttyDrain_def)
qed

theorem cmdttyDrain_relays_witness:
  "\<exists>s'. cmdttyDrain alist_ops 0 (demo_sys (''hi'' @ newline # ''x'')) = Inr s'
    \<and> k_out (s_kern s') 11 = ''hi'' @ newline # ''x''
    \<and> k_out (s_kern s') 12 = ''a: hi'' @ [newline]"
proof -
  let ?xs = "''hi'' @ newline # ''x''"
  have q: "k_inq (s_kern (demo_sys ?xs)) 10 = ?xs" "k_out (s_kern (demo_sys ?xs)) = (\<lambda>_. [])"
    "bufn_at (demo_sys ?xs) 0 + length ?xs \<le> SIZE_MAX"
    by (simp_all add: demo_sys_def kern0_def bufn_at_def cmd_at_def demo_cmd_def cmd_zero_def)
  have nl: "newline \<notin> set ''hi''" by (simp add: newline_def)
  have "lines_out ''a: '' [] ?xs = ''a: hi'' @ [newline]"
    using lines_out_line[OF nl, of "''a: ''" "[]" "''x''"]
    by (simp add: line_out_def CMD_BUFSIZE_def newline_def)
  with cmdttyDrain_relays[OF demo_relaying q(1,3), of alist_ops] q(2) show ?thesis by auto
qed

end
