(* ===== verification/Ready.thy ===== *)
theory Ready
  imports CmdRelay
begin

text \<open>
  The ready string. Input for a command is held back until the command has written a given
  string; \<open>match_ready\<close> looks for it one output character at a time. Its specification is a
  matcher on the number of characters matched so far.
\<close>

section \<open>The matcher\<close>

definition ready_step :: "string \<Rightarrow> nat \<Rightarrow> char \<Rightarrow> nat" where
  "ready_step r j ch = (if j < length r then (if r ! j = ch then Suc j else 0) else j)"

definition ready_run :: "string \<Rightarrow> nat \<Rightarrow> string \<Rightarrow> nat" where
  "ready_run r = foldl (ready_step r)"

lemma ready_run_simps [simp]:
  "ready_run r j [] = j" "ready_run r j (ch # chs) = ready_run r (ready_step r j ch) chs"
  "ready_run r j (xs @ ys) = ready_run r (ready_run r j xs) ys"
  by (simp_all add: ready_run_def)

lemma ready_step_le: "j \<le> length r \<Longrightarrow> ready_step r j ch \<le> length r"
  by (simp add: ready_step_def)

lemma ready_run_le: "j \<le> length r \<Longrightarrow> ready_run r j xs \<le> length r"
  by (induction xs arbitrary: j) (auto simp: ready_step_le)

lemma ready_run_done [simp]: "ready_run r (length r) xs = length r"
  by (induction xs) (auto simp: ready_step_def)

text \<open>Unless it has been ready before, the characters counted are the last ones of the output.\<close>

lemma ready_run_suffix:
  "ready_run r 0 xs < length r \<Longrightarrow> \<exists>pre. xs = pre @ take (ready_run r 0 xs) r"
proof (induction xs rule: rev_induct)
  case Nil
  then show ?case by simp
next
  case (snoc ch xs)
  let ?j = "ready_run r 0 xs"
  have j: "?j < length r" using snoc.prems ready_run_le[of 0 r xs] by (auto simp: ready_step_def split: if_splits)
  from snoc.IH[OF j] obtain pre where pre: "xs = pre @ take ?j r" by blast
  show ?case
  proof (cases "r ! ?j = ch")
    case True
    have "xs @ [ch] = pre @ take ?j r @ [r ! ?j]" using pre True by simp
    then show ?thesis using j True by (auto simp: ready_step_def take_Suc_conv_app_nth)
  qed (simp add: ready_step_def j)
qed

lemma ready_run_sound:
  "ready_run r 0 xs = length r \<Longrightarrow> \<exists>pre post. xs = pre @ r @ post"
proof (induction xs rule: rev_induct)
  case Nil
  then show ?case by simp
next
  case (snoc ch xs)
  show ?case
  proof (cases "ready_run r 0 xs = length r")
    case True
    with snoc.IH show ?thesis by fastforce
  next
    case False
    then have j: "ready_run r 0 xs < length r" using ready_run_le[of 0 r xs] by simp
    with snoc.prems have e: "r ! ready_run r 0 xs = ch" "Suc (ready_run r 0 xs) = length r"
      by (auto simp: ready_step_def split: if_splits)
    from ready_run_suffix[OF j] obtain pre where "xs = pre @ take (ready_run r 0 xs) r" by blast
    then have "xs @ [ch] = pre @ take (Suc (ready_run r 0 xs)) r"
      using j e(1) by (simp add: take_Suc_conv_app_nth)
    then have "xs @ [ch] = pre @ r @ []" using e(2) by simp
    then show ?thesis by blast
  qed
qed

lemma ready_run_idle: "r \<noteq> [] \<Longrightarrow> hd r \<notin> set xs \<Longrightarrow> ready_run r 0 xs = 0"
  by (induction xs) (auto simp: ready_step_def hd_conv_nth)

lemma ready_run_match: "j + length xs \<le> length r \<Longrightarrow> take (length xs) (drop j r) = xs \<Longrightarrow> ready_run r j xs = j + length xs"
proof (induction xs arbitrary: j)
  case (Cons x xs)
  then have "r ! j = x" "take (length xs) (drop (Suc j) r) = xs" "j < length r"
    by (auto simp: drop_Suc tl_drop take_Suc hd_drop_conv_nth)
  then show ?case using Cons.IH[of "Suc j"] Cons.prems by (simp add: ready_step_def)
qed simp

section \<open>The code against the matcher\<close>

text \<open>The state the matching works on: \<open>j\<close> characters matched.\<close>

definition ready_state :: "string \<Rightarrow> nat \<Rightarrow> cmd_t \<Rightarrow> 'h globals_t \<Rightarrow> bool" where
  "ready_state r j c g \<longleftrightarrow> r \<noteq> [] \<and> g_readystr g = Some r \<and> g_readystrlen g = int (length r)
     \<and> c_readycnt c = int j \<and> j \<le> length r"

text \<open>Output characters one after the other.\<close>

fun match_run :: "'h hashops \<Rightarrow> string \<Rightarrow> cmd_t \<times> 'h globals_t \<Rightarrow> (cmd_t \<times> 'h globals_t) res" where
  "match_run H [] cg = Inr cg"
| "match_run H (ch # chs) cg = bind_res (match_ready H ch (fst cg) (snd cg)) (match_run H chs)"

text \<open>There is room for one more ready command: the assertion on the count will hold.\<close>

definition ready_room :: "'h hashops \<Rightarrow> 'h globals_t \<Rightarrow> bool" where
  "ready_room H g \<longleftrightarrow> (g_cmdsreadycnt g + 1) mod 2 ^ 32 \<le> int (hh_count H (g_cmds g))"

lemma match_ready_hit:
  assumes "g_readystr g = Some r" "g_readystrlen g = int (length r)" "c_readycnt c = int j" "j < length r" "r ! j = ch"
  shows "match_ready H ch c g = (if Suc j = length r
    then assert_res (ready_room H g) ''cmdttyProcessOutput''
           (\<lambda>_. Inr (c\<lparr>c_readycnt := int (Suc j)\<rparr>, g\<lparr>g_cmdsreadycnt := g_cmdsreadycnt g + 1\<rparr>))
    else Inr (c\<lparr>c_readycnt := int (Suc j)\<rparr>, g))"
proof (cases "Suc j = length r")
  case True
  then have L: "g_readystrlen g = 1 + int j" "length r = Suc j" using assms(2) by simp_all
  show ?thesis
    unfolding match_ready_def assms(1,3) L ready_room_def option.case
    by (simp only: assms(1,3,5) L nat_int Let_def) (simp add: add.commute)
next
  case False
  have "int j + 1 \<noteq> int (length r)" "int j + 1 \<le> int (length r)" "int j < int (length r)" "int (length r) \<noteq> 0"
    using assms False by linarith+
  with False show ?thesis
    unfolding match_ready_def assms(1,2,3) option.case
    by (simp only: assms nat_int Let_def) simp
qed

lemma match_ready_step:
  assumes "ready_state r j c g"
  shows "match_ready H ch c g =
    (if j < length r \<and> ready_step r j ch = length r
     then (if ready_room H g
           then Inr (c\<lparr>c_readycnt := int (length r)\<rparr>, g\<lparr>g_cmdsreadycnt := g_cmdsreadycnt g + 1\<rparr>)
           else Inl (Assert ''cmdttyProcessOutput''))
     else Inr (c\<lparr>c_readycnt := int (ready_step r j ch)\<rparr>, g))"
proof -
  note st = assms[unfolded ready_state_def]
  consider "j < length r" "r ! j = ch" | "j < length r" "r ! j \<noteq> ch" | "j = length r" using st by force
  then show ?thesis
  proof cases
    case 1
    with st match_ready_hit[of g r c j ch H] show ?thesis
      by (cases "Suc j = length r") (simp_all add: ready_step_def assert_res_def)
  next
    case 2
    with st show ?thesis by (simp add: match_ready_def ready_step_def)
  next
    case 3
    then have "c\<lparr>c_readycnt := int (length r)\<rparr> = c" using st by simp
    moreover have "match_ready H ch c g = Inr (c, g)" using 3 st by (simp add: match_ready_def)
    ultimately show ?thesis using 3 by (simp add: ready_step_def)
  qed
qed

lemma match_run_done:
  assumes "ready_state r (length r) c g"
  shows "match_run H xs (c, g) = Inr (c, g)"
proof (induction xs)
  case (Cons y ys)
  have "match_ready H y c g = Inr (c, g)" using assms by (simp add: match_ready_def ready_state_def)
  with Cons show ?case by simp
qed simp

lemma match_run_refines:
  assumes "ready_state r j c g" "j < length r" "ready_room H g"
  shows "match_run H xs (c, g) = Inr (c\<lparr>c_readycnt := int (ready_run r j xs)\<rparr>,
    g\<lparr>g_cmdsreadycnt := g_cmdsreadycnt g + (if ready_run r j xs = length r then 1 else 0)\<rparr>)"
  using assms
proof (induction xs arbitrary: j c)
  case Nil
  then have "c_readycnt c = int j" by (simp add: ready_state_def)
  then show ?case using Nil.prems(2) by simp
next
  case (Cons ch xs)
  note step = match_ready_step[OF Cons.prems(1), of H ch]
  show ?case
  proof (cases "ready_step r j ch = length r")
    case True
    have rs: "ready_state r (length r) (c\<lparr>c_readycnt := int (length r)\<rparr>) (g\<lparr>g_cmdsreadycnt := g_cmdsreadycnt g + 1\<rparr>)"
      using Cons.prems(1) by (simp add: ready_state_def)
    show ?thesis using True Cons.prems(2,3) step match_run_done[OF rs] by simp
  next
    case False
    have rs: "ready_state r (ready_step r j ch) (c\<lparr>c_readycnt := int (ready_step r j ch)\<rparr>) g"
      using Cons.prems(1) ready_step_le[of j r ch] by (simp add: ready_state_def)
    have lt: "ready_step r j ch < length r" using False Cons.prems(2) ready_step_le[of j r ch] by simp
    show ?thesis using False step Cons.IH[OF rs lt Cons.prems(3)] by simp
  qed
qed

section \<open>Properties\<close>



definition demo_ready_gbls :: "string \<Rightarrow> (string \<times> ptr) list globals_t" where
  "demo_ready_gbls r = demo_gbls\<lparr>g_readystr := Some r, g_readystrlen := int (length r)\<rparr>"

lemma demo_ready: "r \<noteq> [] \<Longrightarrow> ready_state r 0 demo_cmd (demo_ready_gbls r)" "ready_room alist_ops (demo_ready_gbls r)"
  by (simp_all add: ready_state_def ready_room_def demo_ready_gbls_def demo_gbls_def gbls_zero_def demo_cmd_def cmd_zero_def)



end
