(* ===== verification/YarFsLife.thy ===== *)
theory YarFsLife
  imports YarFs CmdRelay
begin

text \<open>
  The file system of the program from \<open>fsCreate\<close> to \<open>fsCleanup\<close>, its listings, and two faults
  of removal and re-creation that the program as it stands does not reach.
\<close>

section \<open>Creating several files\<close>

lemma fs_built_cong:
  assumes "fs_files fs = fs_files fs'" "fs_ino_table fs = fs_ino_table fs'" "fs_ino_num fs = fs_ino_num fs'"
    "fs_ino_freelist fs = fs_ino_freelist fs'" "fs_ino_numfree fs = fs_ino_numfree fs'"
  shows "fs_built items fs dirp dd is = fs_built items fs' dirp dd is"
    and "fs_fuse_lookup H T i n fs = fs_fuse_lookup H T i n fs'"
proof -
  have at: "file_at fs = file_at fs'" using assms(1) by (rule file_at_cong)
  have p: "ino_pool fs = ino_pool fs'" using assms by (intro ino_pool_cong)
  have d: "dir_inv items fs = dir_inv items fs'"
    by (intro ext) (simp add: dir_inv_def entry_inv_def at assms)
  have pd: "parent_dir site i fs = parent_dir site i fs'" for site i
    by (simp add: parent_dir_def ino2inodesc_def at assms)
  show "fs_built items fs dirp dd is = fs_built items fs' dirp dd is"
    by (simp add: fs_built_def fs_ready_def flat_fs_def to_visit_def ino_clean_def ino_cap_def flat_entry_def
        at p d pd assms)
  show "fs_fuse_lookup H T i n fs = fs_fuse_lookup H T i n fs'"
    unfolding fs_fuse_lookup_def ino2inodesc_def at assms(2,3) by (rule refl)
qed

definition built_entry :: "'h fs_t \<Rightarrow> (string \<times> ptr) list \<Rightarrow> nat \<Rightarrow> string \<times> fs_ops \<Rightarrow> bool" where
  "built_entry fs es i e \<longleftrightarrow> (\<exists>p. (fst e, p) \<in> set es
     \<and> file_at fs p = Inr (file_init i ROOT_INO D_null (fst e) REGULAR True (snd e)))"

context uthash
begin

lemma create_all_built:
  assumes "fs_built items fs dirp dd (is @ js)" "length xs = length is" "distinct (map fst xs)"
    "fst ` set (items (nm_files dd)) \<inter> fst ` set xs = {}"
  shows "\<exists>fs' dd'. fold_res (\<lambda>(name, ops) fs. bind_res (fsCreatefile H ROOT_INO name None ops fs) (\<lambda>(_, fs). Inr fs))
      xs fs = Inr fs'
    \<and> fs_built items fs' dirp dd' js
    \<and> map fst (items (nm_files dd')) = map fst (items (nm_files dd)) @ map fst xs
    \<and> set (items (nm_files dd)) \<subseteq> set (items (nm_files dd'))
    \<and> list_all2 (built_entry fs' (items (nm_files dd'))) is xs
    \<and> (\<forall>q. q < length (fs_files fs) \<and> q \<noteq> dirp \<longrightarrow> file_at fs' q = file_at fs q)
    \<and> fs_setup fs' = fs_setup fs"
  using assms
proof (induction xs arbitrary: fs dd "is")
  case Nil
  then show ?case by auto
next
  case (Cons x xs)
  obtain n ops where x: "x = (n, ops)" by (cases x)
  obtain i is1 where eq: "is = i # is1" using Cons.prems(2) by (cases "is") auto
  have b: "fs_built items fs dirp dd (i # (is1 @ js))" using Cons.prems(1) eq by simp
  have nn: "n \<notin> fst ` set (items (nm_files dd))" using Cons.prems(4) x by auto
  from fsCreatefile_built[OF b nn, of None ops] obtain fs1 dd1 where s:
    "fsCreatefile H ROOT_INO n None ops fs = Inr (length (fs_files fs), fs1)"
    "fs_built items fs1 dirp dd1 (is1 @ js)"
    "items (nm_files dd1) = items (nm_files dd) @ [(n, length (fs_files fs))]"
    "file_at fs1 (length (fs_files fs)) = Inr (file_init i ROOT_INO D_null n REGULAR True ops)"
    "\<forall>q. q < length (fs_files fs) \<and> q \<noteq> dirp \<longrightarrow> file_at fs1 q = file_at fs q"
    "fs_setup fs1 = fs_setup fs" by auto
  have "fst ` set (items (nm_files dd1)) \<inter> fst ` set xs = {}"
    using Cons.prems(3,4) s(3) x by auto
  from Cons.IH[OF s(2) _ _ this] Cons.prems(2,3) eq obtain fs' dd' where t:
    "fold_res (\<lambda>(name, ops) fs. bind_res (fsCreatefile H ROOT_INO name None ops fs) (\<lambda>(_, fs). Inr fs)) xs fs1 = Inr fs'"
    "fs_built items fs' dirp dd' js"
    "map fst (items (nm_files dd')) = map fst (items (nm_files dd1)) @ map fst xs"
    "set (items (nm_files dd1)) \<subseteq> set (items (nm_files dd'))"
    "list_all2 (built_entry fs' (items (nm_files dd'))) is1 xs"
    "\<forall>q. q < length (fs_files fs1) \<and> q \<noteq> dirp \<longrightarrow> file_at fs' q = file_at fs1 q"
    "fs_setup fs' = fs_setup fs1" by auto
  let ?p = "length (fs_files fs)"
  have pl: "?p < length (fs_files fs1)" using file_at_bound[OF s(4)] .
  have "dirp < ?p" using b by (auto simp: fs_built_def flat_fs_def dest: file_at_bound)
  then have "file_at fs' ?p = file_at fs1 ?p" using t(6) pl by auto
  then have "built_entry fs' (items (nm_files dd')) i x"
    using s(3,4) t(4) by (auto simp: built_entry_def x)
  moreover have "file_at fs' q = file_at fs q" if "q < ?p" "q \<noteq> dirp" for q
    using that t(6) s(5) pl by auto
  ultimately show ?case
    using s t by (auto simp: x eq)
qed

lemma lookup_built:
  assumes b: "fs_built items fs dirp dd is" and e: "built_entry fs (items (nm_files dd)) i (n, ops)"
  shows "fs_fuse_lookup H T ROOT_INO n fs =
    bind_res (op_stat T ops (file_init i ROOT_INO D_null n REGULAR True ops) stat_zero)
      (\<lambda>st. Inr (Reply_entry i st))"
proof -
  have r: "parent_dir ''fsCreatefile'' ROOT_INO fs = Inr dirp" "dir_inv items fs dirp dd"
    using b by (simp_all add: fs_built_def fs_ready_def)
  obtain p where p: "(n, p) \<in> set (items (nm_files dd))"
    "file_at fs p = Inr (file_init i ROOT_INO D_null n REGULAR True ops)"
    using e by (auto simp: built_entry_def)
  have "hh_find H (nm_files dd) n = Some p" using r(2) p(1) by (simp add: dir_inv_def find_Some_iff)
  then show ?thesis by (simp add: lookup_dir[OF r] p(2) file_stat_def)
qed

lemma lookup_built_none:
  assumes b: "fs_built items fs dirp dd is" and n: "n \<notin> fst ` set (items (nm_files dd))"
  shows "fs_fuse_lookup H T ROOT_INO n fs = Inr (Reply_err ENOENT)"
proof -
  have r: "parent_dir ''fsCreatefile'' ROOT_INO fs = Inr dirp" "dir_inv items fs dirp dd"
    using b by (simp_all add: fs_built_def fs_ready_def)
  have "hh_find H (nm_files dd) n = None" using r(2) n by (simp add: dir_inv_def find_None_iff)
  then show ?thesis by (simp add: lookup_dir[OF r])
qed

text \<open>\<open>fsCreate\<close> with the program's files on a file system just initialised.\<close>

lemma fsCreate_built:
  assumes fd: "fd \<noteq> -1"
  shows "\<exists>fs' dd. fsCreate H True True True fd (yarfsCreate H) (fsInit fs (Some mnt)) = Inr (True, fs')
    \<and> fs_built items fs' 0 dd [7..<INO_NUM] \<and> map fst (items (nm_files dd)) = map fst yarfs_files
    \<and> list_all2 (built_entry fs' (items (nm_files dd))) [2..<7] yarfs_files
    \<and> fs_mntpt fs' = Some mnt \<and> fs_mkdir fs'"
proof -
  let ?fs0 = "(fsInit fs (Some mnt))\<lparr>fs_mkdir := True\<rparr>"
  have "fs_ino_table ?fs0 = []" "fs_ino_num ?fs0 = 0" "fs_files ?fs0 = []"
    by (simp_all add: fsInit_def)
  from root_built[OF this] obtain fs1 fs2 dd2 f where r:
    "inoalloc ?fs0 = Inr (INVALID_INO, fs1)"
    "fsCreatedir H INVALID_INO ''.'' Fs_dir_ops fs1 = Inr (0, fs2)"
    "fs_built items fs2 0 dd2 [2..<INO_NUM]" "items (nm_files dd2) = []"
    "fs_setup fs2 = fs_setup ?fs0" "file_at fs2 0 = Inr f" "f_ino f = ROOT_INO" by blast
  have "[2..<INO_NUM] = [2..<7] @ [7..<INO_NUM]"
    using upt_add_eq_append[of 2 7 "INO_NUM - 7"] by (simp add: INO_NUM_def)
  then have b: "fs_built items fs2 0 dd2 ([2..<7] @ [7..<INO_NUM])" using r(3) by simp
  from create_all_built[OF b, of yarfs_files] r(4) obtain fs3 dd3 where c:
    "yarfsCreate H fs2 ROOT_INO = Inr fs3"
    "fs_built items fs3 0 dd3 [7..<INO_NUM]" "map fst (items (nm_files dd3)) = map fst yarfs_files"
    "list_all2 (built_entry fs3 (items (nm_files dd3))) [2..<7] yarfs_files" "fs_setup fs3 = fs_setup fs2"
    by (auto simp: yarfs_files_def yarfsCreate_def)
  have su: "fs_mntpt fs3 = Some mnt" "fs_mkdir fs3" "fs_ed fs3 = \<lparr>hdlr = Some H_fsEvent, obj = Some O_fs\<rparr>"
    using c(5) r(5) by (simp_all add: fs_setup_def fsInit_def)
  let ?fs = "fs3\<lparr>fs_fuse_se := True, fs_fuse_fd := fd\<rparr>"
  have "fsCreate H True True True fd (yarfsCreate H) (fsInit fs (Some mnt)) = Inr (True, ?fs)"
    using r(1,2,6,7) c(1) fd su(3) by (simp add: fsCreate_def)
  moreover have "fs_built items ?fs 0 dd3 [7..<INO_NUM]"
    using c(2) by (subst fs_built_cong[of _ fs3]) simp_all
  moreover have "built_entry ?fs = built_entry fs3"
    by (intro ext) (simp add: built_entry_def file_at_cong[of ?fs fs3])
  ultimately show ?thesis using c(3,4) su by (intro exI[of _ ?fs] exI[of _ dd3]) simp
qed

end

section \<open>Properties\<close>

text \<open>A directory entry encoding to evaluate on.\<close>

definition demo_lib :: fuse_lib where
  "demo_lib = \<lparr>fl_entsize = (\<lambda>name. 24 + length name), fl_entry = (\<lambda>name ino off. name)\<rparr>"

text \<open>C17: \<open>fsCreate\<close> with the program's files succeeds on a file system just initialised, for
  every implementation of the hash table. Afterwards a lookup of each of the five names in the
  root answers the file's attributes under the inodes 2 to 6, and any other name is not found.\<close>

theorem yarfs_created:
  assumes "uthash H items" "fd \<noteq> -1"
  shows "\<exists>fs'. fsCreate H True True True fd (yarfsCreate H) (fsInit fs (Some mnt)) = Inr (True, fs')
    \<and> (\<forall>T k. k < 5 \<longrightarrow> fs_fuse_lookup H T ROOT_INO (fst (yarfs_files ! k)) fs' =
         bind_res (op_stat T (snd (yarfs_files ! k))
           (file_init (k + 2) ROOT_INO D_null (fst (yarfs_files ! k)) REGULAR True (snd (yarfs_files ! k))) stat_zero)
           (\<lambda>st. Inr (Reply_entry (k + 2) st)))
    \<and> (\<forall>T n. n \<notin> fst ` set yarfs_files \<longrightarrow> fs_fuse_lookup H T ROOT_INO n fs' = Inr (Reply_err ENOENT))"
proof -
  from uthash.fsCreate_built[OF assms] obtain fs' dd where c:
    "fsCreate H True True True fd (yarfsCreate H) (fsInit fs (Some mnt)) = Inr (True, fs')"
    "fs_built items fs' 0 dd [7..<INO_NUM]" "map fst (items (nm_files dd)) = map fst yarfs_files"
    "list_all2 (built_entry fs' (items (nm_files dd))) [2..<7] yarfs_files" by blast
  have hit: "fs_fuse_lookup H T ROOT_INO (fst (yarfs_files ! k)) fs' =
      bind_res (op_stat T (snd (yarfs_files ! k))
        (file_init (k + 2) ROOT_INO D_null (fst (yarfs_files ! k)) REGULAR True (snd (yarfs_files ! k))) stat_zero)
        (\<lambda>st. Inr (Reply_entry (k + 2) st))" if "k < 5" for T k
  proof -
    have "built_entry fs' (items (nm_files dd)) ([2..<7] ! k) (yarfs_files ! k)"
      using list_all2_nthD[OF c(4), of k] that by simp
    moreover have "[2..<7] ! k = k + 2" using nth_upt[of 2 k 7] that by (simp only: add.commute)
    ultimately have "built_entry fs' (items (nm_files dd)) (k + 2) (fst (yarfs_files ! k), snd (yarfs_files ! k))"
      by simp
    from uthash.lookup_built[OF assms(1) c(2) this] show ?thesis .
  qed
  have "fst ` set (items (nm_files dd)) = fst ` set yarfs_files"
    using arg_cong[OF c(3), of set] by simp
  then have "\<forall>T n. n \<notin> fst ` set yarfs_files \<longrightarrow> fs_fuse_lookup H T ROOT_INO n fs' = Inr (Reply_err ENOENT)"
    using uthash.lookup_built_none[OF assms(1) c(2)] by simp
  then show ?thesis using c(1) hit by blast
qed

theorem yarfs_created_witness:
  "\<exists>fs'. fsCreate alist_ops True True True 9 (yarfsCreate alist_ops) (fsInit fs_zero (Some ''/w/1.fs'')) = Inr (True, fs')
    \<and> fs_fuse_lookup alist_ops (yarfs_ops alist_ops demo_lib (demo_sys [])) ROOT_INO ''pid'' fs' =
        Inr (Reply_entry 2 \<lparr>st_ino = 2, st_mode = 33060, st_nlink = 1, st_size = 1\<rparr>)
    \<and> fs_fuse_lookup alist_ops (yarfs_ops alist_ops demo_lib (demo_sys [])) ROOT_INO ''x'' fs' = Inr (Reply_err ENOENT)"
proof -
  from yarfs_created[OF alist.uthash_axioms, of 9 fs_zero "''/w/1.fs''"] obtain fs' where c:
    "fsCreate alist_ops True True True 9 (yarfsCreate alist_ops) (fsInit fs_zero (Some ''/w/1.fs'')) = Inr (True, fs')"
    "\<forall>T k. k < 5 \<longrightarrow> fs_fuse_lookup alist_ops T ROOT_INO (fst (yarfs_files ! k)) fs' =
         bind_res (op_stat T (snd (yarfs_files ! k))
           (file_init (k + 2) ROOT_INO D_null (fst (yarfs_files ! k)) REGULAR True (snd (yarfs_files ! k))) stat_zero)
           (\<lambda>st. Inr (Reply_entry (k + 2) st))"
    "\<forall>T n. n \<notin> fst ` set yarfs_files \<longrightarrow> fs_fuse_lookup alist_ops T ROOT_INO n fs' = Inr (Reply_err ENOENT)"
    by auto
  have p: "pidSize (demo_sys []) = Inr 1"
    by (simp add: pidSize_def demo_sys_def demo_gbls_def gbls_zero_def dec_int_def dec_digits.simps)
  show ?thesis
    using c(1) c(2)[rule_format, of 0 "yarfs_ops alist_ops demo_lib (demo_sys [])"] c(3)[rule_format, of "''x''"] p
    by (simp add: yarfs_files_def yarfs_ops_def file_stats stat_zero_def)
qed

text \<open>C16: \<open>fsCleanup\<close> undoes \<open>fsCreate\<close>: its scan frees the five files and with the last one
  the root, every inode goes back to the free list and no file object is left, so none of its
  assertions on the counts fails.\<close>

theorem yarfs_torn_down:
  assumes "uthash H items" "fd \<noteq> -1"
  shows "\<exists>fs' fs''. fsCreate H True True True fd (yarfsCreate H) (fsInit fs (Some mnt)) = Inr (True, fs')
    \<and> fsCleanup H fs' = Inr (True, fs'') \<and> no_files fs'' \<and> fs_ino_table fs'' = []
    \<and> fs_ino_num fs'' = 0 \<and> fs_ino_freelist fs'' = None \<and> fs_ino_numfree fs'' = 0"
proof -
  from uthash.fsCreate_built[OF assms] obtain fs' dd where c:
    "fsCreate H True True True fd (yarfsCreate H) (fsInit fs (Some mnt)) = Inr (True, fs')"
    "fs_built items fs' 0 dd [7..<INO_NUM]" "map fst (items (nm_files dd)) = map fst yarfs_files"
    "fs_mntpt fs' = Some mnt" "fs_mkdir fs'" by blast
  have "items (nm_files dd) \<noteq> []" using c(3) by (auto simp: yarfs_files_def)
  from uthash.fsCleanup_built[OF assms(1) c(2) this] c show ?thesis by blast
qed

theorem yarfs_torn_down_witness:
  "\<exists>fs' fs''. fsCreate alist_ops True True True 9 (yarfsCreate alist_ops) (fsInit fs_zero (Some ''/w/1.fs'')) = Inr (True, fs')
    \<and> fsCleanup alist_ops fs' = Inr (True, fs'') \<and> no_files fs''"
  using yarfs_torn_down[OF alist.uthash_axioms, of 9 fs_zero "''/w/1.fs''"] by auto

text \<open>C15: for each of the five files the size reported in its attributes is exactly the number
  of bytes a read returns, and building the contents never stores outside the buffer of that
  size, as long as the commands are alive and the tty links are set.\<close>

theorem yarfs_sizes_exact:
  assumes "all_strings H s = Inr xs" "tty_link (g_bcsttty (s_gbls s)) = Some blink"
    "tty_link (m_tty (g_mon (s_gbls s))) = Some mlink"
    and "ops \<in> {Fs_pid_ops, Fs_cmds_ops, Fs_lcmds_ops, Fs_ttys_ops, Fs_bcst_ops}"
  shows "\<exists>b st rd. op_stat (yarfs_ops H L s) ops f stat_zero = Inr st \<and> st_size st = length b
    \<and> op_read (yarfs_ops H L s) ops = Some rd \<and> (\<forall>sz. rd sz 0 = Inr (Reply_buf (take sz b)))"
proof -
  have reads: "synth_read (Inr b) sz 0 = Inr (Reply_buf (take sz b))" for b sz
    by (cases "b = []") (auto simp: synth_read_def fsFuseReplyBufLimited_def min_def)
  have l: "cmds_lines H s xs" using assms(1) by (simp add: cmds_lines_def)
  have "\<exists>b. cmds_text H s b" "\<exists>b. lcmds_text H s b" "\<exists>b. ttys_text H s b"
    "\<exists>b. bcst_text s b" "\<exists>b. pid_text s b"
    using l assms(2,3) by (auto simp: cmds_text_def lcmds_text_def ttys_text_def bcst_text_def pid_text_def)
  then obtain b1 b2 b3 b4 b5 where b: "cmds_text H s b1" "lcmds_text H s b2" "ttys_text H s b3"
    "bcst_text s b4" "pid_text s b5" by blast
  show ?thesis
    using assms(4) reads
      cmds_file.size_text[OF b(1)] cmds_file.buf_text[OF b(1)]
      lcmds_file.size_text[OF b(2)] lcmds_file.buf_text[OF b(2)]
      ttys_file.size_text[OF b(3)] ttys_file.buf_text[OF b(3)]
      bcst_file.size_text[OF b(4)] bcst_file.buf_text[OF b(4)]
      pid_file.size_text[OF b(5)] pid_file.buf_text[OF b(5)]
    by (auto simp: yarfs_ops_def file_stats)
qed

lemma demo_strings: "all_strings alist_ops (demo_sys []) = Inr [(''a'', ''/w/a'', ''cat'')]"
  by (simp add: all_strings_def all_cmds_def demo_sys_def demo_gbls_def gbls_zero_def cmd_at_def cmd_strings_def
      str_res_def demo_cmd_def demo_tty_def tty_clean_def tty_zero_def)

definition demo_mon_sys :: "(string \<times> ptr) list sys" where
  "demo_mon_sys = upd_gbls (\<lambda>g. g\<lparr>g_mon := (g_mon g)\<lparr>m_tty := demo_tty 13 ''/w/7.mon''\<rparr>, g_pid := 7\<rparr>) (demo_sys [])"

lemma demo_mon_strings: "all_strings alist_ops demo_mon_sys = Inr [(''a'', ''/w/a'', ''cat'')]"
  "tty_link (g_bcsttty (s_gbls demo_mon_sys)) = Some ''/w/bcsttty''"
  "tty_link (m_tty (g_mon (s_gbls demo_mon_sys))) = Some ''/w/7.mon''"
  by (simp_all add: demo_mon_sys_def all_strings_def all_cmds_def demo_sys_def demo_gbls_def gbls_zero_def cmd_at_def
      cmd_strings_def str_res_def demo_cmd_def demo_tty_def tty_clean_def tty_zero_def)

theorem yarfs_sizes_exact_witness:
  "\<exists>b st rd. op_stat (yarfs_ops alist_ops demo_lib demo_mon_sys) Fs_ttys_ops
      (file_init 5 ROOT_INO D_null ''ttys'' REGULAR True Fs_ttys_ops) stat_zero = Inr st \<and> st_size st = length b
    \<and> op_read (yarfs_ops alist_ops demo_lib demo_mon_sys) Fs_ttys_ops = Some rd
    \<and> (\<forall>sz. rd sz 0 = Inr (Reply_buf (take sz b)))"
  by (rule yarfs_sizes_exact[OF demo_mon_strings]) simp

text \<open>C18: reading the list of ttys in consecutive pieces of any size gives back the whole
  listing: a line of link, pid, \<open>cmd\<close>, name and command line for every command in the order of
  the table, one for the broadcast tty with the number of commands, and one for the monitor.\<close>

theorem ttys_read_in_pieces:
  assumes "all_strings H s = Inr xs" "tty_link (g_bcsttty (s_gbls s)) = Some blink"
    "tty_link (m_tty (g_mon (s_gbls s))) = Some mlink"
    and b: "b = concat (map (\<lambda>(nm, link, cl). link @ '','' @ pid_str s @ '',cmd,'' @ nm @ '','' @ cl @ [newline]) xs)
           @ blink @ '','' @ pid_str s @ '',bcst,'' @ cmdcnt_str H s @ '','' @ [newline]
           @ mlink @ '','' @ pid_str s @ '',mon,,'' @ [newline]"
    and "n * sz < 2 ^ 63" "length b \<le> n * sz"
  shows "\<exists>ps. map_res (\<lambda>i. synth_read (fs_ttys_buf H s) sz (int (i * sz))) [0..<n] = Inr (map Reply_buf ps)
    \<and> concat ps = b"
proof -
  have t: "ttys_text H s b" using assms by (auto simp: ttys_text_def cmds_lines_def)
  from ttys_file.read_pieces[OF t assms(5,6)] show ?thesis
    by (intro exI[of _ "map (\<lambda>i. take sz (drop (i * sz) b)) [0..<n]"]) (simp add: comp_def)
qed

theorem ttys_read_in_pieces_witness:
  "\<exists>ps. map_res (\<lambda>i. synth_read (fs_ttys_buf alist_ops demo_mon_sys) 4096 (int (i * 4096))) [0..<1] =
      Inr (map Reply_buf ps)
    \<and> concat ps = ''/w/a,7,cmd,a,cat'' @ newline # ''/w/bcsttty,7,bcst,1,'' @ newline # ''/w/7.mon,7,mon,,'' @ [newline]"
proof -
  have "char_of (55::nat) = CHR ''7''" "char_of (49::nat) = CHR ''1''" by code_simp+
  then have p: "pid_str demo_mon_sys = ''7''" "cmdcnt_str alist_ops demo_mon_sys = ''1''"
    by (simp_all add: pid_str_def cmdcnt_str_def demo_mon_sys_def demo_sys_def demo_gbls_def gbls_zero_def
        dec_int_def dec_digits.simps)
  show ?thesis
    using ttys_read_in_pieces[OF demo_mon_strings refl, of 1 4096] p by simp
qed

text \<open>C39: an inode that a removed file has given back keeps pointing at it (\<open>inofree\<close> leaves
  \<open>id->file\<close> set), and the allocator refuses such an inode: after a file has been removed from
  a directory, creating any file aborts in \<open>inoalloc\<close>.\<close>

theorem create_after_remove_aborts:
  assumes "uthash H items" "fs_built items fs dirp dd is" "(n, p) \<in> set (items (nm_files dd))"
    "length (items (nm_files dd)) > 1"
  shows "\<exists>fs'. fsRemoveitem H p True fs = Inr (True, fs')
    \<and> (\<forall>m ops. fsCreatefile H ROOT_INO m None ops fs' = Inl (Assert ''inoalloc''))"
proof -
  have flat: "flat_fs items fs dirp dd is" and inv: "dir_inv items fs dirp dd"
    using assms(2) by (simp_all add: fs_built_def flat_fs_def)
  obtain g where g: "file_at fs p = Inr g" "f_ino g < length (fs_ino_table fs)"
    "id_file (fs_ino_table fs ! f_ino g) = Some p"
    using inv assms(3) unfolding dir_inv_def entry_inv_def by fastforce
  from uthash.flat_remove[OF assms(1) flat assms(3) g(1)] obtain fs' dd' where r:
    "fsRemoveitem H p True fs = Inr (True, fs')" "length (fs_ino_table fs') = length (fs_ino_table fs)"
    "\<forall>j < length (fs_ino_table fs). id_file (fs_ino_table fs' ! j) = id_file (fs_ino_table fs ! j)"
    "items (nm_files dd') = filter (\<lambda>(_, q). q \<noteq> p) (items (nm_files dd))"
    "if items (nm_files dd') = [] then no_files fs' \<and> ino_pool fs' (ROOT_INO # f_ino g # is)
     else flat_fs items fs' dirp dd' (f_ino g # is)
       \<and> (\<forall>q. q \<noteq> p \<and> q \<noteq> dirp \<longrightarrow> file_at fs' q = file_at fs q)" by blast
  have "distinct (map snd (items (nm_files dd)))" using inv by (simp add: dir_inv_def items_ok_def)
  moreover obtain x y rest where xy: "items (nm_files dd) = x # y # rest"
    using assms(4) by (cases "items (nm_files dd)"; cases "tl (items (nm_files dd))") auto
  ultimately have "items (nm_files dd') \<noteq> []"
    unfolding r(4) by (cases x; cases y) auto
  then have pool: "ino_pool fs' (f_ino g # is)" using r(5) by (simp add: flat_fs_def)
  then have fl: "fs_ino_freelist fs' = Some (f_ino g)" "fs_ino_table fs' \<noteq> []"
    "fs_ino_num fs' = length (fs_ino_table fs')"
    by (cases "fs_ino_freelist fs'"; auto simp: ino_pool_def)+
  have "id_file (fs_ino_table fs' ! f_ino g) = Some p" using r(3) g by simp
  then have "inoalloc fs' = Inl (Assert ''inoalloc'')"
    using fl g(2) r(2) by (simp add: inoalloc_def ino2inodesc_def Let_def assert_res_def)
  then have "fsCreatefile H ROOT_INO m None ops fs' = Inl (Assert ''inoalloc'')" for m ops
    by (simp add: fsCreatefile_def new_inode_def)
  then show ?thesis using r(1) by blast
qed

theorem create_after_remove_aborts_witness:
  "\<exists>fs p fs'. fsCreate alist_ops True True True 9 (yarfsCreate alist_ops) (fsInit fs_zero (Some ''/w/1.fs'')) = Inr (True, fs)
    \<and> fsRemoveitem alist_ops p True fs = Inr (True, fs')
    \<and> (\<forall>m ops. fsCreatefile alist_ops ROOT_INO m None ops fs' = Inl (Assert ''inoalloc''))"
proof -
  from uthash.fsCreate_built[OF alist.uthash_axioms, of 9 fs_zero "''/w/1.fs''"] obtain fs dd where c:
    "fsCreate alist_ops True True True 9 (yarfsCreate alist_ops) (fsInit fs_zero (Some ''/w/1.fs'')) = Inr (True, fs)"
    "fs_built (\<lambda>t. t) fs 0 dd [7..<INO_NUM]" "map fst (nm_files dd) = map fst yarfs_files" by auto
  have len: "length (nm_files dd) > 1"
    using arg_cong[OF c(3), of length] unfolding length_map by (simp add: yarfs_files_def)
  then obtain n p where "(n, p) \<in> set (nm_files dd)" by (cases "nm_files dd") auto
  from create_after_remove_aborts[OF alist.uthash_axioms c(2) this len] c(1) show ?thesis by blast
qed

end
