(* ===== verification/LifeProps.thy ===== *)
theory LifeProps
  imports TypeInv Ready YarFsLife
begin

text \<open>
  What the refinement gives: the processes of the program from its first step to its last,
  and the signals it sends.
\<close>

section \<open>The whole program\<close>


definition demo_boot :: boot where
  "demo_boot = \<lparr>b_pid = 7, b_cwd = Some ''/w'', b_daemon = True, b_stdin = True, b_stdout = True, b_stderr = True,
     b_fdopen = True, b_mkdir = True, b_session = True, b_mount = True, b_fuse_fd = 5, b_epollfd = 4\<rparr>"

text \<open>The shortest run: an option the program does not know ends it.\<close>

lemma yar_usage_run:
  "\<exists>s'. yar_main alist_ops (\<lambda>_. (0, 0)) demo_lib demo_boot [(CHR ''h'', [])] [] [] kern0 = Inl (Exited 1 s')"
proof -
  obtain s where i: "GBLSInit alist_ops kern0 = Inr s"
    by (simp add: GBLSInit_def ttyInit_def gbls_zero_def mon_zero_def tty_zero_def monInit_def
        sigprocInit_def sys_newfd_def kern0_def)
  have "parse_opt (\<lambda>_. (0, 0)) (CHR ''h'') [] s = (False, s)" by (simp add: parse_opt_def)
  then show ?thesis by (simp add: yar_main_def i argsParse_def)
qed


text \<open>C2: every run keeps its types. For every table that is one, whatever the options, the
  command specifications, the answers of the system and the events delivered, when the
  program leaves (by \<open>exit\<close> in any handler, with its clean-up) or is still in its loop: every
  command object, the monitor and the broadcast tty have buffers of their full size, ring
  positions and counts within range and no negative number of opens; the table holds
  each name and each address at most once; every entry leads to a command that has not been
  freed and carries the name of its entry; and every command object in use is in the table, so
  none is lost.\<close>

theorem yar_keeps_types:
  assumes "uthash H items"
    and "fin (\<lambda>s. s) (yar_main H strtod L b opts args ws k) = Some s'"
  shows "all_ok items s'"
  using assms by (rule whole_ok)

theorem yar_keeps_types_witness:
  "\<exists>s'. fin (\<lambda>s. s) (yar_main alist_ops (\<lambda>_. (0, 0)) demo_lib demo_boot [(CHR ''h'', [])] [] [] kern0) = Some s'
    \<and> all_ok (\<lambda>t. t) s'"
proof -
  from yar_usage_run obtain s' where
    "fin (\<lambda>s. s) (yar_main alist_ops (\<lambda>_. (0, 0)) demo_lib demo_boot [(CHR ''h'', [])] [] [] kern0) = Some s'"
    by (metis fin_simps(2))
  with yar_keeps_types[OF alist.uthash_axioms this] show ?thesis by blast
qed

section \<open>The loop\<close>

text \<open>A command whose client opens and closes its tty.\<close>

definition demo_session :: "(string \<times> ptr) list sys" where
  "demo_session =
     put_cmd 0 (demo_cmd\<lparr>c_clttty := (demo_tty 11 ''/w/a'')\<lparr>tty_opens := 0, tty_ifd := 21, tty_iwd := 1,
         tty_ifded := \<lparr>hdlr = Some H_ttyNotifyEvent, obj = Some (O_tty (T_clttty 0))\<rparr>,
         tty_ned := \<lparr>hdlr = Some H_cmdCltttyNotify, obj = Some (O_cmd 0)\<rparr>\<rparr>\<rparr>)
       (with_kern (kern0\<lparr>k_inev := (\<lambda>f. if f = 21 then [(1, IN_OPEN), (1, IN_CLOSE_WRITE)] else []),
                         k_poll := [P_timeout]\<rparr>)
         (upd_gbls (\<lambda>g. g\<lparr>g_bcsttty := (demo_tty 12 ''/w/bcsttty'')\<lparr>tty_opens := 0\<rparr>\<rparr>) (demo_sys [])))"

lemmas demo_session_eval = demo_session_def demo_sys_def demo_cmd_def demo_gbls_def demo_tty_def kern0_def
  cmd_zero_def gbls_zero_def tty_clean_def tty_zero_def put_cmd_def with_kern_def upd_gbls_def cmd_at_def

lemmas session_eval = demo_session_eval ttyNotifyEvent_def ed_at_def tty_at_def call_hdlr_def ttyNotifyCount_def
  sys_read_inotify_def put_tty_def call_ned_def cmdCltttyNotify_def cmdStart_def cmdIsRunning_def sys_fork_def
  sys_newfd_def tick_def cmdRegisterProcessEvents_def sys_epoll_add_def login_shell_def has_def clear_def
  EPOLLIN_def IN_OPEN_def IN_CLOSE_WRITE_def IN_CLOSE_NOWRITE_def cmdStop_def cmd_idle_def ttyIdle_def
  ttyIsClttty_def ttyDomInQCnt_def send_stopstr_def drop_ready_def cmdIsReady_def pidfd_unwatch_def
  decCmdsReadyCnt_def sys_epoll_del_def kill_cmd_def sys_kill_def sys_waitid_def sys_close_def cmdDump_def
  sys_ioctl_inq_def

lemma demo_session_run:
  "\<exists>s'. fin snd (loop_rounds alist_ops (\<lambda>_. (0, 0)) L 4
      [EP_events [(Ed_ifded (T_clttty 0), EPOLLIN)], EP_events [(Ed_ifded (T_clttty 0), EPOLLIN)]] demo_session) = Some s'
    \<and> map sp_pid (k_procs (s_kern s')) = [101] \<and> k_kills (s_kern s') = [(101, SIGTERM), (101, SIGKILL)]"
  by (simp add: session_eval Let_def)

text \<open>C6: signals stay in the family. If before some rounds of the event loop every command's
  process and every process signalled is one the program started, it is so afterwards, whatever
  happened in between: the program never signals a process it has not started, and sends
  nothing but \<open>SIGTERM\<close> and \<open>SIGKILL\<close>.\<close>

theorem loop_signals_own:
  assumes "fin snd (loop_rounds H strtod L ep ws s) = Some s'" "life_own (life_of s)"
  shows "life_own (life_of s')
    \<and> set (k_kills (s_kern s')) \<subseteq> sp_pid ` set (k_procs (s_kern s')) \<times> {SIGTERM, SIGKILL}"
proof -
  have "life_own (life_of s')"
    using lf.rel_loop_rounds[OF assms(1)] assms(2) by (auto simp: evolves_def intro: life_steps_own)
  then show ?thesis by (auto simp: life_own_def life_of_def)
qed

theorem loop_signals_own_witness:
  "\<exists>s'. fin snd (loop_rounds alist_ops (\<lambda>_. (0, 0)) demo_lib 4
      [EP_events [(Ed_ifded (T_clttty 0), EPOLLIN)], EP_events [(Ed_ifded (T_clttty 0), EPOLLIN)]] demo_session) = Some s'
    \<and> life_own (life_of s') \<and> k_kills (s_kern s') = [(101, SIGTERM), (101, SIGKILL)]"
proof -
  have "life_own (life_of demo_session)"
    by (simp add: demo_session_eval life_own_def life_of_def pid_state_def split: sum.splits if_splits option.splits)
  with demo_session_run[of demo_lib] loop_signals_own show ?thesis by meson
qed

end
