(* ===== verification/ExitProps.thy ===== *)
theory ExitProps
  imports LifeProps
begin

text \<open>
  What the program leaves when it exits. Once \<open>atexit\<close> has been called every exit goes through
  \<open>cleanup\<close>: this is shown for each part of the program, from the handlers up to \<open>main\<close>. With
  the invariant of the whole program it follows that no command is left.
\<close>

section \<open>Every exit cleans up\<close>

definition clean_exit :: "'h hashops \<Rightarrow> 'h stop + 'a \<Rightarrow> bool" where
  "clean_exit H m \<longleftrightarrow> (\<forall>n s'. m = Inl (Exited n s') \<longrightarrow> (\<exists>t. cleanup H t = Inr s'))"

named_theorems clean_intros \<open>parts of the program that exit only through the clean-up\<close>

lemma clean_Inr [clean_intros]: "clean_exit H (Inr x)"
  and clean_fault [clean_intros]: "clean_exit H (Inl (Fault e))"
  and clean_lift [clean_intros]: "clean_exit H (lift_res m)"
  by (auto simp: clean_exit_def lift_res_def split: sum.splits)

lemma clean_bind [clean_intros]: "clean_exit H m \<Longrightarrow> (\<And>x. clean_exit H (f x)) \<Longrightarrow> clean_exit H (bind_res m f)"
  unfolding clean_exit_def bind_res_eq_Inl by blast

lemma clean_assert [clean_intros]: "clean_exit H (f ()) \<Longrightarrow> clean_exit H (assert_stop b site f)"
  by (auto simp: assert_stop_def clean_exit_def)

lemma clean_if [clean_intros]: "clean_exit H m \<Longrightarrow> clean_exit H m' \<Longrightarrow> clean_exit H (if b then m else m')"
  by simp

lemma clean_pair [clean_intros]: "(\<And>x y. clean_exit H (f x y)) \<Longrightarrow> clean_exit H (case z of (x, y) \<Rightarrow> f x y)"
  by (cases z) simp

lemma clean_option [clean_intros]:
  "clean_exit H m \<Longrightarrow> (\<And>x. clean_exit H (f x)) \<Longrightarrow> clean_exit H (case z of None \<Rightarrow> m | Some x \<Rightarrow> f x)"
  by (cases z) simp_all

lemma clean_exit_with [clean_intros]: "clean_exit H (exit_with H n s)"
  by (auto simp: clean_exit_def exit_with_def bind_res_eq_Inl lift_res_eq_Inl lift_res_eq_Inr)

lemma clean_cleanup_and_exit [clean_intros]: "clean_exit H (cleanup_and_exit H s)"
  unfolding cleanup_and_exit_def by (intro clean_intros)

lemma clean_cmd_delete_on_exit [clean_intros]: "clean_exit H (cmd_delete_on_exit H p s)"
  unfolding cmd_delete_on_exit_def Let_def by (intro clean_intros)

lemma clean_cmdPidEvent [clean_intros]: "clean_exit H (cmdPidEvent H p evnts ep s)"
  unfolding cmdPidEvent_def by (intro clean_intros)

lemma clean_monIdleExit [clean_intros]: "clean_exit H (monIdleExit H s)"
  unfolding monIdleExit_def Let_def by (intro clean_intros)

lemma clean_bcstttyCreate_or_exit [clean_intros]: "clean_exit H (bcstttyCreate_or_exit H s)"
  unfolding bcstttyCreate_or_exit_def by (intro clean_intros)

lemma clean_mon_add_bcst [clean_intros]: "clean_exit H (mon_add_bcst H p ep s)"
  unfolding mon_add_bcst_def by (intro clean_intros)

lemma clean_monAdd [clean_intros]: "clean_exit H (monAdd H strtod args ep s)"
  unfolding monAdd_def by (intro clean_intros)

lemma clean_monDel [clean_intros]: "clean_exit H (monDel H args s)"
  unfolding monDel_def by (intro clean_intros)

lemma clean_mon_dispatch [clean_intros]: "clean_exit H (mon_dispatch H strtod cmd args ep s)"
  unfolding mon_dispatch_def by (cases cmd) (simp_all add: clean_intros)

lemma clean_monProcess [clean_intros]: "clean_exit H (monProcess H strtod ep s)"
  unfolding monProcess_def Let_def by (intro clean_intros)

lemma clean_monEvent [clean_intros]: "clean_exit H (monEvent H strtod evnts ep s)"
  unfolding monEvent_def Let_def by (intro clean_intros)

lemma clean_call_hdlr [clean_intros]: "clean_exit H (call_hdlr H strtod L ed evnts ep s)"
  by (auto simp: call_hdlr_def intro: clean_intros split: option.split evnthdlr_t.split objref.split ttyref.split)

lemma clean_dispatch_events [clean_intros]: "clean_exit H (dispatch_events H strtod L ep es s)"
proof (induction es arbitrary: s)
  case (Cons x es)
  have "clean_exit H (case erc of EVNT_HDLR_EXIT_LOOP \<Rightarrow> Inr (Some True, t) | EVNT_HDLR_FAILED \<Rightarrow> Inr (Some False, t)
     | EVNT_HDLR_SUCCESS \<Rightarrow> dispatch_events H strtod L ep es t)" for erc t
    by (cases erc) (simp_all add: clean_intros Cons.IH)
  then show ?case by (cases x) (auto intro!: clean_intros)
qed (simp add: clean_intros)

lemma clean_loop_rounds [clean_intros]: "clean_exit H (loop_rounds H strtod L ep ws s)"
proof (induction ws arbitrary: s)
  case (Cons w ws)
  then show ?case by (cases w) (auto intro!: clean_intros)
qed (simp add: clean_intros)

lemma clean_theLoop [clean_intros]: "clean_exit H (theLoop H strtod L ep ws s)"
  unfolding theLoop_def by (intro clean_intros)

lemma clean_main [clean_intros]:
  "clean_exit H (main_mon H b s)" "clean_exit H (main_fs H b s)" "clean_exit H (main_bcst H s)"
  unfolding main_mon_def main_fs_def main_bcst_def Let_def by (intro clean_intros)+

section \<open>What is left\<close>

lemma cleanup_cmd_live:
  assumes "cleanup_cmd H p s = Inr s'"
  shows "\<exists>c. cmd_at s p = Inr c" "cmd_at s' q = Inr c \<Longrightarrow> q \<noteq> p \<and> (\<exists>c. cmd_at s q = Inr c)"
proof -
  from assms obtain b s1 where r: "cmdCleanup p s = Inr (b, s1)"
    "free_cmd p (upd_gbls (\<lambda>g. g\<lparr>g_cmds := hh_del H (g_cmds g) p\<rparr>) s1) = Inr s'"
    by (auto simp: cleanup_cmd_def bind_res_eq_Inr)
  from r(1) obtain b1 s2 c1 where st: "cmdStop p (-1) True s = Inr (b1, s2)" "cmd_at s2 p = Inr c1"
    by (auto simp: cmdCleanup_def res_dest)
  note k = keep_cmdStop[OF st(1)]
  show "\<exists>c. cmd_at s p = Inr c" using keep_at_back[OF k st(2)] by blast
  assume q: "cmd_at s' q = Inr c"
  then have qp: "q \<noteq> p" "cmd_at s1 q = Inr c" by (auto simp: cmd_at_free[OF r(2)] split: if_splits)
  moreover have "cmd_at s1 q = cmd_at s2 q"
    using r(1) st qp(1) cmd_at_bound[OF st(2)] by (auto simp: cmdCleanup_def split: prod.splits)
  ultimately show "q \<noteq> p \<and> (\<exists>c. cmd_at s q = Inr c)" using keep_at_back[OF k, of q c] by auto
qed

lemma cleanup_all_live:
  "fold_res (cleanup_cmd H) ps s = Inr s' \<Longrightarrow> p \<in> set ps \<Longrightarrow> \<exists>c. cmd_at s p = Inr c"
proof (induction ps arbitrary: s)
  case (Cons q ps)
  then obtain s1 where r: "cleanup_cmd H q s = Inr s1" "fold_res (cleanup_cmd H) ps s1 = Inr s'"
    by (auto simp: bind_res_eq_Inr)
  then show ?case using Cons cleanup_cmd_live[OF r(1)] by auto
qed simp

context uthash
begin

lemma cleanup_cmd_iter:
  assumes "cleanup_cmd H p s = Inr s'" "p \<in> set (hh_iter H (g_cmds (s_gbls s)))"
  shows "hh_iter H (g_cmds (s_gbls s')) = filter (\<lambda>q. q \<noteq> p) (hh_iter H (g_cmds (s_gbls s)))"
proof -
  from assms(1) obtain b s1 b1 s2 c1 where r: "cmdCleanup p s = Inr (b, s1)" "cmdStop p (-1) True s = Inr (b1, s2)"
    "cmd_at s2 p = Inr c1" "free_cmd p (upd_gbls (\<lambda>g. g\<lparr>g_cmds := hh_del H (g_cmds g) p\<rparr>) s1) = Inr s'"
    by (auto simp: cleanup_cmd_def cmdCleanup_def bind_res_eq_Inr)
  have "g_cmds (s_gbls s2) = g_cmds (s_gbls s)" using keep_cmdStop[OF r(2)] by (simp add: keep_def)
  then have "g_cmds (s_gbls s1) = g_cmds (s_gbls s)" using r(1-3) by (auto simp: cmdCleanup_def split: prod.splits)
  then show ?thesis using iter_del[OF assms(2)] by (simp add: gbls_free[OF r(4)])
qed

text \<open>A command freed twice would have stopped the program, so the table is empty afterwards.\<close>

lemma cleanup_all_iter:
  "fold_res (cleanup_cmd H) ps s = Inr s' \<Longrightarrow> hh_iter H (g_cmds (s_gbls s)) = ps \<Longrightarrow> hh_iter H (g_cmds (s_gbls s')) = []"
proof (induction ps arbitrary: s)
  case (Cons p ps)
  then obtain s1 where r: "cleanup_cmd H p s = Inr s1" "fold_res (cleanup_cmd H) ps s1 = Inr s'"
    by (auto simp: bind_res_eq_Inr)
  have "p \<notin> set ps" using cleanup_all_live[OF r(2), of p] cleanup_cmd_live(2)[OF r(1), of p] by blast
  moreover have "hh_iter H (g_cmds (s_gbls s1)) = filter (\<lambda>q. q \<noteq> p) (p # ps)"
    using cleanup_cmd_iter[OF r(1)] Cons.prems(2) by simp
  ultimately have "hh_iter H (g_cmds (s_gbls s1)) = ps" by (auto simp: filter_id_conv)
  with r(2) show ?case by (rule Cons.IH)
qed simp

lemma cleanup_iter:
  assumes "cleanup H s = Inr s'"
  shows "items (g_cmds (s_gbls s')) = []"
proof -
  obtain s1 where r: "fold_res (cleanup_cmd H) (hh_iter H (g_cmds (s_gbls (cleanup_bcst s)))) (cleanup_bcst s) = Inr s1" "frame s1 s'"
    using assms by (rule cleanup_parts)
  from cleanup_all_iter[OF r(1)] r(2) show ?thesis by (simp add: iter_items frame_def)
qed

end

text \<open>Before \<open>atexit\<close> is called nothing has been added yet.\<close>

lemma yar_main_exits:
  assumes "yar_main H strtod L b opts args ws k = Inl (Exited n s')"
  shows "(\<exists>t. cleanup H t = Inr s') \<or> (\<exists>s. GBLSInit H k = Inr s \<and> g_cmds (s_gbls s') = g_cmds (s_gbls s))"
proof -
  obtain s where s: "GBLSInit H k = Inr s" using assms by (cases "GBLSInit H k") (auto simp: yar_main_def)
  obtain ok s1 where a: "argsParse strtod opts args s = (ok, s1)" by force
  let ?s2 = "upd_gbls (\<lambda>g. g\<lparr>g_pid := b_pid b, g_cwd := b_cwd b\<rparr>) s1"
  have g1: "g_cmds (s_gbls s1) = g_cmds (s_gbls s)" using frame_argsParse[OF a] by (simp add: frame_def)
  show ?thesis
  proof (cases ok)
    case False
    with assms s a g1 show ?thesis by (auto simp: yar_main_def)
  next
    case True
    show ?thesis
    proof (cases "main_log b ?s2")
      case (Inl z)
      with assms s a True obtain d where "s' = snd (logopen b d (upd_gbls (\<lambda>g. g\<lparr>g_logdir := d\<rparr>) ?s2))"
        by (auto simp: yar_main_def main_log_def Let_def case_prod_beta assert_stop_def bind_res_eq_Inl lift_res_eq_Inl
            simp del: upd_gbls_simps split: if_splits)
      then have "g_cmds (s_gbls s') = g_cmds (s_gbls s)" 
        using frame_logopen[of "upd_gbls (\<lambda>g. g\<lparr>g_logdir := d\<rparr>) ?s2" b d] g1 by (simp add: frame_def)
      with s show ?thesis by blast
    next
      case (Inr s3)
      have l: "bind_res (main_log b ?s2) f = f s3" for f :: "'a sys \<Rightarrow> 'a stop + 'a sys" by (simp add: Inr)
      have "clean_exit H (yar_main H strtod L b opts args ws k)"
        using s a True by (simp add: yar_main_def l del: upd_gbls_simps) (intro clean_intros)
      with assms show ?thesis by (simp add: clean_exit_def)
    qed
  qed
qed



end
