(* ===== verification/SpecProps.thy ===== *)
theory SpecProps
  imports CmdSpec CmdRelay
begin

text \<open>
  Which command specifications are accepted, and what they say.
\<close>

text \<open>The written form: four fields that end at a comma, and the command line.\<close>

definition spec_string :: "string \<Rightarrow> string \<Rightarrow> string \<Rightarrow> string \<Rightarrow> string \<Rightarrow> string" where
  "spec_string name link logp dtok cmdline =
     name @ '','' @ link @ '','' @ logp @ '','' @ dtok @ '','' @ cmdline"

definition comma_free :: "string \<Rightarrow> bool" where
  "comma_free str \<longleftrightarrow> CHR '','' \<notin> set str"

lemma next_field_comma [simp]: "comma_free tok \<Longrightarrow> next_field (tok @ CHR '','' # rest) = Some (tok, rest)"
proof -
  assume "comma_free tok"
  then have "strsep (tok @ CHR '','' # rest) = (tok, Some rest)" by (induction tok) (auto simp: comma_free_def)
  then show ?thesis by (simp add: next_field_def)
qed

lemma next_field_SomeD: "next_field str = Some (tok, rest) \<Longrightarrow> str = tok @ CHR '','' # rest \<and> comma_free tok"
proof -
  have "strsep str = (tok, Some rest) \<Longrightarrow> str = tok @ CHR '','' # rest \<and> comma_free tok" for str tok
    by (induction str arbitrary: tok) (auto simp: comma_free_def split: if_splits prod.splits)
  then show "next_field str = Some (tok, rest) \<Longrightarrow> str = tok @ CHR '','' # rest \<and> comma_free tok"
    by (auto simp: next_field_def split: prod.splits option.splits)
qed




end
