(* ===== verification/CmdProps.thy ===== *)
theory CmdProps
  imports LifeOps Ready
begin

text \<open>
  What the operations on one command do: the delays it asks for, the dump of its buffer, the
  start and the end of its process, and the count of commands that are ready.
\<close>

section \<open>Delays and dumps\<close>



lemma dump_len_eq:
  "dump_len st = (let q = int (st mod 256) in if q \<le> 128 then - q else 256 - q)"
proof -
  define q where "q = int (st mod 256)"
  have q: "0 \<le> q" "q < 256" "int st mod 256 = q" by (simp_all add: q_def zmod_int)
  have "dump_len st = (int CMD_BUFSIZE - int st + 128) mod 256 - 128"
    unfolding dump_len_def int_word_sint by simp
  also have "(int CMD_BUFSIZE - int st + 128) mod 256 = (128 - q) mod 256"
  proof -
    have "(int CMD_BUFSIZE - int st + 128) mod 256 = ((int CMD_BUFSIZE + 128) - int st) mod 256" by (simp add: algebra_simps)
    also have "\<dots> = ((int CMD_BUFSIZE + 128) mod 256 - int st mod 256) mod 256" by (rule mod_diff_eq[symmetric])
    also have "\<dots> = (128 - q) mod 256" by (simp add: q(3) CMD_BUFSIZE_def)
    finally show ?thesis .
  qed
  also have "(128 - q) mod 256 = (if q \<le> 128 then 128 - q else 384 - q)"
  proof (cases "q \<le> 128")
    case False
    have "(128 - q) mod 256 = (128 - q + 256) mod 256" by (rule mod_add_self2[symmetric])
    also have "\<dots> = 384 - q" using False q by (simp add: mod_pos_pos_trivial)
    finally show ?thesis using False by simp
  qed (use q in \<open>simp add: mod_pos_pos_trivial\<close>)
  finally show ?thesis by (simp add: Let_def q_def)
qed

lemma dump_len_neg: "dump_len st < 0 \<longleftrightarrow> 0 < st mod 256 \<and> st mod 256 \<le> 128"
  by (auto simp: dump_len_eq Let_def)

lemma dump_len_le:
  assumes "st < CMD_BUFSIZE"
  shows "dump_len st \<le> int CMD_BUFSIZE - int st"
proof (cases "st < 3840")
  case True
  have "dump_len st \<le> 256" by (simp add: dump_len_eq Let_def)
  with True show ?thesis by (simp add: CMD_BUFSIZE_def)
next
  case False
  then obtain r where r: "st = 3840 + r" "r < 256" using assms
    by (auto simp: CMD_BUFSIZE_def) (metis add_less_cancel_left le_add_diff_inverse not_le numeral_plus_numeral semiring_norm)
  have "st mod 256 = r" unfolding r(1) using r(2) by (simp add: mod_add_left_eq[of 3840 256, symmetric])
  then show ?thesis using r by (simp add: dump_len_eq Let_def CMD_BUFSIZE_def)
qed

lemma cmdDump_wrapped:
  assumes "cmdbufWrapped (c_bufn c)" "dump_len (cmdbufDataStart (c_bufn c)) = n"
  shows "cmdDump addr c =
    bind_res (hexdump (addr + cmdbufDataStart (c_bufn c)) (drop (cmdbufDataStart (c_bufn c)) (c_buf c)) (nat (n mod 2 ^ 64)))
      (\<lambda>(out, _). bind_res (hexdump addr (c_buf c) (nat ((int CMD_BUFSIZE - n) mod 2 ^ 64)))
      (\<lambda>(out', _). Inr (out @ out')))"
proof -
  have "c_bufn c \<noteq> 0" using assms(1) by (auto simp: cmdbufWrapped_def CMD_BUFSIZE_def)
  then show ?thesis using assms by (simp add: cmdDump_def Let_def)
qed

text \<open>C35: \<open>cmdDump\<close> reads past the end of the line buffer for half of the fill levels of a buffer
  that has wrapped: the length of the older part is kept in a \<open>char\<close>, so when its low eight bits
  read as a negative number the rest is taken to be longer than the buffer. It is safe exactly
  when the buffer has not wrapped or the count of bytes modulo 256 is 0 or above 128.\<close>

theorem cmdDump_overrun:
  assumes "length (c_buf c) = CMD_BUFSIZE"
  shows "if CMD_BUFSIZE \<le> c_bufn c \<and> c_bufn c mod 256 \<in> {1..128}
    then cmdDump addr c = Inl OutOfBounds else \<exists>out. cmdDump addr c = Inr out"
proof -
  let ?st = "cmdbufDataStart (c_bufn c)"
  have ok: "\<exists>out. hexdump a m n = Inr (out, n)" if "n \<le> length m" "n \<le> CMD_BUFSIZE" for a m n
    using hexdump_ref[OF that(1)] that(2) by (simp add: CMD_BUFSIZE_def)
  show ?thesis
  proof (cases "cmdbufWrapped (c_bufn c)")
    case False
    then have "c_bufn c < CMD_BUFSIZE" by (simp add: cmdbufWrapped_def)
    with False ok[of "c_bufn c" "c_buf c" addr] assms show ?thesis by (auto simp: cmdDump_def)
  next
    case True
    have st: "?st < CMD_BUFSIZE" "?st mod 256 = c_bufn c mod 256" "CMD_BUFSIZE \<le> c_bufn c"
      using True by (simp_all add: cmdbufDataStart_def cmdbufNtoI_def cmdbufWrapped_def CMD_BUFSIZE_def mod_mod_cancel)
    define n where "n = dump_len ?st"
    note eq = cmdDump_wrapped[OF True n_def[symmetric], of addr]
    have neg: "n < 0 \<longleftrightarrow> c_bufn c mod 256 \<in> {1..128}" using dump_len_neg[of ?st] st(2) by (auto simp: n_def)
    show ?thesis
    proof (cases "n < 0")
      case False
      define l where "l = nat n"
      have n: "n = int l" "l \<le> CMD_BUFSIZE - ?st" using False dump_len_le[OF st(1)] by (auto simp: l_def n_def)
      then have l: "l \<le> CMD_BUFSIZE" by linarith
      from n have m: "nat (n mod 2 ^ 64) = l" "nat ((int CMD_BUFSIZE - n) mod 2 ^ 64) = CMD_BUFSIZE - l"
        by (simp_all add: CMD_BUFSIZE_def of_nat_diff)
      have "\<exists>out. cmdDump addr c = Inr out"
        using ok[of l "drop ?st (c_buf c)" "addr + ?st"] ok[of "CMD_BUFSIZE - l" "c_buf c" addr] assms n(2) l
        unfolding eq m by auto
      then show ?thesis using neg False by auto
    next
      case neg': True
      have b: "- 128 \<le> n" by (auto simp: n_def dump_len_eq Let_def)
      let ?b = "nat ((int CMD_BUFSIZE - n) mod 2 ^ 64)"
      have "?b = nat (int CMD_BUFSIZE - n)" using neg' b by (simp add: CMD_BUFSIZE_def)
      then have "hexdump addr (c_buf c) ?b = Inl OutOfBounds"
        using neg' b assms by (intro hexdump_overrun) (simp_all add: CMD_BUFSIZE_def)
      then have "cmdDump addr c = Inl OutOfBounds"
        unfolding eq by (auto simp: bind_res_def split: sum.splits dest: hexdump_err)
      then show ?thesis using neg neg' st(3) by simp
    qed
  qed
qed

theorem cmdDump_overrun_witness:
  "cmdDump 0 (cmd_zero\<lparr>c_bufn := 4097\<rparr>) = Inl OutOfBounds \<and> (\<exists>out. cmdDump 0 (cmd_zero\<lparr>c_bufn := 4096\<rparr>) = Inr out)"
  using cmdDump_overrun[of "cmd_zero\<lparr>c_bufn := 4097\<rparr>" 0] cmdDump_overrun[of "cmd_zero\<lparr>c_bufn := 4096\<rparr>" 0]
  by (simp add: cmd_zero_def CMD_BUFSIZE_def)
section \<open>Starting\<close>

lemma cmdStart_success:
  assumes "cmd_at s p = Inr c" "\<not> cmdIsRunning c" "c_cmdline c = Some line" "epollfd \<noteq> -1"
    and "tty_dfd (c_cmdtty c) \<noteq> -1" "tty_sfd (c_cmdtty c) \<noteq> -1"
    and "k_fork (s_kern s) (k_tick (s_kern s)) = Some cpid"
    and "k_newfd (s_kern s) (Suc (k_tick (s_kern s))) = Some f" "f \<noteq> -1"
  shows "\<exists>k. cmdStart p raw epollfd d s = Inr (True, put_cmd p (started p cpid f c) (with_kern k s))
    \<and> k_procs k = k_procs (s_kern s) @ [\<lparr>sp_pid = cpid, sp_tty = tty_path (c_cmdtty c), sp_raw = raw,
        sp_delay = max 0 d, sp_shell = login_shell (s_kern s), sp_cmdline = line\<rparr>]
    \<and> k_kills k = k_kills (s_kern s) \<and> k_open k = (k_open (s_kern s))(f := True)
    \<and> k_epoll k = (if k_epoll (s_kern s) f = None \<and> \<not> k_epfull (s_kern s) (Suc (Suc (k_tick (s_kern s))))
                   then (k_epoll (s_kern s))(f \<mapsto> Ed_pidfded p) else k_epoll (s_kern s))"
proof -
  have "p < length (s_heap s)" using assms(1) cmd_at_bound by blast
  then show ?thesis using assms
    by (auto simp: cmdStart_def sys_fork_def sys_newfd_def cmdRegisterProcessEvents_def sys_epoll_add_def
        started_def login_shell_def tick_def Let_def max_def)
qed


lemma demo_start:
  "cmd_at (demo_sys []) 0 = Inr demo_cmd" "\<not> cmdIsRunning demo_cmd" "c_cmdline demo_cmd = Some ''cat''"
  "tty_dfd (c_cmdtty demo_cmd) \<noteq> -1" "tty_sfd (c_cmdtty demo_cmd) \<noteq> -1"
  "k_fork (s_kern (demo_sys [])) (k_tick (s_kern (demo_sys []))) = Some 100"
  "k_newfd (s_kern (demo_sys [])) (Suc (k_tick (s_kern (demo_sys [])))) = Some 4"
  by (simp_all add: cmdIsRunning_def demo_sys_def cmd_at_def demo_cmd_def demo_tty_def tty_clean_def tty_zero_def kern0_def)


section \<open>Stopping\<close>

text \<open>The kernel after bytes have been sent through a descriptor, with pauses.\<close>

definition sent :: "fd \<Rightarrow> string \<Rightarrow> rat list \<Rightarrow> kern \<Rightarrow> kern \<Rightarrow> bool" where
  "sent f xs sl k k' \<longleftrightarrow>
     (\<exists>n. k' = k\<lparr>k_tick := n, k_out := (k_out k)(f := k_out k f @ xs), k_sleeps := k_sleeps k @ sl\<rparr>)"

text \<open>A command whose writes to its tty are taken: nothing but the tty's counters and the time
  of the last write changes.\<close>

definition rewritten :: "cmd_t \<Rightarrow> cmd_t \<Rightarrow> bool" where
  "rewritten c c' \<longleftrightarrow> (\<exists>w l. c' = c\<lparr>c_cmdtty := (c_cmdtty c)\<lparr>tty_wbytes := w\<rparr>, c_lastwrite := l\<rparr>)"

lemma rewritten_simps:
  assumes "rewritten c c'"
  shows "c_pid c' = c_pid c" "c_pidfd c' = c_pidfd c" "c_readycnt c' = c_readycnt c" "c_bufn c' = c_bufn c"
    "c_buf c' = c_buf c" "c_delay c' = c_delay c" "c_name c' = c_name c" "c_clttty c' = c_clttty c"
    "tty_dfd (c_cmdtty c') = tty_dfd (c_cmdtty c)" "tty_opens (c_cmdtty c') = tty_opens (c_cmdtty c)"
  using assms by (auto simp: rewritten_def)

lemma rewritten_trans: "rewritten c d \<Longrightarrow> rewritten d e \<Longrightarrow> rewritten c e"
  unfolding rewritten_def by (elim exE, hypsubst, intro exI) simp

lemma sent_trans: "sent f xs sl k k' \<Longrightarrow> sent f ys sm k' k'' \<Longrightarrow> sent f (xs @ ys) (sl @ sm) k k''"
  unfolding sent_def by (elim exE, hypsubst, intro exI) simp

lemma sentI: "k' = k\<lparr>k_tick := n, k_out := (k_out k)(f := k_out k f @ xs), k_sleeps := k_sleeps k @ sl\<rparr> \<Longrightarrow> sent f xs sl k k'"
  by (auto simp: sent_def)

lemma rewrittenI: "c' = c\<lparr>c_cmdtty := (c_cmdtty c)\<lparr>tty_wbytes := w\<rparr>, c_lastwrite := l\<rparr> \<Longrightarrow> rewritten c c'"
  by (auto simp: rewritten_def)

definition accepting :: "kern \<Rightarrow> bool" where
  "accepting k \<longleftrightarrow> writes_accepted k \<and> (\<forall>n. k_clock k n \<noteq> None)"

lemma sent_accepting: "sent f xs sl k k' \<Longrightarrow> accepting k' = accepting k"
  by (auto simp: sent_def accepting_def writes_accepted_def)

lemma cmdWriteChar_accepted:
  assumes "cmd_at s p = Inr c" "tty_opens (c_cmdtty c) \<noteq> 0" "accepting (s_kern s)"
  shows "\<exists>c' k'. cmdWriteChar p ch s = Inr (1, put_cmd p c' (with_kern k' s)) \<and> rewritten c c'
    \<and> sent (tty_dfd (c_cmdtty c)) [ch] [] (s_kern s) k'"
proof -
  obtain now where "k_clock (s_kern s) (Suc (k_tick (s_kern s))) = Some now" using assms(3) by (auto simp: accepting_def)
  moreover have "writes_accepted (s_kern s)" using assms(3) by (simp add: accepting_def)
  ultimately have w: "cmdWriteChar p ch s = Inr (1, put_cmd p (c\<lparr>c_cmdtty := (c_cmdtty c)\<lparr>tty_wbytes := tty_wbytes (c_cmdtty c) + 1\<rparr>,
      c_lastwrite := now\<rparr>) (with_kern ((s_kern s)\<lparr>k_out := (k_out (s_kern s))(tty_dfd (c_cmdtty c) := k_out (s_kern s) (tty_dfd (c_cmdtty c)) @ [ch]),
      k_tick := Suc (Suc (k_tick (s_kern s)))\<rparr>) s))"
    using assms(1,2)
    by (simp add: cmdWriteChar_def ttyWriteChar_def ttyWriteBuf_def sys_write_accepted sys_clock_def tick_def)
  have k: "sent (tty_dfd (c_cmdtty c)) [ch] [] k (k\<lparr>k_out := (k_out k)(tty_dfd (c_cmdtty c) := k_out k (tty_dfd (c_cmdtty c)) @ [ch]),
      k_tick := n\<rparr>)" for k n by (rule sentI[where n = n]) simp
  show ?thesis by (intro exI conjI) (rule w, rule rewrittenI, rule refl, rule k)
qed

lemma send_chars_accepted:
  assumes "cmd_at s p = Inr c" "tty_opens (c_cmdtty c) \<noteq> 0" "accepting (s_kern s)"
  shows "\<exists>c' k' sl. send_chars p xs s = Inr (put_cmd p c' (with_kern k' s)) \<and> rewritten c c'
    \<and> length sl = length xs \<and> sent (tty_dfd (c_cmdtty c)) xs sl (s_kern s) k'"
  using assms
proof (induction xs arbitrary: s c)
  case Nil
  have "put_cmd p c (with_kern (s_kern s) s) = s"
    using Nil.prems(1) by (auto simp: cmd_at_def put_cmd_def with_kern_def list_update_same_conv split: if_splits option.splits)
  moreover have "rewritten c c" unfolding rewritten_def by (rule exI[of _ "tty_wbytes (c_cmdtty c)"], rule exI[of _ "c_lastwrite c"]) simp
  moreover have "sent f [] [] k k" for f k by (rule sentI[where n = "k_tick k"]) simp
  ultimately show ?case by (metis list.size(3) send_chars.simps(1))
next
  case (Cons ch xs)
  from cmdWriteChar_accepted[OF Cons.prems] obtain c1 k1 where w:
    "cmdWriteChar p ch s = Inr (1, put_cmd p c1 (with_kern k1 s))" "rewritten c c1"
    "sent (tty_dfd (c_cmdtty c)) [ch] [] (s_kern s) k1" by blast
  note b = cmd_at_bound[OF Cons.prems(1)]
  let ?k = "delaysec (c_delay c1) k1"
  let ?s = "put_cmd p c1 (with_kern ?k s)"
  obtain x where "?k = k1\<lparr>k_sleeps := k_sleeps k1 @ [x]\<rparr>" by (simp add: delaysec_def Let_def)
  then have d: "sent (tty_dfd (c_cmdtty c)) [] [x] k1 ?k" by (intro sentI[where n = "k_tick k1"]) simp
  have sk: "sent (tty_dfd (c_cmdtty c)) [ch] [x] (s_kern s) ?k" using sent_trans[OF w(3) d] by simp
  have "cmd_at ?s p = Inr c1" "tty_opens (c_cmdtty c1) \<noteq> 0" "accepting (s_kern ?s)"
    using b Cons.prems(2,3) rewritten_simps[OF w(2)] sent_accepting[OF sk] by simp_all
  from Cons.IH[OF this] obtain c2 k2 sl where r: "send_chars p xs ?s = Inr (put_cmd p c2 (with_kern k2 ?s))"
    "rewritten c1 c2" "length sl = length xs" "sent (tty_dfd (c_cmdtty c1)) xs sl (s_kern ?s) k2" by blast
  have "send_chars p (ch # xs) s = Inr (put_cmd p c2 (with_kern k2 s))" using w(1) r(1) b by simp
  moreover have "rewritten c c2" using w(2) r(2) by (rule rewritten_trans)
  moreover have "sent (tty_dfd (c_cmdtty c)) (ch # xs) (x # sl) (s_kern s) k2"
    using sent_trans[OF sk] r(4) rewritten_simps[OF w(2)] by fastforce
  ultimately show ?case using r(3) by (metis length_Cons)
qed

text \<open>What \<open>cmdStop\<close> writes to the command: the stop string after a newline.\<close>

definition stop_bytes :: "cmd_t \<Rightarrow> 'h globals_t \<Rightarrow> string" where
  "stop_bytes c g = (case c_stopstr c of Some str \<Rightarrow> newline # str
     | None \<Rightarrow> (case g_stopstr g of Some str \<Rightarrow> newline # str | None \<Rightarrow> []))"

lemma send_stopstr_accepted:
  assumes "cmd_at s p = Inr c" "tty_opens (c_cmdtty c) \<noteq> 0" "accepting (s_kern s)"
  shows "\<exists>c' k' sl. send_stopstr p s = Inr (put_cmd p c' (with_kern k' s)) \<and> rewritten c c'
    \<and> sent (tty_dfd (c_cmdtty c)) (stop_bytes c (s_gbls s)) sl (s_kern s) k'"
proof (cases "case c_stopstr c of Some str \<Rightarrow> Some str | None \<Rightarrow> g_stopstr (s_gbls s)")
  case None
  then have "stop_bytes c (s_gbls s) = []" "send_stopstr p s = send_chars p [] s"
    using assms(1) by (auto simp: stop_bytes_def send_stopstr_def split: option.splits)
  then show ?thesis using send_chars_accepted[OF assms, of "[]"] by force
next
  case (Some str)
  from cmdWriteChar_accepted[OF assms] obtain c1 k1 where w:
    "cmdWriteChar p newline s = Inr (1, put_cmd p c1 (with_kern k1 s))" "rewritten c c1"
    "sent (tty_dfd (c_cmdtty c)) [newline] [] (s_kern s) k1" by blast
  note b = cmd_at_bound[OF assms(1)]
  let ?s = "put_cmd p c1 (with_kern k1 s)"
  have "cmd_at ?s p = Inr c1" "tty_opens (c_cmdtty c1) \<noteq> 0" "accepting (s_kern ?s)"
    using b assms(2,3) rewritten_simps[OF w(2)] sent_accepting[OF w(3)] by simp_all
  from send_chars_accepted[OF this, of str] obtain c2 k2 sl where r:
    "send_chars p str ?s = Inr (put_cmd p c2 (with_kern k2 ?s))" "rewritten c1 c2"
    "sent (tty_dfd (c_cmdtty c1)) str sl (s_kern ?s) k2" by blast
  have e: "stop_bytes c (s_gbls s) = [newline] @ str" using Some by (auto simp: stop_bytes_def split: option.splits)
  have "send_stopstr p s = Inr (put_cmd p c2 (with_kern k2 s))"
    using Some assms(1) w(1) r(1) b by (simp add: send_stopstr_def)
  moreover have "rewritten c c2" using w(2) r(2) by (rule rewritten_trans)
  moreover have "sent (tty_dfd (c_cmdtty c)) ([newline] @ str) ([] @ sl) (s_kern s) k2"
    using sent_trans[OF w(3)] r(3) rewritten_simps[OF w(2)] by fastforce
  ultimately show ?thesis unfolding e by blast
qed

lemma cmdDump_same: "c_buf c' = c_buf c \<Longrightarrow> c_bufn c' = c_bufn c \<Longrightarrow> cmdDump a c' = cmdDump a c"
  by (simp add: cmdDump_def)

lemma kill_wait_succeeds:
  assumes "P_err \<notin> set as" "\<forall>n. k_kill k n" "timeouts as = 0 \<or> (\<exists>out. cmdDump 0 c = Inr out)"
  shows "\<exists>k'. kill_wait as c k = Inr k' \<and> k_wait k' = k_wait k"
  using assms by (induction as c k rule: kill_wait.induct) (auto simp: sys_kill_def tick_def)

lemma kill_cmd_succeeds:
  assumes "P_err \<notin> set (k_poll k)" "\<forall>n. k_kill k n" "timeouts (k_poll k) = 0 \<or> (\<exists>out. cmdDump 0 c = Inr out)"
    and "\<forall>n. k_wait k n \<noteq> None"
  shows "\<exists>status k'. kill_cmd c k = Inr (status, k')"
proof -
  define k1 where "k1 = (tick k)\<lparr>k_kills := k_kills k @ [(c_pid c, SIGTERM)]\<rparr>"
  have k1: "sys_kill (c_pid c) SIGTERM k = (True, k1)" "k_poll k1 = k_poll k" "\<forall>n. k_kill k1 n" "k_wait k1 = k_wait k"
    using assms(2) by (simp_all add: sys_kill_def k1_def)
  from kill_wait_succeeds[of "k_poll k1" k1 c] assms(1,3) k1 obtain k2 where
    "kill_wait (k_poll k1) c k1 = Inr k2" "k_wait k2 = k_wait k" by auto
  moreover obtain w where "k_wait k (k_tick k2) = Some w" using assms(4) by blast
  ultimately show ?thesis using k1(1) by (auto simp: kill_cmd_def sys_waitid_def)
qed

lemma drop_ready_put:
  assumes "p < length (s_heap s)" "0 \<le> g_cmdsreadycnt (s_gbls s)"
    and "g_readystrlen (s_gbls s) \<noteq> 0 \<and> cmdIsReady (s_gbls s) c \<longrightarrow> 0 < g_cmdsreadycnt (s_gbls s)"
  shows "drop_ready site p (put_cmd p c (with_kern k s)) =
    Inr (put_cmd p (c\<lparr>c_readycnt := (if cmdIsReady (s_gbls s) c then 0 else c_readycnt c)\<rparr>)
      (with_kern k (s\<lparr>s_gbls := if cmdIsReady (s_gbls s) c then decCmdsReadyCnt (s_gbls s) else s_gbls s\<rparr>)))"
proof (cases "cmdIsReady (s_gbls s) c")
  case True
  have "0 \<le> g_cmdsreadycnt (decCmdsReadyCnt (s_gbls s))" using assms(2,3) True by (auto simp: decCmdsReadyCnt_def)
  then show ?thesis using True assms(1)
    by (simp add: drop_ready_def Let_def) (simp add: upd_gbls_def with_kern_def put_cmd_def)
qed (use assms(1) in \<open>simp add: drop_ready_def put_cmd_def with_kern_def cmd_at_def\<close>)


definition demo_running :: "(string \<times> ptr) list sys" where
  "demo_running = upd_gbls (\<lambda>g. g\<lparr>g_stopstr := Some ''exit''\<rparr>)
     (with_kern (kern0\<lparr>k_poll := [P_timeout, P_intr, P_ready], k_epoll := [9 \<mapsto> Ed_pidfded 0], k_open := (\<lambda>f. f = 9)\<rparr>)
       (put_cmd 0 (demo_cmd\<lparr>c_pid := 77, c_pidfd := 9\<rparr>) (demo_sys [])))"

lemma demo_running_simps:
  "cmd_at demo_running 0 = Inr (demo_cmd\<lparr>c_pid := 77, c_pidfd := 9\<rparr>)"
  "s_kern demo_running = kern0\<lparr>k_poll := [P_timeout, P_intr, P_ready], k_epoll := [9 \<mapsto> Ed_pidfded 0], k_open := (\<lambda>f. f = 9)\<rparr>"
  "s_gbls demo_running = demo_gbls\<lparr>g_stopstr := Some ''exit''\<rparr>"
  by (simp_all add: demo_running_def demo_sys_def)


section \<open>The death of a process\<close>



section \<open>The count of ready commands\<close>

lemma match_run_no_room:
  assumes "ready_state r j c g" "j < length r" "\<not> ready_room H g" "ready_run r j xs = length r"
  shows "match_run H xs (c, g) = Inl (Assert ''cmdttyProcessOutput'')"
  using assms
proof (induction xs arbitrary: j c)
  case (Cons ch xs)
  note step = match_ready_step[OF Cons.prems(1), of H ch]
  show ?case
  proof (cases "ready_step r j ch = length r")
    case True
    then show ?thesis using step Cons.prems(2,3) by simp
  next
    case False
    have rs: "ready_state r (ready_step r j ch) (c\<lparr>c_readycnt := int (ready_step r j ch)\<rparr>) g"
      using Cons.prems(1) ready_step_le[of j r ch] by (simp add: ready_state_def)
    have "ready_step r j ch < length r" using False Cons.prems(2) ready_step_le[of j r ch] by simp
    then show ?thesis using False step Cons.IH[OF rs] Cons.prems(3,4) by simp
  qed
qed simp

text \<open>C33: output that is still queued when a command stops is relayed afterwards, and can make the
  command ready while it has no process. \<open>cmdStart\<close> then forgets the match without taking the
  command off the count of ready commands, so the count is one too high: with every command
  counted as ready, the next time the restarted command writes its ready string an assertion
  fails and the program aborts.\<close>

theorem stale_ready_aborts:
  assumes "cmd_at s p = Inr c" "\<not> cmdIsRunning c" "ready_state r (length r) c (s_gbls s)"
    and "g_cmdsreadycnt (s_gbls s) = int (hh_count H (g_cmds (s_gbls s)))"
    and "hh_count H (g_cmds (s_gbls s)) < 2 ^ 32 - 1"
    and "cmdStart p raw epollfd d s = Inr (True, s')"
  shows "\<exists>c'. cmd_at s' p = Inr c' \<and> \<not> cmdIsReady (s_gbls s') c'
    \<and> match_run H r (c', s_gbls s') = Inl (Assert ''cmdttyProcessOutput'')"
proof -
  from assms(6) obtain cpid f k where s': "s' = put_cmd p (started p cpid f c) (with_kern k s)"
    by (cases rule: cmdStart_cases) (use assms(1) in auto)
  have g: "s_gbls s' = s_gbls s" by (simp add: s')
  note rs = assms(3)[unfolded ready_state_def]
  have "ready_state r 0 (started p cpid f c) (s_gbls s')" using rs by (simp add: ready_state_def g)
  moreover have "\<not> ready_room H (s_gbls s')"
    using assms(4,5) by (simp add: ready_room_def g)
  moreover have "ready_run r 0 r = length r" using ready_run_match[of 0 r r] by simp
  ultimately have "match_run H r (started p cpid f c, s_gbls s') = Inl (Assert ''cmdttyProcessOutput'')"
    using rs by (intro match_run_no_room) simp_all
  then show ?thesis using rs cmd_at_bound[OF assms(1)] by (auto simp: s' cmdIsReady_def)
qed

theorem stale_ready_aborts_witness:
  "\<exists>s s' c'. cmdStart 0 True 4 0 s = Inr (True, s') \<and> cmd_at s' 0 = Inr c'
    \<and> match_run alist_ops ''> '' (c', s_gbls s') = Inl (Assert ''cmdttyProcessOutput'')"
proof -
  let ?c = "demo_cmd\<lparr>c_readycnt := 2\<rparr>"
  let ?s = "put_cmd 0 ?c (upd_gbls (\<lambda>g. g\<lparr>g_readystr := Some ''> '', g_readystrlen := 2, g_cmdsreadycnt := 1\<rparr>) (demo_sys []))"
  have a: "cmd_at ?s 0 = Inr ?c" by (simp add: demo_sys_def)
  have c: "\<not> cmdIsRunning ?c" "c_cmdline ?c = Some ''cat''" "tty_dfd (c_cmdtty ?c) \<noteq> -1" "tty_sfd (c_cmdtty ?c) \<noteq> -1"
    by (simp_all add: cmdIsRunning_def demo_cmd_def demo_tty_def tty_clean_def cmd_zero_def)
  have k: "k_fork (s_kern ?s) (k_tick (s_kern ?s)) = Some 100" "k_newfd (s_kern ?s) (Suc (k_tick (s_kern ?s))) = Some 4"
    by (simp_all add: demo_sys_def kern0_def)
  have g: "ready_state ''> '' (length ''> '') ?c (s_gbls ?s)"
    "g_cmdsreadycnt (s_gbls ?s) = int (hh_count alist_ops (g_cmds (s_gbls ?s)))"
    "hh_count alist_ops (g_cmds (s_gbls ?s)) < 2 ^ 32 - 1"
    by (simp_all add: ready_state_def demo_sys_def demo_gbls_def gbls_zero_def)
  from cmdStart_success[OF a c(1,2) _ c(3,4) k, of 4 True 0] obtain s' where s': "cmdStart 0 True 4 0 ?s = Inr (True, s')" by auto
  from stale_ready_aborts[OF a c(1) g s'] s' show ?thesis by blast
qed

end
