(* ===== verification/MonProps.thy ===== *)
theory MonProps
  imports Mon CmdRelay
begin

text \<open>
  The monitor from bytes to commands: how a line is collected, which command a line runs, and
  what happens to a line that is too long.
\<close>

section \<open>Collecting a line\<close>

text \<open>Input events of the monitor's tty one after the other.\<close>

fun mon_events :: "'h hashops \<Rightarrow> strtod_t \<Rightarrow> int \<Rightarrow> nat \<Rightarrow> 'h sys \<Rightarrow> 'h stop + 'h sys" where
  "mon_events H strtod epollfd 0 s = Inr s"
| "mon_events H strtod epollfd (Suc n) s =
     bind_res (monEvent H strtod EPOLLIN epollfd s) (\<lambda>(_, s). mon_events H strtod epollfd n s)"

lemma mon_events_add:
  "mon_events H strtod ep (m + n) s = bind_res (mon_events H strtod ep m s) (mon_events H strtod ep n)"
  by (induction m arbitrary: s) (auto simp: bind_res_assoc case_prod_beta bind_res_def split: sum.splits)

text \<open>The monitor, with tty \<open>f\<close>, has collected \<open>xs\<close>; \<open>holding s xs l k\<close> is the state with them.\<close>

definition collected :: "'h sys \<Rightarrow> string \<Rightarrow> bool" where
  "collected s xs \<longleftrightarrow> length (m_line (g_mon (s_gbls s))) = MON_LINELEN \<and> length xs < MON_LINELEN
     \<and> m_n (g_mon (s_gbls s)) = int (length xs) \<and> take (length xs) (m_line (g_mon (s_gbls s))) = xs"

definition holding :: "'h sys \<Rightarrow> nat \<Rightarrow> string \<Rightarrow> kern \<Rightarrow> 'h sys" where
  "holding s n l k = put_line l (set_mon_n (int n) (with_kern k s))"

definition mon_in :: "'h sys \<Rightarrow> string" where
  "mon_in s = k_inq (s_kern s) (tty_dfd (m_tty (g_mon (s_gbls s))))"

lemma holding_simps [simp]:
  "holding (holding s n l k) n' l' k' = holding s n' l' k'"
  "m_line (g_mon (s_gbls (holding s n l k))) = l" "m_n (g_mon (s_gbls (holding s n l k))) = int n"
  "m_tty (g_mon (s_gbls (holding s n l k))) = m_tty (g_mon (s_gbls s))" "s_kern (holding s n l k) = k"
  by (simp_all add: holding_def put_line_def set_mon_n_def upd_gbls_def with_kern_def)

lemma EPOLLIN_set [simp]: "has EPOLLIN EPOLLIN"
  by (simp add: has_def EPOLLIN_def)

text \<open>One byte: it goes into the line; the last byte the array holds runs off its end; a newline
  ends the line and the line is processed.\<close>

lemma monEvent_byte:
  assumes "collected s xs" "mon_in s = ch # rest"
  obtains k where "k_inq k (tty_dfd (m_tty (g_mon (s_gbls s)))) = rest"
    "monEvent H strtod EPOLLIN ep s =
      (if Suc (length xs) = MON_LINELEN then Inl (Fault OutOfBounds)
       else if ch = newline then
         bind_res (monProcess H strtod ep (holding s (Suc (length xs))
            ((m_line (g_mon (s_gbls s)))[length xs := nul]) k)) (\<lambda>s. Inr (EVNT_HDLR_SUCCESS, set_mon_n 0 s))
       else Inr (EVNT_HDLR_SUCCESS, holding s (Suc (length xs)) ((m_line (g_mon (s_gbls s)))[length xs := ch]) k))"
proof -
  define f where "f = tty_dfd (m_tty (g_mon (s_gbls s)))"
  define k where "k = (tick (s_kern s))\<lparr>k_inq := (k_inq (s_kern s))(f := rest)\<rparr>"
  have rd: "sys_read1 f (s_kern s) = (1, E_OK, Some ch, k)"
    using assms(2) by (simp add: sys_read1_Cons mon_in_def k_def f_def)
  have nn: "m_n (g_mon (s_gbls s)) = int (length xs)" "length xs < MON_LINELEN" using assms(1) by (simp_all add: collected_def)
  have h: "put_line l (set_mon_n n (put_line l' (with_kern k s))) = put_line l (set_mon_n n (with_kern k s))"
    "set_mon_n n (put_line l (with_kern k s)) = put_line l (set_mon_n n (with_kern k s))"
    "put_line l (put_line l' t) = put_line l t" for n l l' and t :: "'a sys"
    by (simp_all add: put_line_def set_mon_n_def) (simp_all add: upd_gbls_def with_kern_def)
  show ?thesis
  proof (rule that[of k])
    show "monEvent H strtod EPOLLIN ep s =
      (if Suc (length xs) = MON_LINELEN then Inl (Fault OutOfBounds)
       else if ch = newline then
         bind_res (monProcess H strtod ep (holding s (Suc (length xs))
            ((m_line (g_mon (s_gbls s)))[length xs := nul]) k)) (\<lambda>s. Inr (EVNT_HDLR_SUCCESS, set_mon_n 0 s))
       else Inr (EVNT_HDLR_SUCCESS, holding s (Suc (length xs)) ((m_line (g_mon (s_gbls s)))[length xs := ch]) k))"
      using nn rd by (auto simp: monEvent_def Let_def holding_def h f_def[symmetric] add.commute)
  qed (simp add: k_def f_def)
qed

lemma collected_more:
  assumes "collected s xs" "Suc (length xs) < MON_LINELEN"
  shows "collected (holding s (Suc (length xs)) ((m_line (g_mon (s_gbls s)))[length xs := ch]) k) (xs @ [ch])"
  using assms by (auto simp: collected_def take_Suc_conv_app_nth)

lemma mon_events_collect:
  assumes "collected s xs" "newline \<notin> set ys" "length xs + length ys < MON_LINELEN" "mon_in s = ys @ rest"
  shows "\<exists>l k. mon_events H strtod ep (length ys) s = Inr (holding s (length xs + length ys) l k)
    \<and> collected (holding s (length xs + length ys) l k) (xs @ ys)
    \<and> k_inq k (tty_dfd (m_tty (g_mon (s_gbls s)))) = rest"
  using assms
proof (induction ys arbitrary: s xs)
  case Nil
  have e: "holding s (length xs) (m_line (g_mon (s_gbls s))) (s_kern s) = s"
    using Nil.prems(1) by (simp add: collected_def holding_def put_line_def set_mon_n_def upd_gbls_def with_kern_def)
  let ?l = "m_line (g_mon (s_gbls s))" and ?k = "s_kern s"
  have "mon_events H strtod ep (length []) s = Inr (holding s (length xs + length []) ?l ?k)"
    "collected (holding s (length xs + length []) ?l ?k) (xs @ [])"
    "k_inq ?k (tty_dfd (m_tty (g_mon (s_gbls s)))) = rest"
    using Nil.prems(1) Nil.prems(4)[unfolded mon_in_def] by (simp_all only: e list.size add_0_right append_Nil append_Nil2 mon_events.simps)
  then show ?case by blast
next
  case (Cons y ys)
  from Cons.prems(4) have i: "mon_in s = y # (ys @ rest)" by simp
  have ne: "Suc (length xs) \<noteq> MON_LINELEN" "y \<noteq> newline" using Cons.prems(2,3) by auto
  obtain k where k: "k_inq k (tty_dfd (m_tty (g_mon (s_gbls s)))) = ys @ rest"
    "monEvent H strtod EPOLLIN ep s = Inr (EVNT_HDLR_SUCCESS,
        holding s (Suc (length xs)) ((m_line (g_mon (s_gbls s)))[length xs := y]) k)"
    by (rule monEvent_byte[OF Cons.prems(1) i, of H strtod ep]) (use ne in simp)
  let ?s = "holding s (Suc (length xs)) ((m_line (g_mon (s_gbls s)))[length xs := y]) k"
  have "collected ?s (xs @ [y])" using collected_more[OF Cons.prems(1)] Cons.prems(3) by simp
  from Cons.IH[OF this] Cons.prems(2,3) k(1) show ?case using k(2) by (auto simp: mon_in_def)
qed

text \<open>C13: the monitor's line. Bytes without a newline are collected in order, and the newline
  makes the monitor process exactly the line they form, terminated in its place; afterwards
  the next line starts. This holds for every line that fits into the array with its terminator
  and one byte to spare.\<close>

theorem monEvent_collects_line:
  assumes "collected s []" "newline \<notin> set xs" "length xs + 1 < MON_LINELEN" "mon_in s = xs @ newline # rest"
  shows "\<exists>l k. take (Suc (length xs)) l = xs @ [nul] \<and> length l = MON_LINELEN
    \<and> k_inq k (tty_dfd (m_tty (g_mon (s_gbls s)))) = rest
    \<and> mon_events H strtod ep (length xs + 1) s =
        bind_res (monProcess H strtod ep (holding s (length xs + 1) l k)) (\<lambda>s. Inr (set_mon_n 0 s))"
proof -
  from mon_events_collect[OF assms(1,2), of "newline # rest" H strtod ep] assms(3,4) obtain l k where
    c: "mon_events H strtod ep (length xs) s = Inr (holding s (length xs) l k)" "collected (holding s (length xs) l k) xs"
    "k_inq k (tty_dfd (m_tty (g_mon (s_gbls s)))) = newline # rest" by auto
  have "mon_in (holding s (length xs) l k) = newline # rest" using c(3) by (simp add: mon_in_def)
  from monEvent_byte[OF c(2) this, of H strtod ep] assms(3) obtain k' where
    k: "k_inq k' (tty_dfd (m_tty (g_mon (s_gbls s)))) = rest"
    "monEvent H strtod EPOLLIN ep (holding s (length xs) l k) =
      bind_res (monProcess H strtod ep (holding s (length xs + 1) (l[length xs := nul]) k'))
        (\<lambda>s. Inr (EVNT_HDLR_SUCCESS, set_mon_n 0 s))" by auto
  have l: "length l = MON_LINELEN" "take (length xs) l = xs" using c(2) by (simp_all add: collected_def)
  then have "take (Suc (length xs)) (l[length xs := nul]) = xs @ [nul]" using assms(3)
    by (simp add: take_Suc_conv_app_nth)
  moreover have "mon_events H strtod ep (length xs + 1) s =
      bind_res (monProcess H strtod ep (holding s (length xs + 1) (l[length xs := nul]) k')) (\<lambda>s. Inr (set_mon_n 0 s))"
    unfolding mon_events_add using c(1) k(2) by (simp add: bind_res_assoc)
  ultimately show ?thesis using k(1) l(1) by (metis length_list_update)
qed

definition demo_typed :: "string \<Rightarrow> (string \<times> ptr) list sys" where
  "demo_typed inp = with_kern (kern0\<lparr>k_inq := (\<lambda>_. inp)\<rparr>) (demo_sys [])"

lemma demo_typed_simps:
  "collected (demo_typed inp) []" "mon_in (demo_typed inp) = inp"
  "m_line (g_mon (s_gbls (demo_typed inp))) = replicate MON_LINELEN nul"
  by (simp_all add: collected_def mon_in_def demo_typed_def demo_sys_def demo_gbls_def gbls_zero_def mon_zero_def MON_LINELEN_def)

theorem monEvent_collects_line_witness:
  "\<exists>l k. take 3 l = ''hi'' @ [nul] \<and> mon_events alist_ops (\<lambda>_. (0, 0)) 4 3 (demo_typed (''hi'' @ [newline])) =
     bind_res (monProcess alist_ops (\<lambda>_. (0, 0)) 4 (holding (demo_typed (''hi'' @ [newline])) 3 l k)) (\<lambda>s. Inr (set_mon_n 0 s))"
proof -
  have "newline \<notin> set ''hi''" "length ''hi'' + 1 < MON_LINELEN" by (simp_all add: newline_def MON_LINELEN_def)
  from monEvent_collects_line[OF demo_typed_simps(1) this, of "''hi'' @ [newline]" "[]" alist_ops "\<lambda>_. (0, 0)" 4]
  show ?thesis by (auto simp: demo_typed_simps(2) eval_nat_numeral)
qed

text \<open>C36: the line buffer overruns. The test that is to ignore a line too long for the array is
  made when the array is full and looks at the byte after it: a client that writes as many
  bytes as the array holds without a newline makes the monitor read \<open>line[MON_LINELEN]\<close>.\<close>

theorem monEvent_overrun:
  assumes "collected s []" "newline \<notin> set xs" "length xs + 1 = MON_LINELEN" "mon_in s = xs @ ch # rest"
  shows "mon_events H strtod ep MON_LINELEN s = Inl (Fault OutOfBounds)"
proof -
  from mon_events_collect[OF assms(1,2), of "ch # rest" H strtod ep] assms(3,4) obtain l k where
    c: "mon_events H strtod ep (length xs) s = Inr (holding s (length xs) l k)" "collected (holding s (length xs) l k) xs"
    "k_inq k (tty_dfd (m_tty (g_mon (s_gbls s)))) = ch # rest" by auto
  have "mon_in (holding s (length xs) l k) = ch # rest" using c(3) by (simp add: mon_in_def)
  from monEvent_byte[OF c(2) this, of H strtod ep] assms(3)
  have "monEvent H strtod EPOLLIN ep (holding s (length xs) l k) = Inl (Fault OutOfBounds)" by auto
  then have "mon_events H strtod ep (length xs + 1) s = Inl (Fault OutOfBounds)"
    unfolding mon_events_add using c(1) by simp
  then show ?thesis unfolding assms(3) .
qed

theorem monEvent_overrun_witness:
  "mon_events alist_ops (\<lambda>_. (0, 0)) 4 MON_LINELEN (demo_typed (replicate 4096 (CHR ''x''))) = Inl (Fault OutOfBounds)"
proof -
  let ?xs = "replicate 4095 (CHR ''x'')"
  have "newline \<notin> set ?xs" "length ?xs + 1 = MON_LINELEN" by (simp_all add: newline_def MON_LINELEN_def)
  moreover have "replicate 4096 (CHR ''x'') = ?xs @ CHR ''x'' # []"
    using replicate_add[of 4095 1 "CHR ''x''"] by simp
  ultimately show ?thesis using monEvent_overrun[OF demo_typed_simps(1)] demo_typed_simps(2) by metis
qed

section \<open>Which command a line runs\<close>

text \<open>The words of the table: none is a prefix trap, because the terminator takes part in the
  comparison.\<close>

lemma nul_char: "nul = CHR 0x00"
  by code_simp

lemma MonCmds_names: "d \<in> set MonCmds \<Longrightarrow> nul \<notin> set (mc_name d)"
  by (auto simp: MonCmds_def nul_char)

lemma MonCmds_distinct: "distinct (map mc_name MonCmds)"
  by (simp add: MonCmds_def)

lemma strncmp_word:
  assumes "nul \<notin> set w" "nul \<notin> set name"
  shows "strncmp_eq w name (length w + 1) \<longleftrightarrow> name = w"
proof
  assume "strncmp_eq w name (length w + 1)"
  then have t: "take (length w + 1) (name @ [nul]) = w @ [nul]" by (simp add: strncmp_eq_def)
  show "name = w"
  proof (cases "length w < length name")
    case True
    then have "take (length w + 1) name = w @ [nul]" using t by simp
    then have "nul \<in> set name" by (metis in_set_conv_decomp in_set_takeD)
    with assms(2) show ?thesis by simp
  next
    case False
    then show ?thesis using t by simp
  qed
qed (simp add: strncmp_eq_def)

lemma word_end_found:
  assumes "length (w @ ch # rest) = MON_LINELEN" "nul \<notin> set w" "CHR '' '' \<notin> set w" "ch = CHR '' '' \<or> ch = nul"
  shows "word_end (w @ ch # rest) = Some (length w, ch = CHR '' '')"
proof -
  have "takeWhile (\<lambda>ch. ch \<noteq> CHR '' '' \<and> ch \<noteq> nul) (w @ ch # rest) = w"
    using assms(2-4) by (auto simp: takeWhile_append)
  with assms(1) show ?thesis by (simp add: word_end_def Let_def)
qed

text \<open>C14: a line runs the command whose name is its first word, the whole of it and nothing else:
  no prefix of a name, no longer word. What follows the first blank is the argument (handed
  over by its position in the line); a first word that is in the table of commands under no
  name answers that the command is unknown. The greeting follows in both cases.\<close>

theorem monProcess_dispatches:
  assumes "m_line (g_mon (s_gbls s)) = w @ ch # rest" "length (w @ ch # rest) = MON_LINELEN"
    and "nul \<notin> set w" "CHR '' '' \<notin> set w" "ch = CHR '' '' \<or> ch = nul" "0 < m_n (g_mon (s_gbls s))"
  shows "monProcess H strtod ep s =
    (let s = (if ch = nul then s else put_line (w @ nul # rest) s); args = (if ch = nul then 0 else length w + 1)
     in case find (\<lambda>d. mc_name d = w) MonCmds of
          Some d \<Rightarrow> bind_res (mon_dispatch H strtod (mc_cmd d) args ep s) (\<lambda>(rc, s).
            Inr (monGreeting (monprintf ((if rc = 0 then ''OK'' else ''FAILED'') @ [newline]) s)))
        | None \<Rightarrow> Inr (mon_unknown w s))"
proof -
  have "strncmp_eq w (mc_name d) (Suc (length w)) \<longleftrightarrow> mc_name d = w" if "d \<in> set MonCmds" for d
    using strncmp_word[OF assms(3) MonCmds_names[OF that]] by simp
  then have f: "find (\<lambda>d. strncmp_eq w (mc_name d) (Suc (length w))) MonCmds = find (\<lambda>d. mc_name d = w) MonCmds"
    by (intro find_cong refl) simp
  have "nul \<noteq> CHR '' ''" by (simp add: nul_char)
  then show ?thesis
    using assms(5,6) word_end_found[OF assms(2-5)] by (auto simp: monProcess_def Let_def assms(1) f split: option.split)
qed

theorem monProcess_dispatches_witness:
  "\<exists>line. m_line (g_mon (s_gbls (put_line line (set_mon_n 2 (demo_sys []))))) = ''l'' @ nul # replicate 4094 nul
    \<and> monProcess alist_ops (\<lambda>_. (0, 0)) 4 (put_line line (set_mon_n 2 (demo_sys []))) =
      bind_res (mon_dispatch alist_ops (\<lambda>_. (0, 0)) MonList 0 4 (put_line line (set_mon_n 2 (demo_sys [])))) (\<lambda>(rc, s).
            Inr (monGreeting (monprintf ((if rc = 0 then ''OK'' else ''FAILED'') @ [newline]) s)))"
proof (intro exI[of _ "''l'' @ nul # replicate 4094 nul"] conjI)
  let ?s = "put_line (''l'' @ nul # replicate 4094 nul) (set_mon_n 2 (demo_sys []))"
  show l: "m_line (g_mon (s_gbls ?s)) = ''l'' @ nul # replicate 4094 nul" by (simp add: put_line_def)
  have n: "0 < m_n (g_mon (s_gbls ?s))" by (simp add: put_line_def set_mon_n_def)
  have "length (''l'' @ nul # replicate 4094 nul) = MON_LINELEN" by (simp add: MON_LINELEN_def)
  moreover have "find (\<lambda>d. mc_name d = ''l'') MonCmds = Some \<lparr>mc_name = ''l'', mc_usage = None, mc_cmd = MonList\<rparr>"
    by (simp add: MonCmds_def)
  ultimately show "monProcess alist_ops (\<lambda>_. (0, 0)) 4 ?s =
      bind_res (mon_dispatch alist_ops (\<lambda>_. (0, 0)) MonList 0 4 ?s) (\<lambda>(rc, s).
            Inr (monGreeting (monprintf ((if rc = 0 then ''OK'' else ''FAILED'') @ [newline]) s)))"
    using monProcess_dispatches[OF l _ _ _ _ n, of alist_ops "\<lambda>_. (0, 0)" 4] by (simp add: nul_char)
qed

end
