(* ===== verification/RunProps.thy ===== *)
theory RunProps
  imports CmdProps MonProps YarFsLife
begin

text \<open>
  Properties that span components: broadcast input, the order of events in the loop, signals,
  deleted commands and the exit of an idle program.
\<close>

section \<open>Signals end the loop\<close>

text \<open>C11: a termination signal ends the program. Whatever interrupted waits come before it, when
  the signal descriptor is ready the handler takes the next signal: for one of the signals of
  the list the loop is left with success at once, and the events that came with it are dropped;
  any other signal that is delivered this way is swallowed, and the loop goes on. Of the signals
  that are blocked so that they arrive here, exactly \<open>SIGQUIT\<close> is swallowed.\<close>

theorem signal_ends_loop:
  assumes "sg_ed (g_sigproc (s_gbls s)) = \<lparr>hdlr = Some H_sigEvent, obj = Some O_sigproc\<rparr>"
    and "k_sigq (s_kern s) = sg # sgs" "set idle \<subseteq> {EP_eintr, EP_einval}"
  shows "\<exists>k. k_sigq k = sgs \<and>
    loop_rounds H strtod L ep (idle @ EP_events ((Ed_sigproc, EPOLLIN) # es) # ws) s =
      (if sg \<in> set exit_signals then Inr (Some True, with_kern k s)
       else loop_rounds H strtod L ep (EP_events es # ws) (with_kern k s))
    \<and> set sigAddTermSignals - set exit_signals = {SIGQUIT}"
proof -
  define k where "k = (tick (s_kern s))\<lparr>k_sigq := sgs\<rparr>"
  have "sigEvent EPOLLIN s = Inr (if sg \<in> set exit_signals then EVNT_HDLR_EXIT_LOOP else EVNT_HDLR_SUCCESS, with_kern k s)"
    using assms(2) by (simp add: sigEvent_def sys_read_signal_def k_def)
  then have d: "dispatch_events H strtod L ep ((Ed_sigproc, EPOLLIN) # es) s =
      (if sg \<in> set exit_signals then Inr (Some True, with_kern k s) else dispatch_events H strtod L ep es (with_kern k s))"
    using assms(1) by (simp add: ed_at_def call_hdlr_def)
  have "loop_rounds H strtod L ep (idle @ vs) s = loop_rounds H strtod L ep vs s" for vs
    using assms(3) by (induction idle) auto
  moreover have "set sigAddTermSignals - set exit_signals = {SIGQUIT}"
    by (auto simp: sigAddTermSignals_def exit_signals_def SIGALRM_def SIGTERM_def SIGINT_def SIGHUP_def SIGQUIT_def
        SIGUSR1_def SIGVTALRM_def SIGUSR2_def SIGPIPE_def SIGIO_def SIGKILL_def)
  ultimately show ?thesis using d by (intro exI[of _ k]) (simp add: k_def)
qed

theorem signal_ends_loop_witness:
  "\<exists>s k. loop_rounds alist_ops (\<lambda>_. (0, 0)) demo_lib 4 [EP_eintr, EP_events [(Ed_sigproc, EPOLLIN)]] s = Inr (Some True, with_kern k s)
    \<and> k_sigq (s_kern s) = [SIGTERM]"
proof -
  let ?s = "with_kern (kern0\<lparr>k_sigq := [SIGTERM]\<rparr>)
    (upd_gbls (\<lambda>g. g\<lparr>g_sigproc := \<lparr>sg_ed = \<lparr>hdlr = Some H_sigEvent, obj = Some O_sigproc\<rparr>, sg_sfd = 3\<rparr>\<rparr>) (demo_sys []))"
  have "sg_ed (g_sigproc (s_gbls ?s)) = \<lparr>hdlr = Some H_sigEvent, obj = Some O_sigproc\<rparr>" by simp
  moreover have "k_sigq (s_kern ?s) = SIGTERM # []" by simp
  moreover have "SIGTERM \<in> set exit_signals" by (simp add: exit_signals_def)
  ultimately obtain k where "loop_rounds alist_ops (\<lambda>_. (0, 0)) demo_lib 4
      ([EP_eintr] @ EP_events ((Ed_sigproc, EPOLLIN) # []) # []) ?s = Inr (Some True, with_kern k ?s)"
    using signal_ends_loop[of ?s SIGTERM "[]" "[EP_eintr]" alist_ops "\<lambda>_. (0, 0)" demo_lib 4 "[]" "[]"]
    by (metis empty_subsetI insert_subset list.set insertI1)
  moreover have "k_sigq (s_kern ?s) = [SIGTERM]" by simp
  ultimately show ?thesis unfolding append_Cons append_Nil by blast
qed

section \<open>Broadcast input\<close>

definition cmdtty_fd :: "'h sys \<Rightarrow> ptr \<Rightarrow> fd" where
  "cmdtty_fd s p = (case cmd_at s p of Inl _ \<Rightarrow> -1 | Inr c \<Rightarrow> tty_dfd (c_cmdtty c))"

definition takes_input :: "'h sys \<Rightarrow> ptr \<Rightarrow> bool" where
  "takes_input s p \<longleftrightarrow> (\<exists>c. cmd_at s p = Inr c \<and> tty_opens (c_cmdtty c) \<noteq> 0)"

lemma bcst_fold:
  assumes "\<forall>p \<in> set ps. takes_input s p" "distinct (map (cmdtty_fd s) ps)" "accepting (s_kern s)"
  shows "\<exists>s'. fold_res (\<lambda>p (cnt, s). bind_res (cmdWriteChar p ch s) (\<lambda>(n, s).
         if n \<noteq> 1 then Inl (NYI ''GBLSCmdsWriteChar'') else Inr (cnt + 1, s))) ps (cnt, s) = Inr (cnt + int (length ps), s')
    \<and> (\<forall>f. k_out (s_kern s') f = k_out (s_kern s) f @ (if f \<in> cmdtty_fd s ` set ps then [ch] else []))"
  using assms
proof (induction ps arbitrary: s cnt)
  case (Cons p ps)
  from Cons.prems(1) obtain c where c: "cmd_at s p = Inr c" "tty_opens (c_cmdtty c) \<noteq> 0" by (auto simp: takes_input_def)
  from cmdWriteChar_accepted[OF c Cons.prems(3), of ch] obtain c' k where
    w: "cmdWriteChar p ch s = Inr (1, put_cmd p c' (with_kern k s))" "rewritten c c'"
    "sent (tty_dfd (c_cmdtty c)) [ch] [] (s_kern s) k" by blast
  let ?s = "put_cmd p c' (with_kern k s)"
  note b = cmd_at_bound[OF c(1)]
  have fd: "cmdtty_fd ?s q = cmdtty_fd s q" "takes_input ?s q = takes_input s q" for q
    using b c(1) rewritten_simps[OF w(2)] by (auto simp: cmdtty_fd_def takes_input_def)
  have fs: "cmdtty_fd ?s = cmdtty_fd s" using fd(1) by blast
  have p: "cmdtty_fd s p = tty_dfd (c_cmdtty c)" using c(1) by (simp add: cmdtty_fd_def)
  have "accepting (s_kern ?s)" using Cons.prems(3) sent_accepting[OF w(3)] by simp
  from Cons.IH[OF _ _ this, of "cnt + 1"] Cons.prems(1,2) obtain s' where r:
    "fold_res (\<lambda>p (cnt, s). bind_res (cmdWriteChar p ch s) (\<lambda>(n, s).
         if n \<noteq> 1 then Inl (NYI ''GBLSCmdsWriteChar'') else Inr (cnt + 1, s))) ps (cnt + 1, ?s) = Inr (cnt + 1 + int (length ps), s')"
    "\<forall>f. k_out (s_kern s') f = k_out k f @ (if f \<in> cmdtty_fd s ` set ps then [ch] else [])"
    by (auto simp: fs fd(2))
  have k: "k_out k = (k_out (s_kern s))(tty_dfd (c_cmdtty c) := k_out (s_kern s) (tty_dfd (c_cmdtty c)) @ [ch])"
    using w(3) by (auto simp: sent_def)
  have "cmdtty_fd s p \<notin> cmdtty_fd s ` set ps" using Cons.prems(2) by simp
  with r w(1) show ?case by (intro exI[of _ s']) (auto simp: k p add.commute)
qed simp

text \<open>C9: a byte written to the broadcast tty reaches every command once. With ttys that take
  it, the byte is appended to the input of each command of the table, in one pass; no other
  descriptor is written to, and the number of commands is returned.\<close>

theorem broadcast_reaches_all:
  assumes "\<forall>p \<in> set (hh_iter H (g_cmds (s_gbls s))). takes_input s p"
    and "distinct (map (cmdtty_fd s) (hh_iter H (g_cmds (s_gbls s))))" "accepting (s_kern s)"
  shows "\<exists>s'. GBLSCmdsWriteChar H ch s = Inr (int (length (hh_iter H (g_cmds (s_gbls s)))), s')
    \<and> (\<forall>f. k_out (s_kern s') f = k_out (s_kern s) f
         @ (if f \<in> cmdtty_fd s ` set (hh_iter H (g_cmds (s_gbls s))) then [ch] else []))"
  using bcst_fold[OF assms, of ch 0] by (simp add: GBLSCmdsWriteChar_def)

theorem broadcast_reaches_all_witness:
  "\<exists>s'. GBLSCmdsWriteChar alist_ops (CHR ''x'') (demo_sys []) = Inr (1, s') \<and> k_out (s_kern s') 10 = ''x'' \<and> k_out (s_kern s') 11 = []"
proof -
  have i: "hh_iter alist_ops (g_cmds (s_gbls (demo_sys []))) = [0]" by (simp add: demo_sys_def demo_gbls_def gbls_zero_def)
  have c: "cmd_at (demo_sys []) 0 = Inr demo_cmd" by (simp add: demo_sys_def cmd_at_def)
  have t: "takes_input (demo_sys []) 0" "cmdtty_fd (demo_sys []) 0 = 10"
    using c by (simp_all add: takes_input_def cmdtty_fd_def demo_cmd_def demo_tty_def tty_clean_def)
  have "accepting (s_kern (demo_sys []))" "k_out (s_kern (demo_sys [])) = (\<lambda>_. [])"
    by (simp_all add: accepting_def writes_accepted_def demo_sys_def kern0_def)
  with broadcast_reaches_all[of alist_ops "demo_sys []" "CHR ''x''", unfolded i] t show ?thesis by auto
qed

section \<open>Deleted commands\<close>

text \<open>Stopping and cleaning up a command changes nothing of \<open>GBLS\<close> but the count of ready
  commands, and frees nothing.\<close>

definition but_ready :: "'h sys \<Rightarrow> 'h sys \<Rightarrow> bool" where
  "but_ready s t \<longleftrightarrow> (\<exists>n. s_gbls t = (s_gbls s)\<lparr>g_cmdsreadycnt := n\<rparr>) \<and> length (s_heap t) = length (s_heap s)"

interpretation br: state_rel but_ready
proof
  show "but_ready s s" for s :: "'a sys" unfolding but_ready_def by (intro conjI exI[of _ "g_cmdsreadycnt (s_gbls s)"]) simp_all
  show "but_ready s t \<Longrightarrow> but_ready t u \<Longrightarrow> but_ready s u" for s t u :: "'a sys"
    by (auto simp: but_ready_def)
qed

lemma but_ready_gbls: "s_gbls t = s_gbls s \<Longrightarrow> length (s_heap t) = length (s_heap s) \<Longrightarrow> but_ready s t"
  using br.refl[of s] by (auto simp: but_ready_def)

lemma br_cmdWriteChar: "cmdWriteChar p ch s = Inr (n, s') \<Longrightarrow> but_ready s s'"
  by (auto simp: cmdWriteChar_def res_dest intro!: but_ready_gbls)

lemma br_send_chars: "send_chars p xs s = Inr s' \<Longrightarrow> but_ready s s'"
proof (induction xs arbitrary: s)
  case Nil
  then show ?case by (simp add: br.refl)
next
  case (Cons ch xs)
  then obtain n t where w: "cmdWriteChar p ch s = Inr (n, t)"
    "bind_res (cmd_at t p) (\<lambda>c. send_chars p xs (with_kern (delaysec (c_delay c) (s_kern t)) t)) = Inr s'"
    by (auto simp: bind_res_eq_Inr[of "cmdWriteChar p ch s"] split: if_splits)
  then obtain c :: cmd_t where r: "send_chars p xs (with_kern (delaysec (c_delay c) (s_kern t)) t) = Inr s'"
    unfolding bind_res_eq_Inr[of "cmd_at t p"] by blast
  from Cons.IH[OF r] have "but_ready t s'" by (simp add: but_ready_def)
  with br_cmdWriteChar[OF w(1)] show ?case by (rule br.trans)
qed

lemma br_send_stopstr: "send_stopstr p s = Inr s' \<Longrightarrow> but_ready s s'"
  by (auto simp: send_stopstr_def res_dest br.refl split: option.splits if_splits
      intro: br.trans[OF br_cmdWriteChar br_send_chars])

lemma br_drop_ready: "drop_ready site p s = Inr s' \<Longrightarrow> but_ready s s'"
proof -
  have "but_ready s (upd_gbls decCmdsReadyCnt (put_cmd p c s))" for c
    using br.refl[of s] by (auto simp: but_ready_def decCmdsReadyCnt_def)
  then show "drop_ready site p s = Inr s' \<Longrightarrow> but_ready s s'"
    by (auto simp: drop_ready_def bind_res_eq_Inr assert_res_eq_Inr Let_def br.refl simp del: upd_gbls_simps(6) split: if_splits)
qed

lemma br_cmdStop:
  assumes "cmdStop p ep force s = Inr (b, s')"
  shows "but_ready s s'"
  using assms
proof (cases rule: cmdStop_cases)
  case (stopped c s1 s2 c2 k1 status k2)
  have "but_ready s s2" using br_send_stopstr[OF stopped(5)] br_drop_ready[OF stopped(6)] by (rule br.trans)
  then show ?thesis by (simp add: stopped(10) but_ready_def)
qed (simp_all add: br.refl)

lemma br_cmdCleanup: "cmdCleanup p s = Inr (b, s') \<Longrightarrow> but_ready s s'"
proof -
  assume "cmdCleanup p s = Inr (b, s')"
  then obtain b1 s1 where r: "cmdStop p (-1) True s = Inr (b1, s1)"
    "\<exists>c k. s' = put_cmd p c (with_kern k s1)"
    by (auto simp: cmdCleanup_def res_dest Let_def case_prod_beta)
  from r(2) have "but_ready s1 s'" by (auto intro!: but_ready_gbls)
  with br_cmdStop[OF r(1)] show ?thesis by (rule br.trans)
qed

text \<open>What \<open>cleanup_cmd\<close> leaves: the command is out of the table and freed.\<close>

lemma cleanup_cmd_result:
  assumes "cleanup_cmd H p s = Inr s'"
  obtains n where "s_gbls s' = (s_gbls s)\<lparr>g_cmdsreadycnt := n, g_cmds := hh_del H (g_cmds (s_gbls s)) p\<rparr>"
    "cmd_at s' p = Inl UseAfterFree"
proof -
  from assms obtain b s1 where r: "cmdCleanup p s = Inr (b, s1)"
    "free_cmd p (upd_gbls (\<lambda>g. g\<lparr>g_cmds := hh_del H (g_cmds g) p\<rparr>) s1) = Inr s'"
    by (auto simp: cleanup_cmd_def res_dest)
  from br_cmdCleanup[OF r(1)] obtain n where "s_gbls s1 = (s_gbls s)\<lparr>g_cmdsreadycnt := n\<rparr>" by (auto simp: but_ready_def)
  with r(2) show ?thesis by (intro that[of n]) (auto simp: free_cmd_def cmd_at_def split: if_splits)
qed

text \<open>C31: deleting the command with the largest delay leaves \<open>slowestcmd\<close> pointing to memory
  that has been freed. The next command that is added, and the next byte on the broadcast tty
  that is not held back for commands that are not ready, read that memory.\<close>

theorem monDel_leaves_slowest:
  assumes "args \<noteq> 0" "mon_arg args s = Inr name" "hh_find H (g_cmds (s_gbls s)) name = Some p"
    and "g_slowestcmd (s_gbls s) = Some p" "monDel H args s = Inr (rc, s')"
  shows "g_slowestcmd (s_gbls s') = Some p \<and> cmd_at s' p = Inl UseAfterFree
    \<and> update_slowest q d s' = Inl UseAfterFree
    \<and> (g_readystr (s_gbls s') = None \<longrightarrow> bcstttyEvent H EPOLLIN s' = Inl UseAfterFree)"
proof -
  have "cleanup_cmd H p s = Inr s'"
    using assms(1-3,5) by (auto simp: monDel_def lift_res_eq_Inr bind_res_eq_Inr cleanup_and_exit_def exit_with_def split: if_splits)
  then obtain n where g: "s_gbls s' = (s_gbls s)\<lparr>g_cmdsreadycnt := n, g_cmds := hh_del H (g_cmds (s_gbls s)) p\<rparr>"
    "cmd_at s' p = Inl UseAfterFree" by (rule cleanup_cmd_result)
  then show ?thesis using assms(4) by (auto simp: update_slowest_def bcstttyEvent_def Let_def)
qed

lemma cmdCleanup_idle:
  assumes "cmd_at s p = Inr c" "\<not> cmdIsRunning c"
  shows "\<exists>c' k. cmdCleanup p s = Inr (True, put_cmd p c' (with_kern k s))"
  using assms by (auto simp: cmdCleanup_def cmdStop_def case_prod_beta)

definition demo_two :: "(string \<times> ptr) list sys" where
  "demo_two = upd_gbls (\<lambda>g. g\<lparr>g_cmds := [(''a'', 0), (''b'', 1)],
       g_mon := (g_mon g)\<lparr>m_line := ''d'' @ nul # ''a'' @ replicate 4093 nul\<rparr>\<rparr>)
     ((demo_sys [])\<lparr>s_heap := [Some demo_cmd, Some (demo_cmd\<lparr>c_name := Some ''b''\<rparr>)]\<rparr>)"

lemma demo_two_simps:
  "cmd_at demo_two 0 = Inr demo_cmd" "g_cmds (s_gbls demo_two) = [(''a'', 0), (''b'', 1)]"
  "g_slowestcmd (s_gbls demo_two) = Some 0" "mon_arg 2 demo_two = Inr ''a''" "g_exitonidle (s_gbls demo_two) = False"
  "g_readystr (s_gbls demo_two) = None" "length (s_heap demo_two) = 2"
  by (simp_all add: demo_two_def cmd_at_def demo_sys_def demo_gbls_def gbls_zero_def mon_arg_def line_cstr_def
      nul_char eval_nat_numeral)

theorem monDel_leaves_slowest_witness:
  "\<exists>s'. monDel alist_ops 2 demo_two = Inr (0, s') \<and> g_slowestcmd (s_gbls s') = Some 0 \<and> cmd_at s' 0 = Inl UseAfterFree
    \<and> update_slowest 1 5 s' = Inl UseAfterFree"
proof -
  have nr: "\<not> cmdIsRunning demo_cmd" by (simp add: cmdIsRunning_def demo_cmd_def)
  from cmdCleanup_idle[OF demo_two_simps(1) nr] obtain c k where
    c: "cmdCleanup 0 demo_two = Inr (True, put_cmd 0 c (with_kern k demo_two))" by blast
  have "\<exists>s'. monDel alist_ops 2 demo_two = Inr (0, s')"
    by (simp add: monDel_def demo_two_simps cleanup_cmd_def c free_cmd_def put_cmd_def flip: length_greater_0_conv)
  then obtain s' where d: "monDel alist_ops 2 demo_two = Inr (0, s')" by blast
  with monDel_leaves_slowest[OF _ demo_two_simps(4) _ demo_two_simps(3) d, of 1 5] show ?thesis
    by (auto simp: demo_two_simps)
qed

text \<open>C30: an event for a command that an earlier event of the same round has deleted runs on
  freed memory. The loop hands out all events of one wait before it waits again; when the
  process of a command marked for deletion dies, its handler frees the command, and a client's
  event on that command's tty later in the same round finds its event descriptor in the memory
  that was freed.\<close>

theorem deleted_command_event_faults:
  assumes c: "cmd_at s p = Inr c" "c_deleteonexit c" "c_name c = Some name"
      "c_pidfded c = \<lparr>hdlr = Some H_cmdPidEvent, obj = Some (O_cmd p)\<rparr>"
    and t: "hh_find H (g_cmds (s_gbls s)) name = Some p" "\<not> g_exitonidle (s_gbls s)"
    and rdy: "0 \<le> g_cmdsreadycnt (s_gbls s)"
      "g_readystrlen (s_gbls s) \<noteq> 0 \<and> cmdIsReady (s_gbls s) c \<longrightarrow> 0 < g_cmdsreadycnt (s_gbls s)"
    and k: "k_wait (s_kern s) (k_tick (s_kern s)) = Some status" "ep \<noteq> -1" "k_epoll (s_kern s) (c_pidfd c) \<noteq> None"
    and e: "e \<in> {Ed_dfded (T_clttty p), Ed_ifded (T_clttty p), Ed_dfded (T_cmdtty p)}"
  shows "dispatch_events H strtod L ep ((Ed_pidfded p, EPOLLIN) # (e, evnts) # es) s = Inl (Fault UseAfterFree)"
proof -
  note b = cmd_at_bound[OF c(1)]
  let ?rd = "cmdIsReady (s_gbls s) c"
  define c1 where "c1 = (stopped status c)\<lparr>c_readycnt := (if ?rd then 0 else c_readycnt c)\<rparr>"
  define g where "g = (if ?rd then decCmdsReadyCnt (s_gbls s) else s_gbls s)"
  define k1 where "k1 = (tick (s_kern s))\<lparr>k_epoll := (k_epoll (s_kern s))(c_pidfd c := None)\<rparr>"
  let ?s1 = "put_cmd p c1 (with_kern k1 (s\<lparr>s_gbls := g\<rparr>))"
  have "pidfd_unwatch ''cmdPidEvent'' ep (c_pidfd c) (tick (s_kern s)) = Inr k1"
    using k(2,3) by (auto simp: pidfd_unwatch_def sys_epoll_del_def k1_def)
  then have reap: "cmd_reap p ep s = Inr ?s1"
    using c(1) k(1) b drop_ready_put[of p s "stopped status c" "''cmdPidEvent''" k1] rdy
    by (simp add: cmd_reap_def sys_waitid_def stopped_def c1_def g_def cmdIsReady_def)
  have c1: "cmd_at ?s1 p = Inr c1" "\<not> cmdIsRunning c1" "c_deleteonexit c1" "c_name c1 = Some name"
    "g_cmds g = g_cmds (s_gbls s)" "g_exitonidle g = g_exitonidle (s_gbls s)"
    using b c by (simp_all add: c1_def cmdIsRunning_def stopped_def g_def decCmdsReadyCnt_def)
  from cmdCleanup_idle[OF c1(1,2)] obtain c2 k2 where
    cl: "cmdCleanup p ?s1 = Inr (True, put_cmd p c2 (with_kern k2 (s\<lparr>s_gbls := g\<rparr>)))" by auto
  have "\<exists>s'. cmd_delete_on_exit H p ?s1 = Inr (EVNT_HDLR_SUCCESS, s') \<and> cmd_at s' p = Inl UseAfterFree"
    using b c1 t cl by (simp add: cmd_delete_on_exit_def free_cmd_def put_cmd_def upd_gbls_def with_kern_def cmd_at_def)
  then obtain s' where "cmd_delete_on_exit H p ?s1 = Inr (EVNT_HDLR_SUCCESS, s')" and u: "cmd_at s' p = Inl UseAfterFree" by blast
  then have "cmdPidEvent H p EPOLLIN ep s = Inr (EVNT_HDLR_SUCCESS, s')"
    using reap c1 by (simp add: cmdPidEvent_def)
  then show ?thesis using c u e by (auto simp: ed_at_def tty_at_def call_hdlr_def)
qed

definition demo_dying :: "(string \<times> ptr) list sys" where
  "demo_dying = with_kern (kern0\<lparr>k_epoll := [9 \<mapsto> Ed_pidfded 0]\<rparr>)
     (put_cmd 0 (demo_cmd\<lparr>c_pid := 77, c_pidfd := 9, c_deleteonexit := True,
        c_pidfded := \<lparr>hdlr = Some H_cmdPidEvent, obj = Some (O_cmd 0)\<rparr>\<rparr>) (demo_sys []))"

theorem deleted_command_event_faults_witness:
  "dispatch_events alist_ops (\<lambda>_. (0, 0)) demo_lib 4 [(Ed_pidfded 0, EPOLLIN), (Ed_ifded (T_clttty 0), EPOLLIN)] demo_dying
    = Inl (Fault UseAfterFree)"
proof -
  let ?c = "demo_cmd\<lparr>c_pid := 77, c_pidfd := 9, c_deleteonexit := True,
        c_pidfded := \<lparr>hdlr = Some H_cmdPidEvent, obj = Some (O_cmd 0)\<rparr>\<rparr>"
  have c: "cmd_at demo_dying 0 = Inr ?c" "c_deleteonexit ?c" "c_name ?c = Some ''a''"
    "c_pidfded ?c = \<lparr>hdlr = Some H_cmdPidEvent, obj = Some (O_cmd 0)\<rparr>" "c_pidfd ?c = 9"
    by (simp_all add: demo_dying_def demo_sys_def demo_cmd_def)
  have g: "hh_find alist_ops (g_cmds (s_gbls demo_dying)) ''a'' = Some 0" "\<not> g_exitonidle (s_gbls demo_dying)"
    "g_cmdsreadycnt (s_gbls demo_dying) = 0" "g_readystrlen (s_gbls demo_dying) = 0"
    by (simp_all add: demo_dying_def demo_sys_def demo_gbls_def gbls_zero_def)
  have k: "k_wait (s_kern demo_dying) (k_tick (s_kern demo_dying)) = Some 0" "k_epoll (s_kern demo_dying) 9 \<noteq> None"
    by (simp_all add: demo_dying_def kern0_def)
  show ?thesis
    by (rule deleted_command_event_faults[OF c(1-4) g(1,2) _ _ k(1)]) (use c(5) g(3,4) k(2) in simp_all)
qed

section \<open>The exit of an idle program\<close>

lemma cleanup_logdir_kept:
  assumes "cleanup H s = Inr s'"
  shows "g_logdir (s_gbls s') = g_logdir (s_gbls s)"
    and "g_logdir (s_gbls s) \<noteq> None \<Longrightarrow> \<not> g_logdir_freed (s_gbls s) \<and> g_logdir_freed (s_gbls s')"
proof -
  let ?keep = "\<lambda>t. g_logdir (s_gbls t) = g_logdir (s_gbls s) \<and> g_logdir_freed (s_gbls t) = g_logdir_freed (s_gbls s)"
  let ?s0 = "cleanup_bcst s"
  have k0: "?keep ?s0" by (auto simp: cleanup_bcst_def split: prod.splits)
  from assms obtain s1 fs s3 g where r: "fold_res (cleanup_cmd H) (hh_iter H (g_cmds (s_gbls ?s0))) ?s0 = Inr s1"
    "cleanup_logfile (monCleanup (upd_gbls (\<lambda>g. g\<lparr>g_fs := fs\<rparr>) (upd_gbls (\<lambda>g. g\<lparr>g_slowestcmd := None\<rparr>) s1))) = Inr s3"
    "cleanup_logdir (s_gbls s3) = Inr g" "s' = sigprocCleanup (upd_gbls (\<lambda>_. cleanup_strings g) s3)"
    by (auto simp: cleanup_def Let_def bind_res_eq_Inr simp del: upd_gbls_simps(8))
  have k1: "?keep s1"
    by (rule fold_res_invariant[where P = ?keep, OF r(1) k0]) (auto elim!: cleanup_cmd_result)
  have mc: "g_logdir (s_gbls (monCleanup t)) = g_logdir (s_gbls t)"
    "g_logdir_freed (s_gbls (monCleanup t)) = g_logdir_freed (s_gbls t)" for t :: "'a sys"
    by (auto simp: monCleanup_def split: prod.splits)
  have lf: "cleanup_logfile t = Inr t' \<Longrightarrow> g_logdir (s_gbls t') = g_logdir (s_gbls t)
      \<and> g_logdir_freed (s_gbls t') = g_logdir_freed (s_gbls t)" for t t' :: "'a sys"
    by (auto simp: cleanup_logfile_def Let_def split: if_splits option.splits)
  have k3: "?keep s3" using lf[OF r(2)] k1 by (simp add: mc)
  have s': "g_logdir (s_gbls s') = g_logdir g" "g_logdir_freed (s_gbls s') = g_logdir_freed g"
    by (simp_all add: r(4) sigprocCleanup_def cleanup_strings_def)
  show "g_logdir (s_gbls s') = g_logdir (s_gbls s)"
    "g_logdir (s_gbls s) \<noteq> None \<Longrightarrow> \<not> g_logdir_freed (s_gbls s) \<and> g_logdir_freed (s_gbls s')"
    using r(3) k3 s' by (auto simp: cleanup_logdir_def split: option.splits if_splits)
qed

text \<open>C32: a program that keeps a log cannot leave when it becomes idle. The exit of an idle
  program cleans up and then calls \<open>exit\<close>, which cleans up again; the clean-up frees \<open>logdir\<close>
  but resets \<open>logpath\<close> in its place, so the second one frees the directory name twice. Whatever
  else happens, the program does not get to its exit status.\<close>

theorem idle_exit_with_log_faults:
  assumes "g_logdir (s_gbls s) \<noteq> None"
  shows "\<exists>e. (cleanup_and_exit H s :: 'h stop + 'a) = Inl (Fault e)"
proof (cases "cleanup H s")
  case (Inl e)
  then show ?thesis by (simp add: cleanup_and_exit_def)
next
  case (Inr s')
  from cleanup_logdir_kept[OF Inr] assms have k: "g_logdir (s_gbls s') \<noteq> None" "g_logdir_freed (s_gbls s')" by simp_all
  then obtain e where "cleanup H s' = Inl e"
    using cleanup_logdir_kept(2)[of H s'] by (cases "cleanup H s'") auto
  then show ?thesis using Inr by (simp add: cleanup_and_exit_def exit_with_def)
qed

theorem idle_exit_with_log_faults_witness:
  "\<exists>e. (cleanup_and_exit alist_ops (upd_gbls (\<lambda>g. g\<lparr>g_logdir := Some ''/w''\<rparr>) (demo_sys []))
     :: (string \<times> ptr) list stop + unit) = Inl (Fault e)"
  by (rule idle_exit_with_log_faults) simp

end
